(* ===== verification/Prelude.thy ===== *)
theory Prelude
  imports Main "HOL-Library.Finite_Map" "HOL-Library.List_Lexorder" "HOL-Library.Char_ord"
begin

text \<open>
  The shared vocabulary of the development.

  Go values: a \<open>string\<close> and a \<open>[]byte\<close> are both byte sequences, so both are
  HOL strings (an HOL character is a byte).  A Go \<open>map\<close> is a finite map; a map
  that may be \<open>nil\<close> and a pointer are options.  An \<open>int\<close> is an \<open>int\<close> with the
  64-bit wrap-around of its arithmetic written out.

  Go effects: an operation that changes state and may panic is a function from a state to
  an outcome and a state (\<open>go\<close>).  A panic keeps the state reached so far, because
  what was already written to a client stays written.
\<close>

named_theorems go_simps \<open>unfolding rules of the effect combinators\<close>
named_theorems go_rules \<open>composition rules for properties of actions\<close>
named_theorems bytes_simps \<open>rules that evaluate byte-level string operations\<close>

section \<open>Strings\<close>

definition has_prefix :: "string \<Rightarrow> string \<Rightarrow> bool" where
  "has_prefix p s \<longleftrightarrow> take (length p) s = p"

text \<open>\<open>strings.Contains\<close>: the needle starts at some suffix of the haystack.\<close>

fun contains :: "string \<Rightarrow> string \<Rightarrow> bool" where
  "contains [] needle = (needle = [])"
| "contains (c # s) needle = (has_prefix needle (c # s) \<or> contains s needle)"

lemma contains_iff: "contains s needle \<longleftrightarrow> (\<exists>a b. s = a @ needle @ b)"
proof (induction s)
  case Nil
  show ?case by auto
next
  case (Cons c s)
  have "has_prefix needle (c # s) \<longleftrightarrow> (\<exists>b. c # s = needle @ b)"
    unfolding has_prefix_def by (metis append_eq_conv_conj append_take_drop_id)
  moreover have "(\<exists>a b. c # s = a @ needle @ b) \<longleftrightarrow>
      (\<exists>b. c # s = needle @ b) \<or> (\<exists>a b. s = a @ needle @ b)"
    by (metis append_Cons append_Nil list.exhaust list.inject)
  ultimately show ?case using Cons.IH by simp
qed

definition to_lower :: "char \<Rightarrow> char" where
  "to_lower c = (if 65 \<le> (of_char c :: nat) \<and> (of_char c :: nat) \<le> 90
                 then char_of (of_char c + 32 :: nat) else c)"

definition to_upper :: "char \<Rightarrow> char" where
  "to_upper c = (if 97 \<le> (of_char c :: nat) \<and> (of_char c :: nat) \<le> 122
                 then char_of (of_char c - 32 :: nat) else c)"

fun join :: "string \<Rightarrow> string list \<Rightarrow> string" where
  "join sep [] = []"
| "join sep [x] = x"
| "join sep (x # y # xs) = x @ sep @ join sep (y # xs)"

lemma split_at_unique:
  assumes "a @ x # b = a' @ x # b'" and "x \<notin> set a" and "x \<notin> set a'"
  shows "a = a'" and "b = b'"
proof -
  have "takeWhile (\<lambda>y. y \<noteq> x) (a @ x # b) = a" and "takeWhile (\<lambda>y. y \<noteq> x) (a' @ x # b') = a'"
    using assms(2,3) by (auto simp: takeWhile_append)
  with assms(1) show "a = a'" by simp
  with assms(1) show "b = b'" by simp
qed

text \<open>Decimal notation of a natural number and of an integer, as \<open>strconv.Itoa\<close> prints it.\<close>

definition digit_char :: "nat \<Rightarrow> char" where
  "digit_char d = char_of (48 + d)"

fun show_nat :: "nat \<Rightarrow> string" where
  "show_nat n = (if n < 10 then [digit_char n] else show_nat (n div 10) @ [digit_char (n mod 10)])"

declare show_nat.simps [simp del]

definition itoa :: "int \<Rightarrow> string" where
  "itoa i = (if i < 0 then CHR ''-'' # show_nat (nat (- i)) else show_nat (nat i))"

definition is_digit :: "char \<Rightarrow> bool" where
  "is_digit c \<longleftrightarrow> 48 \<le> (of_char c :: nat) \<and> (of_char c :: nat) \<le> 57"

definition digit_val :: "char \<Rightarrow> nat" where
  "digit_val c = of_char c - 48"

definition nat_of_digits :: "string \<Rightarrow> nat" where
  "nat_of_digits ds = foldl (\<lambda>n c. 10 * n + digit_val c) 0 ds"

lemma digit_char_props:
  assumes "d < 10"
  shows "is_digit (digit_char d)" and "digit_val (digit_char d) = d"
  using assms by (simp_all add: is_digit_def digit_val_def digit_char_def)

lemma show_nat_digits: "\<forall>c \<in> set (show_nat n). is_digit c"
proof (induction n rule: show_nat.induct)
  case (1 n)
  then show ?case
    by (subst show_nat.simps) (auto simp: digit_char_props)
qed

lemma show_nat_nonempty [simp]: "show_nat n \<noteq> []"
  by (subst show_nat.simps) simp

lemma nat_of_digits_snoc: "nat_of_digits (ds @ [c]) = 10 * nat_of_digits ds + digit_val c"
  by (simp add: nat_of_digits_def)

lemma nat_of_digits_show_nat: "nat_of_digits (show_nat n) = n"
proof (induction n rule: show_nat.induct)
  case (1 n)
  show ?case
  proof (cases "n < 10")
    case True
    then show ?thesis
      by (subst show_nat.simps) (simp add: nat_of_digits_def digit_char_props)
  next
    case False
    with "1.IH" have "nat_of_digits (show_nat (n div 10)) = n div 10" by simp
    with False show ?thesis
      by (subst show_nat.simps) (simp add: nat_of_digits_snoc digit_char_props)
  qed
qed

lemma show_nat_inj: "show_nat m = show_nat n \<longleftrightarrow> m = n"
  by (metis nat_of_digits_show_nat)

lemma show_nat_no_leading_zero: "hd (show_nat n) = CHR ''0'' \<Longrightarrow> n = 0"
proof (induction n rule: show_nat.induct)
  case (1 n)
  show ?case
  proof (cases "n < 10")
    case True
    with "1.prems" have "digit_char n = CHR ''0''"
      by (simp add: show_nat.simps [of n])
    then have "digit_val (digit_char n) = digit_val (CHR ''0'')" by simp
    with True show ?thesis by (simp add: digit_char_props) (simp add: digit_val_def)
  next
    case False
    have "hd (show_nat n) = hd (show_nat (n div 10))"
      using False by (simp add: show_nat.simps [of n])
    with "1.prems" "1.IH" False show ?thesis by simp
  qed
qed

section \<open>64-bit integers\<close>

definition wrap64 :: "int \<Rightarrow> int" where
  "wrap64 i = (i + 2 ^ 63) mod 2 ^ 64 - 2 ^ 63"

definition in_int64 :: "int \<Rightarrow> bool" where
  "in_int64 i \<longleftrightarrow> - (2 ^ 63) \<le> i \<and> i < 2 ^ 63"

lemma wrap64_id: "in_int64 i \<Longrightarrow> wrap64 i = i"
  by (simp add: wrap64_def in_int64_def)

lemma wrap64_in_int64: "in_int64 (wrap64 i)"
  by (simp add: wrap64_def in_int64_def)

section \<open>Effects\<close>

datatype panic =
    NilDeref
  | NilMapWrite
  | IndexOutOfRange
  | BadTypeAssertion
  | AbortHandler

type_synonym ('s, 'a) go = "'s \<Rightarrow> (panic + 'a) \<times> 's"

definition go_return :: "'a \<Rightarrow> ('s, 'a) go" where
  "go_return x s = (Inr x, s)"

definition go_panic :: "panic \<Rightarrow> ('s, 'a) go" where
  "go_panic p s = (Inl p, s)"

definition go_bind :: "('s, 'a) go \<Rightarrow> ('a \<Rightarrow> ('s, 'b) go) \<Rightarrow> ('s, 'b) go" where
  "go_bind m f s = (case m s of (Inl p, s') \<Rightarrow> (Inl p, s') | (Inr x, s') \<Rightarrow> f x s')"

definition go_then :: "('s, 'a) go \<Rightarrow> ('s, 'b) go \<Rightarrow> ('s, 'b) go" where
  "go_then m k = go_bind m (\<lambda>_. k)"

definition go_read :: "('s \<Rightarrow> 'a) \<Rightarrow> ('s, 'a) go" where
  "go_read f s = (Inr (f s), s)"

definition go_modify :: "('s \<Rightarrow> 's) \<Rightarrow> ('s, unit) go" where
  "go_modify f s = (Inr (), f s)"

text \<open>A pure computation that may panic, run as an action.\<close>

definition go_lift :: "panic + 'a \<Rightarrow> ('s, 'a) go" where
  "go_lift r s = (r, s)"

lemmas go_defs [go_simps] =
  go_return_def go_panic_def go_then_def go_read_def go_modify_def go_lift_def

lemma go_bind_Inr [go_simps]: "m s = (Inr x, s') \<Longrightarrow> go_bind m f s = f x s'"
  by (simp add: go_bind_def)

lemma go_bind_Inl [go_simps]: "m s = (Inl p, s') \<Longrightarrow> go_bind m f s = (Inl p, s')"
  by (simp add: go_bind_def)

lemma go_bind_return: "go_bind m go_return = m"
proof
  fix s
  show "go_bind m go_return s = m s"
    by (cases "m s"; cases "fst (m s)") (auto simp: go_bind_def go_return_def)
qed

lemma go_return_bind: "go_bind (go_return x) f = f x"
  by (rule ext) (simp add: go_bind_def go_return_def)

lemma go_bind_assoc: "go_bind (go_bind m f) g = go_bind m (\<lambda>x. go_bind (f x) g)"
proof
  fix s
  show "go_bind (go_bind m f) g s = go_bind m (\<lambda>x. go_bind (f x) g) s"
    by (cases "m s"; cases "fst (m s)") (auto simp: go_bind_def)
qed

lemma go_bind_eq_Inr_iff:
  "go_bind m f s = (Inr y, s'') \<longleftrightarrow> (\<exists>x s'. m s = (Inr x, s') \<and> f x s' = (Inr y, s''))"
  by (auto simp: go_bind_def split: prod.splits sum.splits)

lemma go_bind_panic [go_simps]: "go_bind (go_panic p) f = go_panic p"
  by (rule ext) (simp add: go_bind_def go_panic_def)

text \<open>\<open>for _, x := range xs { body(x) }\<close>: a panic in the body ends the loop.\<close>

fun go_foreach :: "('k \<Rightarrow> ('s, unit) go) \<Rightarrow> 'k list \<Rightarrow> ('s, unit) go" where
  "go_foreach f [] = go_return ()"
| "go_foreach f (x # xs) = go_then (f x) (go_foreach f xs)"

lemma go_foreach_modify: "go_foreach (\<lambda>x. go_modify (g x)) xs s = (Inr (), fold g xs s)"
  by (induction xs arbitrary: s) (simp_all add: go_simps go_bind_def)

text \<open>An action on one half of a pair of states.\<close>

definition go_on_fst :: "('s, 'a) go \<Rightarrow> ('s \<times> 't, 'a) go" where
  "go_on_fst m st = (case m (fst st) of (r, s') \<Rightarrow> (r, (s', snd st)))"

text \<open>Run an action that has a local variable; the variable's last value is returned.\<close>

definition go_local :: "'t \<Rightarrow> ('s \<times> 't, 'a) go \<Rightarrow> ('s, 'a \<times> 't) go" where
  "go_local t m s = (case m (s, t) of
     (Inl p, st) \<Rightarrow> (Inl p, fst st)
   | (Inr x, st) \<Rightarrow> (Inr (x, snd st), fst st))"

text \<open>
  Two properties of an action: \<open>go_keeps f m\<close> says that running \<open>m\<close> leaves the observation \<open>f\<close>
  of the state as it was, also when \<open>m\<close> panics; \<open>go_total m\<close> says that \<open>m\<close> never panics.  Both
  are composed along the structure of the code by the rules collected in \<open>go_rules\<close>.
\<close>

definition go_keeps :: "('s \<Rightarrow> 'v) \<Rightarrow> ('s, 'a) go \<Rightarrow> bool" where
  "go_keeps f m \<longleftrightarrow> (\<forall>s. f (snd (m s)) = f s)"

definition go_total :: "('s, 'a) go \<Rightarrow> bool" where
  "go_total m \<longleftrightarrow> (\<forall>s. \<exists>x s'. m s = (Inr x, s'))"

lemma go_keepsD: "go_keeps f m \<Longrightarrow> m s = (r, s') \<Longrightarrow> f s' = f s"
  by (metis go_keeps_def snd_conv)

lemma keeps_basic [go_rules]:
  "go_keeps f (go_return x)" "go_keeps f (go_panic p)" "go_keeps f (go_read g)" "go_keeps f (go_lift r)"
  by (simp_all add: go_keeps_def go_defs)

lemma keeps_modify [go_rules]: "(\<And>s. f (g s) = f s) \<Longrightarrow> go_keeps f (go_modify g)"
  by (simp add: go_keeps_def go_defs)

lemma keeps_bind [go_rules]:
  assumes "go_keeps f m" and "\<And>x. go_keeps f (k x)"
  shows "go_keeps f (go_bind m k)"
  unfolding go_keeps_def
proof
  fix s
  obtain r s1 where m: "m s = (r, s1)" by (cases "m s")
  have "f s1 = f s" by (rule go_keepsD [OF assms(1) m])
  moreover have "f (snd (k x s1)) = f s1" for x using assms(2) by (simp add: go_keeps_def)
  ultimately show "f (snd (go_bind m k s)) = f s" by (cases r) (simp_all add: go_bind_def m)
qed

lemma keeps_then [go_rules]: "go_keeps f m \<Longrightarrow> go_keeps f k \<Longrightarrow> go_keeps f (go_then m k)"
  by (simp add: go_then_def keeps_bind)

lemma keeps_foreach [go_rules]: "(\<And>x. go_keeps f (body x)) \<Longrightarrow> go_keeps f (go_foreach body xs)"
  by (induction xs) (simp_all add: keeps_basic keeps_then)

lemma keeps_if [go_rules]: "go_keeps f a \<Longrightarrow> go_keeps f b \<Longrightarrow> go_keeps f (if c then a else b)"
  by simp

lemma keeps_option [go_rules]:
  "go_keeps f a \<Longrightarrow> (\<And>x. go_keeps f (b x)) \<Longrightarrow> go_keeps f (case v of None \<Rightarrow> a | Some x \<Rightarrow> b x)"
  by (cases v) simp_all

lemma keeps_sum [go_rules]:
  "(\<And>x. go_keeps f (a x)) \<Longrightarrow> (\<And>x. go_keeps f (b x)) \<Longrightarrow>
   go_keeps f (case v of Inl x \<Rightarrow> a x | Inr x \<Rightarrow> b x)"
  by (cases v) simp_all

lemma keeps_prod [go_rules]:
  "(\<And>x y. go_keeps f (a x y)) \<Longrightarrow> go_keeps f (case v of (x, y) \<Rightarrow> a x y)"
  by (cases v) simp

lemma keeps_on_fst: "go_keeps f m \<Longrightarrow> go_keeps (\<lambda>st. f (fst st)) (go_on_fst m)"
  unfolding go_keeps_def go_on_fst_def by (auto split: prod.split) (metis snd_conv)

lemma keeps_local [go_rules]: "go_keeps (\<lambda>st. f (fst st)) m \<Longrightarrow> go_keeps f (go_local t m)"
  unfolding go_keeps_def go_local_def by (auto split: prod.split sum.split) (metis fst_conv snd_conv)+

lemma total_basic [go_rules]:
  "go_total (go_return x)" "go_total (go_read g)" "go_total (go_modify h)" "go_total (go_lift (Inr y))"
  by (simp_all add: go_total_def go_defs)

lemma total_bind [go_rules]: "go_total m \<Longrightarrow> (\<And>x. go_total (k x)) \<Longrightarrow> go_total (go_bind m k)"
  unfolding go_total_def go_bind_def by (metis (mono_tags, lifting) prod.simps(2) sum.simps(6))

lemma total_then [go_rules]: "go_total m \<Longrightarrow> go_total k \<Longrightarrow> go_total (go_then m k)"
  by (simp add: go_then_def total_bind)

lemma total_if [go_rules]: "go_total a \<Longrightarrow> go_total b \<Longrightarrow> go_total (if c then a else b)"
  by simp

lemma total_on_fst [go_rules]: "go_total m \<Longrightarrow> go_total (go_on_fst m)"
  unfolding go_total_def go_on_fst_def by (auto split: prod.split) (metis prod.inject)

text \<open>\<open>xs[0]\<close>\<close>

fun first :: "'a list \<Rightarrow> panic + 'a" where
  "first [] = Inl IndexOutOfRange"
| "first (x # _) = Inr x"

section \<open>Iteration over a map\<close>

text \<open>
  Go leaves the order of \<open>range\<close> over a map unspecified.  A loop over a map takes the
  order it happens to run in as a list of keys, and \<open>is_order\<close> says which lists are
  possible: every key once, nothing else.
\<close>

definition is_order :: "string fset \<Rightarrow> string list \<Rightarrow> bool" where
  "is_order K ks \<longleftrightarrow> distinct ks \<and> set ks = fset K"

lemma is_order_sorted [simp, intro]: "is_order K (sorted_list_of_fset K)"
  by (simp add: is_order_def sorted_list_of_fset.rep_eq)

lemma is_order_mem: "is_order K ks \<Longrightarrow> k \<in> set ks \<longleftrightarrow> k |\<in>| K"
  by (simp add: is_order_def)

lemma fcard_none [simp]: "fcard {||} = 0"
  by (simp add: fcard.rep_eq)

lemma fmupd_not_empty [simp]: "fmupd k v m \<noteq> fmempty"
  by (metis fmempty_lookup fmupd_lookup option.distinct(1))

text \<open>A loop that stores one entry per key computes a map, whatever the order.\<close>

lemma fold_fmupd_lookup:
  "distinct ks \<Longrightarrow>
   fmlookup (fold (\<lambda>k m. fmupd k (f k) m) ks m0) x =
     (if x \<in> set ks then Some (f x) else fmlookup m0 x)"
  by (induction ks arbitrary: m0) auto

lemma fold_fmupd_order:
  assumes "is_order K ks" and "is_order K ks'"
  shows "fold (\<lambda>k m. fmupd k (f k) m) ks m0 = fold (\<lambda>k m. fmupd k (f k) m) ks' m0"
  using assms by (intro fmap_ext) (simp add: is_order_def fold_fmupd_lookup)

end
