(* ===== verification/Go_Float.thy ===== *)
theory Go_Float
  imports Prelude Complex_Main "HOL-Library.Log_Nat"
begin

text \<open>
  Go's \<open>float64\<close>: IEEE-754 binary64 with rounding to nearest, ties to even.  A finite
  value is its sign and its magnitude, an exact rational; the sign is kept apart so that
  the two zeros stay distinct.  Every operation computes the exact rational result and
  rounds it once, which is what the standard asks for.

  The lemmas bound the rounding error: at most one unit in \<open>2 ^ 53\<close> relative to the
  exact result, plus half of the smallest subnormal.
\<close>

datatype float64 = NaN | Inf bool | Fin bool rat

section \<open>Rounding\<close>

definition ilog2 :: "rat \<Rightarrow> int" where
  "ilog2 x = (let (p, q) = quotient_of x; k = bitlen p - bitlen q
              in if 2 powi k \<le> x then k else k - 1)"

definition round_half_even :: "rat \<Rightarrow> int" where
  "round_half_even x = (let f = \<lfloor>x\<rfloor>; d = x - of_int f
     in if d < 1 / 2 then f else if 1 / 2 < d then f + 1 else if even f then f else f + 1)"

text \<open>The spacing of the floats around a positive rational.\<close>

definition ulp64 :: "rat \<Rightarrow> rat" where
  "ulp64 x = 2 powi (max (ilog2 x) (- 1022) - 52)"

definition rnd64 :: "rat \<Rightarrow> rat" where
  "rnd64 x = (if x = 0 then 0 else of_int (round_half_even (x / ulp64 x)) * ulp64 x)"

text \<open>The float nearest to an exact value; \<open>s\<close> is the sign of an exact zero.\<close>

definition to_float :: "bool \<Rightarrow> rat \<Rightarrow> float64" where
  "to_float s x =
     (if x = 0 then Fin s 0
      else (let r = rnd64 \<bar>x\<bar> in if 2 ^ 1024 \<le> r then Inf (x < 0) else Fin (x < 0) r))"

fun fval :: "float64 \<Rightarrow> rat" where
  "fval (Fin s m) = (if s then - m else m)"
| "fval _ = 0"

fun is_fin :: "float64 \<Rightarrow> bool" where
  "is_fin (Fin _ _) = True"
| "is_fin _ = False"

section \<open>Operations\<close>

definition float_of_int :: "int \<Rightarrow> float64" where
  "float_of_int i = to_float False (of_int i)"

fun fneg :: "float64 \<Rightarrow> float64" where
  "fneg NaN = NaN"
| "fneg (Inf s) = Inf (\<not> s)"
| "fneg (Fin s m) = Fin (\<not> s) m"

fun fadd :: "float64 \<Rightarrow> float64 \<Rightarrow> float64" where
  "fadd NaN _ = NaN"
| "fadd _ NaN = NaN"
| "fadd (Inf s) (Inf t) = (if s = t then Inf s else NaN)"
| "fadd (Inf s) _ = Inf s"
| "fadd _ (Inf t) = Inf t"
| "fadd (Fin s m) (Fin t n) = to_float (s \<and> t) (fval (Fin s m) + fval (Fin t n))"

definition fsub :: "float64 \<Rightarrow> float64 \<Rightarrow> float64" where
  "fsub a b = fadd a (fneg b)"

fun fmul :: "float64 \<Rightarrow> float64 \<Rightarrow> float64" where
  "fmul NaN _ = NaN"
| "fmul _ NaN = NaN"
| "fmul (Inf s) (Inf t) = Inf (s \<noteq> t)"
| "fmul (Inf s) (Fin t n) = (if n = 0 then NaN else Inf (s \<noteq> t))"
| "fmul (Fin s m) (Inf t) = (if m = 0 then NaN else Inf (s \<noteq> t))"
| "fmul (Fin s m) (Fin t n) = to_float (s \<noteq> t) (fval (Fin s m) * fval (Fin t n))"

fun fdiv :: "float64 \<Rightarrow> float64 \<Rightarrow> float64" where
  "fdiv NaN _ = NaN"
| "fdiv _ NaN = NaN"
| "fdiv (Inf s) (Inf t) = NaN"
| "fdiv (Inf s) (Fin t n) = Inf (s \<noteq> t)"
| "fdiv (Fin s m) (Inf t) = Fin (s \<noteq> t) 0"
| "fdiv (Fin s m) (Fin t n) =
     (if n = 0 then (if m = 0 then NaN else Inf (s \<noteq> t))
      else to_float (s \<noteq> t) (fval (Fin s m) / fval (Fin t n)))"

fun flt :: "float64 \<Rightarrow> float64 \<Rightarrow> bool" where
  "flt NaN _ = False"
| "flt _ NaN = False"
| "flt (Inf s) (Inf t) = (s \<and> \<not> t)"
| "flt (Inf s) (Fin _ _) = s"
| "flt (Fin _ _) (Inf t) = (\<not> t)"
| "flt (Fin s m) (Fin t n) = (fval (Fin s m) < fval (Fin t n))"

text \<open>
  The conversion \<open>int(f)\<close> truncates towards zero.  Out of range the language leaves the
  result to the implementation; amd64 gives the smallest integer, which is what is used.
\<close>

fun int_of_float :: "float64 \<Rightarrow> int" where
  "int_of_float (Fin s m) = (let t = (if s then - \<lfloor>m\<rfloor> else \<lfloor>m\<rfloor>)
                             in if in_int64 t then t else - (2 ^ 63))"
| "int_of_float _ = - (2 ^ 63)"

section \<open>The binary exponent\<close>

lemma powi2_less_imp: "(2 :: rat) powi a < 2 powi b \<Longrightarrow> a < b"
  using power_int_increasing [of b a "2 :: rat"] by (meson linorder_not_less one_le_numeral)

lemma bitlen_bounds_int:
  assumes "0 < p"
  shows "2 powi (bitlen p - 1) \<le> (of_int p :: rat)" and "(of_int p :: rat) < 2 powi (bitlen p)"
proof -
  define k where "k = nat (bitlen p - 1)"
  have pos: "0 < bitlen p"
    using assms bitlen_nonneg [of p] bitlen_eq_zero_iff [of p] by linarith
  then have k: "bitlen p = int k + 1" by (simp add: k_def)
  have lo: "2 ^ k \<le> p" and hi: "p < 2 ^ Suc k"
    using bitlen_bounds [OF assms] by (simp_all add: k nat_add_distrib)
  have "(of_int (2 ^ k) :: rat) \<le> of_int p" using lo by (simp only: of_int_le_iff)
  then show "2 powi (bitlen p - 1) \<le> (of_int p :: rat)" by (simp add: k)
  have "(of_int p :: rat) < of_int (2 ^ Suc k)" using hi by (simp only: of_int_less_iff)
  then show "(of_int p :: rat) < 2 powi (bitlen p)" by (simp add: k power_int_add)
qed

lemma ilog2_bounds:
  assumes "0 < x"
  shows "2 powi (ilog2 x) \<le> x" and "x < 2 powi (ilog2 x + 1)"
proof -
  obtain p q where pq: "quotient_of x = (p, q)" by (cases "quotient_of x")
  have q: "0 < q" using pq by (rule quotient_of_denom_pos)
  have x: "x = of_int p / of_int q" using pq by (rule quotient_of_div)
  have p: "0 < p" using assms q x by (simp add: zero_less_divide_iff)
  define k where "k = bitlen p - bitlen q"
  note P = bitlen_bounds_int [OF p] and Q = bitlen_bounds_int [OF q]
  have lo: "2 powi (k - 1) \<le> x"
  proof -
    have "2 powi (k - 1) = (2 powi (bitlen p - 1) :: rat) / 2 powi (bitlen q)"
      by (simp add: k_def power_int_diff)
    also have "\<dots> \<le> of_int p / of_int q"
      using P(1) Q(2) p q by (intro frac_le) auto
    finally show ?thesis by (simp add: x)
  qed
  have hi: "x < 2 powi (k + 1)"
  proof -
    have "x < (2 powi (bitlen p) :: rat) / 2 powi (bitlen q - 1)"
      unfolding x using P Q(1) q p by (intro frac_less) auto
    also have "\<dots> = 2 powi (k + 1)"
      by (simp add: k_def power_int_diff power_int_add)
    finally show ?thesis .
  qed
  have e: "ilog2 x = (if 2 powi k \<le> x then k else k - 1)"
    by (simp add: ilog2_def pq k_def)
  show "2 powi (ilog2 x) \<le> x" using e lo by simp
  show "x < 2 powi (ilog2 x + 1)" using e hi by (simp split: if_splits)
qed

section \<open>Rounding error\<close>

lemma round_half_even_error: "\<bar>of_int (round_half_even x) - x\<bar> \<le> 1 / 2"
proof -
  have "of_int \<lfloor>x\<rfloor> \<le> x" and "x < of_int \<lfloor>x\<rfloor> + 1" by linarith+
  then show ?thesis by (simp add: round_half_even_def Let_def abs_le_iff)
qed

lemma round_half_even_int: "round_half_even (of_int i) = i"
  by (simp add: round_half_even_def Let_def)

lemma ulp64_pos [simp]: "0 < ulp64 x"
  by (simp add: ulp64_def)

lemma rnd64_error:
  assumes "0 \<le> x"
  shows "\<bar>rnd64 x - x\<bar> \<le> x / 2 ^ 53 + 2 powi (- 1075)"
proof (cases "x = 0")
  case True
  then show ?thesis by (simp add: rnd64_def)
next
  case False
  with assms have x: "0 < x" by simp
  let ?u = "ulp64 x"
  have "rnd64 x - x = (of_int (round_half_even (x / ?u)) - x / ?u) * ?u"
    using False less_imp_neq [OF ulp64_pos [of x]] by (simp add: rnd64_def left_diff_distrib)
  then have "\<bar>rnd64 x - x\<bar> = \<bar>of_int (round_half_even (x / ?u)) - x / ?u\<bar> * ?u"
    using abs_of_pos [OF ulp64_pos [of x]] by (simp add: abs_mult)
  also have "\<dots> \<le> 1 / 2 * ?u"
    using round_half_even_error [of "x / ?u"] by (intro mult_right_mono) (auto simp: less_imp_le)
  also have "1 / 2 * ?u \<le> x / 2 ^ 53 + 2 powi (- 1075)"
  proof (cases "- 1022 \<le> ilog2 x")
    case True
    have "1 / 2 * ?u = 2 powi (ilog2 x) / 2 ^ 53"
      using True by (simp add: ulp64_def max_def power_int_diff)
    also have "\<dots> \<le> x / 2 ^ 53" using ilog2_bounds(1) [OF x] by (simp add: divide_right_mono)
    also have "x / 2 ^ 53 \<le> x / 2 ^ 53 + 2 powi (- 1075)" by (simp add: less_imp_le)
    finally show ?thesis .
  next
    case False
    then have "1 / 2 * ?u = 2 powi (- 1075)"
      by (simp add: ulp64_def power_int_diff power_int_minus field_simps)
    then show ?thesis using x by simp
  qed
  finally show ?thesis .
qed

lemma rnd64_int:
  assumes "0 \<le> i" and "i < 2 ^ 53"
  shows "rnd64 (of_int i) = of_int i"
proof (cases "i = 0")
  case True
  then show ?thesis by (simp add: rnd64_def)
next
  case False
  with assms have pos: "0 < (of_int i :: rat)" by simp
  let ?e = "ilog2 (of_int i)"
  have "(2 :: rat) powi ?e < 2 powi 53"
  proof -
    have "(2 :: rat) powi ?e \<le> of_int i" by (rule ilog2_bounds(1) [OF pos])
    also have "\<dots> < of_int (2 ^ 53)" using assms(2) by (simp only: of_int_less_iff)
    finally show ?thesis by simp
  qed
  then have hi: "?e < 53" by (rule powi2_less_imp)
  have "(1 :: rat) < 2 powi (?e + 1)"
  proof -
    have "1 \<le> (of_int i :: rat)" using False assms by (simp add: int_one_le_iff_zero_less)
    also have "\<dots> < 2 powi (?e + 1)" by (rule ilog2_bounds(2) [OF pos])
    finally show ?thesis .
  qed
  then have "(2 :: rat) powi 0 < 2 powi (?e + 1)" by simp
  then have "0 < ?e + 1" by (rule powi2_less_imp)
  then have lo: "0 \<le> ?e" by simp
  define k where "k = nat (52 - ?e)"
  have u: "ulp64 (of_int i) = 1 / 2 ^ k"
    using lo hi by (simp add: ulp64_def max_def k_def power_int_def inverse_eq_divide power_one_over)
  have "of_int i / ulp64 (of_int i) = (of_int (i * 2 ^ k) :: rat)" by (simp add: u)
  then have "rnd64 (of_int i) = of_int (round_half_even (of_int (i * 2 ^ k))) * (1 / 2 ^ k)"
    using False by (simp add: rnd64_def u)
  then show ?thesis by (simp only: round_half_even_int) simp
qed

lemma rnd64_nonneg: "0 \<le> x \<Longrightarrow> 0 \<le> rnd64 x"
proof -
  assume x: "0 \<le> x"
  have "0 \<le> \<lfloor>x / ulp64 x\<rfloor>" using x by (simp add: less_imp_le)
  then have "0 \<le> round_half_even (x / ulp64 x)" by (auto simp: round_half_even_def Let_def)
  then show ?thesis by (simp add: rnd64_def less_imp_le)
qed

text \<open>The error of one rounding, for results far from overflow.\<close>

lemma to_float_fin:
  assumes "\<bar>x\<bar> \<le> 2 ^ 1000"
  shows "is_fin (to_float s x)"
    and "\<bar>fval (to_float s x) - x\<bar> \<le> \<bar>x\<bar> / 2 ^ 53 + 2 powi (- 1075)"
proof -
  note err = rnd64_error [of "\<bar>x\<bar>"]
  have "(2 :: rat) powi (- 1075) \<le> 1" by (simp add: power_int_minus)
  moreover have "\<bar>x\<bar> / 2 ^ 53 \<le> \<bar>x\<bar>" by (simp add: field_simps mult_le_cancel_left1)
  ultimately have "rnd64 \<bar>x\<bar> \<le> 2 * \<bar>x\<bar> + 1" using err by linarith
  also have "\<dots> \<le> 2 * 2 ^ 1000 + 1" using assms by linarith
  also have "\<dots> < (2 :: rat) ^ 1024" by simp
  finally have small: "\<not> 2 ^ 1024 \<le> rnd64 \<bar>x\<bar>" by (simp only: not_le)
  then show "is_fin (to_float s x)" by (simp add: to_float_def Let_def)
  show "\<bar>fval (to_float s x) - x\<bar> \<le> \<bar>x\<bar> / 2 ^ 53 + 2 powi (- 1075)"
    using err small by (cases "x < 0") (auto simp: to_float_def Let_def)
qed

lemma to_float_int:
  assumes "\<bar>i\<bar> < 2 ^ 53"
  shows "to_float s (of_int i) = Fin (if i = 0 then s else i < 0) \<bar>of_int i\<bar>"
proof -
  have r: "rnd64 (of_int \<bar>i\<bar>) = of_int \<bar>i\<bar>" using assms by (intro rnd64_int) auto
  have "(of_int \<bar>i\<bar> :: rat) < of_int (2 ^ 53)" using assms by (simp only: of_int_less_iff)
  also have "(of_int (2 ^ 53) :: rat) \<le> 2 ^ 1024" by simp
  finally have "\<not> (2 ^ 1024 :: rat) \<le> of_int \<bar>i\<bar>" by (simp only: not_le)
  with r show ?thesis by (auto simp: to_float_def Let_def of_int_abs)
qed

lemma float_of_int_exact:
  assumes "\<bar>i\<bar> < 2 ^ 53"
  shows "is_fin (float_of_int i)" and "fval (float_of_int i) = of_int i"
  using to_float_int [OF assms, of False] by (auto simp: float_of_int_def)

lemma is_fin_cases: "is_fin a \<Longrightarrow> (\<And>s m. a = Fin s m \<Longrightarrow> P) \<Longrightarrow> P"
  by (cases a) auto

lemma fin_ops:
  assumes "is_fin a" and "is_fin b"
  shows "\<exists>s. fsub a b = to_float s (fval a - fval b)"
    and "\<exists>s. fmul a b = to_float s (fval a * fval b)"
    and "fval b \<noteq> 0 \<Longrightarrow> \<exists>s. fdiv a b = to_float s (fval a / fval b)"
    and "flt a b \<longleftrightarrow> fval a < fval b"
  using assms by (auto elim!: is_fin_cases simp: fsub_def split: if_splits)

section \<open>Rounding at a known exponent\<close>

lemma ilog2_unique:
  assumes "2 powi e \<le> x" and "x < 2 powi (e + 1)"
  shows "ilog2 x = e"
proof -
  have x: "0 < x" by (rule less_le_trans [OF _ assms(1)]) simp
  have "(2 :: rat) powi e < 2 powi (ilog2 x + 1)" using assms(1) ilog2_bounds(2) [OF x] by (rule le_less_trans)
  moreover have "(2 :: rat) powi (ilog2 x) < 2 powi (e + 1)" using ilog2_bounds(1) [OF x] assms(2) by (rule le_less_trans)
  ultimately show ?thesis by (auto dest!: powi2_less_imp)
qed

lemma rnd64_at:
  assumes "2 powi e \<le> x" and "x < 2 powi (e + 1)" and "- 1022 \<le> e"
  shows "rnd64 x = of_int (round_half_even (x / 2 powi (e - 52))) * 2 powi (e - 52)"
proof -
  have "x \<noteq> 0" using assms(1) by (metis not_less zero_less_numeral zero_less_power_int)
  then show ?thesis using assms(3) by (simp add: rnd64_def ulp64_def ilog2_unique [OF assms(1,2)] max_def)
qed

lemma powi_neg: "(2 :: rat) powi (- numeral n) = 1 / 2 ^ numeral n"
  by (simp only: power_int_minus_divide power_int_numeral)

lemma to_float_near:
  assumes "\<bar>x\<bar> \<le> B" and "B \<le> 2 ^ 51"
  shows "is_fin (to_float s x)" and "\<bar>fval (to_float s x) - x\<bar> \<le> B / 2 ^ 53 + 1 / 2 ^ 54"
proof -
  have "(2 :: rat) ^ 51 \<le> 2 ^ 1000" by (rule power_increasing) auto
  then have b: "\<bar>x\<bar> \<le> 2 ^ 1000" using assms by linarith
  then show "is_fin (to_float s x)" by (rule to_float_fin(1))
  have "(2 :: rat) powi (- 1075) \<le> 2 powi (- 54)" by (rule power_int_increasing) auto
  also have "(2 :: rat) powi (- 54) = 1 / 2 ^ 54" by (rule powi_neg)
  finally have "(2 :: rat) powi (- 1075) \<le> 1 / 2 ^ 54" .
  moreover have "\<bar>x\<bar> / 2 ^ 53 \<le> B / 2 ^ 53" using assms(1) by (intro divide_right_mono) auto
  ultimately show "\<bar>fval (to_float s x) - x\<bar> \<le> B / 2 ^ 53 + 1 / 2 ^ 54"
    using to_float_fin(2) [OF b, of s] by linarith
qed

end
