(* ===== verification/Go_Json.thy ===== *)
theory Go_Json
  imports Prelude Go_Float
begin

text \<open>
  The part of Go's encoding/json the proxy uses: \<open>json.Unmarshal\<close> of a byte slice into
  a \<open>map[string]any\<close> or into a parameter struct, and \<open>json.Marshal\<close> of such a map.

  \<open>any\<close> is what an \<open>interface{}\<close> of the program can hold.  \<open>json\<close> is the syntax tree of a
  JSON text; number literals keep their digits, because decoding into an \<open>int\<close> field and
  into a \<open>float64\<close> treat them differently.  The scanner is a recursive descent with fuel:
  every call passes one unit less on, and \<open>json_parse\<close> starts with twice the length of the
  input plus two, which \<open>parse_fuel_enough\<close> in the theory Json\_Text shows is never used up.
\<close>

datatype any =
    ANil
  | ABool bool
  | AInt int
  | AFloat float64
  | AString string
  | ASlice "any list"
  | AMap "(string, any) fmap"

record numlit =
  nl_neg :: bool
  nl_int :: string
  nl_frac :: "string option"
  nl_exp :: "int option"

datatype json =
    JNull
  | JBool bool
  | JNum numlit
  | JStr string
  | JArr "json list"
  | JObj "(string \<times> json) list"

section \<open>UTF-8\<close>

definition byte_in :: "char \<Rightarrow> nat \<Rightarrow> nat \<Rightarrow> bool" where
  "byte_in c lo hi \<longleftrightarrow> lo \<le> of_char c \<and> of_char c \<le> hi"

definition is_cont :: "char \<Rightarrow> bool" where
  "is_cont c \<longleftrightarrow> byte_in c 128 191"

text \<open>
  The number of bytes of the valid multi-byte sequence a string starts with, 0 when it
  starts with none (\<open>utf8.DecodeRune\<close> then yields the replacement rune of width one).
\<close>

fun rune_len :: "string \<Rightarrow> nat" where
  "rune_len (a # b # c # d # _) =
     (if byte_in a 194 223 \<and> is_cont b then 2
      else if byte_in a 224 239 \<and> is_cont c \<and>
        (if byte_in a 224 224 then byte_in b 160 191
         else if byte_in a 237 237 then byte_in b 128 159 else is_cont b) then 3
      else if byte_in a 240 244 \<and> is_cont c \<and> is_cont d \<and>
        (if byte_in a 240 240 then byte_in b 144 191
         else if byte_in a 244 244 then byte_in b 128 143 else is_cont b) then 4
      else 0)"
| "rune_len [a, b, c] =
     (if byte_in a 194 223 \<and> is_cont b then 2
      else if byte_in a 224 239 \<and> is_cont c \<and>
        (if byte_in a 224 224 then byte_in b 160 191
         else if byte_in a 237 237 then byte_in b 128 159 else is_cont b) then 3
      else 0)"
| "rune_len [a, b] = (if byte_in a 194 223 \<and> is_cont b then 2 else 0)"
| "rune_len _ = 0"

definition encode_rune :: "nat \<Rightarrow> string" where
  "encode_rune r =
     (if r < 128 then [char_of r]
      else if r < 2048 then [char_of (192 + r div 64), char_of (128 + r mod 64)]
      else if r < 65536 then
        [char_of (224 + r div 4096), char_of (128 + r div 64 mod 64), char_of (128 + r mod 64)]
      else [char_of (240 + r div 262144), char_of (128 + r div 4096 mod 64),
            char_of (128 + r div 64 mod 64), char_of (128 + r mod 64)])"

definition replacement_bytes :: string where
  "replacement_bytes = encode_rune 65533"

section \<open>Quoting\<close>

definition hex_digit :: "nat \<Rightarrow> char" where
  "hex_digit n = (if n < 10 then char_of (48 + n) else char_of (87 + n))"

definition ch_quote :: char where "ch_quote = char_of (34 :: nat)"
definition ch_back :: char where "ch_back = char_of (92 :: nat)"

text \<open>\<open>htmlSafeSet\<close>: what \<open>json.Marshal\<close> copies of the ASCII range.\<close>

definition html_safe :: "char \<Rightarrow> bool" where
  "html_safe c \<longleftrightarrow> byte_in c 32 127 \<and> of_char c \<notin> {34, 92, 60, 62, 38 :: nat}"

definition esc_ascii :: "char \<Rightarrow> string" where
  "esc_ascii c = (let n = (of_char c :: nat) in
     if html_safe c then [c]
     else if n = 34 \<or> n = 92 then [ch_back, c]
     else if n = 8 then [ch_back, CHR ''b'']
     else if n = 12 then [ch_back, CHR ''f'']
     else if n = 10 then [ch_back, CHR ''n'']
     else if n = 13 then [ch_back, CHR ''r'']
     else if n = 9 then [ch_back, CHR ''t'']
     else [ch_back, CHR ''u'', CHR ''0'', CHR ''0'', hex_digit (n div 16), hex_digit (n mod 16)])"

text \<open>The line and paragraph separators U+2028 and U+2029 are escaped as well.\<close>

definition esc_rune :: "string \<Rightarrow> string" where
  "esc_rune bs =
     (if bs = encode_rune 8232 then ch_back # ''u2028''
      else if bs = encode_rune 8233 then ch_back # ''u2029'' else bs)"

function quote_body :: "string \<Rightarrow> string" where
  "quote_body [] = []"
| "quote_body (c # cs) =
     (if (of_char c :: nat) < 128 then esc_ascii c @ quote_body cs
      else if rune_len (c # cs) = 0 then (ch_back # ''ufffd'') @ quote_body cs
      else esc_rune (take (rune_len (c # cs)) (c # cs)) @ quote_body (drop (rune_len (c # cs)) (c # cs)))"
  by pat_completeness auto
termination
  by (relation "measure length") (auto simp: less_Suc_eq_le)

definition quote :: "string \<Rightarrow> string" where
  "quote s = ch_quote # quote_body s @ [ch_quote]"

section \<open>Floats in decimal\<close>

text \<open>
  \<open>strconv.AppendFloat(f, fmt, -1, 64)\<close>: the shortest digit string that reads back as the
  same float, and the closest to it among those.  \<open>dec_exp\<close> is the position of the
  decimal point of a positive rational (\<open>0.d1 d2 ... * 10 ^ dec_exp\<close>); the smallest
  positive float64 is above \<open>10 ^ -330\<close>, and 17 digits always suffice.
\<close>

definition dec_exp :: "rat \<Rightarrow> int" where
  "dec_exp x = (if 1 \<le> x then int (length (show_nat (nat \<lfloor>x\<rfloor>)))
                else hd (filter (\<lambda>k. x < 10 powi k) [- 330 .. 0] @ [0]))"

definition dec_candidates :: "nat \<Rightarrow> rat \<Rightarrow> int list" where
  "dec_candidates n x = (let u = 10 powi (dec_exp x - int n); lo = \<lfloor>x / u\<rfloor>; hi = \<lceil>x / u\<rceil>
     in if x - of_int lo * u \<le> of_int hi * u - x then [lo, hi] else [hi, lo])"

fun shortest_from :: "rat \<Rightarrow> nat list \<Rightarrow> int \<times> int" where
  "shortest_from x [] = (0, 0)"
| "shortest_from x (n # ns) =
     (case filter (\<lambda>d. rnd64 (of_int d * 10 powi (dec_exp x - int n)) = x) (dec_candidates n x) of
        d # _ \<Rightarrow> if d = 10 ^ n then (1, dec_exp x) else (d, dec_exp x - int n)
      | [] \<Rightarrow> shortest_from x ns)"

definition shortest_digits :: "rat \<Rightarrow> int \<times> int" where
  "shortest_digits x = shortest_from x [1..<18]"

text \<open>
  The value \<open>d * 10 ^ e\<close> in the two formats \<open>encoding/json\<close> chooses from: plain decimal
  notation, and an exponent of at least one digit for tiny and huge magnitudes.
\<close>

definition format_f :: "int \<Rightarrow> int \<Rightarrow> string" where
  "format_f d e = (let ds = show_nat (nat d) in
     if 0 \<le> e then ds @ replicate (nat e) CHR ''0''
     else (let k = nat (- e) in
       if k < length ds then take (length ds - k) ds @ CHR ''.'' # drop (length ds - k) ds
       else ''0.'' @ replicate (k - length ds) CHR ''0'' @ ds))"

definition format_e :: "int \<Rightarrow> int \<Rightarrow> string" where
  "format_e d e = (let ds = show_nat (nat d); x = e + int (length ds) - 1 in
     hd ds # (if tl ds = [] then [] else CHR ''.'' # tl ds) @ CHR ''e'' #
       (if x < 0 then CHR ''-'' else CHR ''+'') #
       show_nat (nat \<bar>x\<bar>))"

fun format_float :: "float64 \<Rightarrow> string option" where
  "format_float (Fin s m) =
     Some ((if s then ''-'' else []) @
       (if m = 0 then ''0''
        else (let (d, e) = shortest_digits m
              in if m < 1 / 10 ^ 6 \<or> 10 ^ 21 \<le> m then format_e d e else format_f d e)))"
| "format_float _ = None"

section \<open>Marshal\<close>

fun opt_seq :: "'a option list \<Rightarrow> 'a list option" where
  "opt_seq [] = Some []"
| "opt_seq (None # _) = None"
| "opt_seq (Some x # xs) = map_option ((#) x) (opt_seq xs)"

definition marshal_slice :: "string option list \<Rightarrow> string option" where
  "marshal_slice xs = map_option (\<lambda>ts. ''['' @ join '','' ts @ '']'') (opt_seq xs)"

text \<open>A map is written with its keys in ascending byte order.\<close>

definition marshal_map :: "(string, string option) fmap \<Rightarrow> string option" where
  "marshal_map m = map_option (\<lambda>ts. ''{'' @ join '','' ts @ ''}'')
     (opt_seq (map (\<lambda>k. map_option (\<lambda>t. quote k @ '':'' @ t) (the (fmlookup m k)))
                   (sorted_list_of_fset (fmdom m))))"

primrec json_marshal :: "any \<Rightarrow> string option" where
  "json_marshal ANil = Some ''null''"
| "json_marshal (ABool b) = Some (if b then ''true'' else ''false'')"
| "json_marshal (AInt i) = Some (itoa i)"
| "json_marshal (AFloat f) = format_float f"
| "json_marshal (AString s) = Some (quote s)"
| "json_marshal (ASlice xs) = marshal_slice (map json_marshal xs)"
| "json_marshal (AMap m) = marshal_map (fmmap json_marshal m)"

section \<open>Scanning\<close>

definition is_ws :: "char \<Rightarrow> bool" where
  "is_ws c \<longleftrightarrow> of_char c \<in> {32, 9, 13, 10 :: nat}"

definition skip_ws :: "string \<Rightarrow> string" where
  "skip_ws s = dropWhile is_ws s"

definition hex_val :: "char \<Rightarrow> nat option" where
  "hex_val c = (let n = (of_char c :: nat) in
     if byte_in c 48 57 then Some (n - 48)
     else if byte_in c 97 102 then Some (n - 87)
     else if byte_in c 65 70 then Some (n - 55) else None)"

fun hex4 :: "string \<Rightarrow> nat option" where
  "hex4 (a # b # c # d # _) =
     (case (hex_val a, hex_val b, hex_val c, hex_val d) of
        (Some w, Some x, Some y, Some z) \<Rightarrow> Some (4096 * w + 256 * x + 16 * y + z)
      | _ \<Rightarrow> None)"
| "hex4 _ = None"

definition unescape :: "char \<Rightarrow> char option" where
  "unescape c =
     (if c = ch_quote \<or> c = ch_back \<or> c = CHR ''/'' then Some c
      else if c = CHR ''b'' then Some (char_of (8 :: nat))
      else if c = CHR ''f'' then Some (char_of (12 :: nat))
      else if c = CHR ''n'' then Some (char_of (10 :: nat))
      else if c = CHR ''r'' then Some (char_of (13 :: nat))
      else if c = CHR ''t'' then Some (char_of (9 :: nat)) else None)"

text \<open>
  The rune of a \<open>\uXXXX\<close> escape and how many bytes after the \<open>u\<close> it takes: a high
  surrogate joins a low one that follows it at once; a lone surrogate is U+FFFD.
\<close>

definition unescape_u :: "string \<Rightarrow> (nat \<times> nat) option" where
  "unescape_u s = (case hex4 s of
     None \<Rightarrow> None
   | Some r \<Rightarrow>
       if 55296 \<le> r \<and> r < 57344 then
         (case drop 4 s of
            a # b # t \<Rightarrow>
              (case hex4 t of
                 Some r2 \<Rightarrow>
                   if a = ch_back \<and> b = CHR ''u'' \<and> r < 56320 \<and> 56320 \<le> r2 \<and> r2 < 57344
                   then Some (65536 + (r - 55296) * 1024 + (r2 - 56320), 10) else Some (65533, 4)
               | None \<Rightarrow> Some (65533, 4))
          | _ \<Rightarrow> Some (65533, 4))
       else Some (r, 4))"

text \<open>The rest of a string literal, after its opening quote: its value and what follows.\<close>

function scan_string :: "string \<Rightarrow> (string \<times> string) option" where
  "scan_string [] = None"
| "scan_string (c # cs) =
     (if c = ch_quote then Some ([], cs)
      else if c = ch_back then
        (case cs of
           [] \<Rightarrow> None
         | e # r \<Rightarrow>
             if e = CHR ''u'' then
               (case unescape_u r of
                  None \<Rightarrow> None
                | Some (rn, k) \<Rightarrow>
                    map_option (\<lambda>(v, t). (encode_rune rn @ v, t)) (scan_string (drop k r)))
             else (case unescape e of
                     None \<Rightarrow> None
                   | Some x \<Rightarrow> map_option (\<lambda>(v, t). (x # v, t)) (scan_string r)))
      else if (of_char c :: nat) < 32 then None
      else if (of_char c :: nat) < 128 then map_option (\<lambda>(v, t). (c # v, t)) (scan_string cs)
      else if rune_len (c # cs) = 0 then
        map_option (\<lambda>(v, t). (replacement_bytes @ v, t)) (scan_string cs)
      else map_option (\<lambda>(v, t). (take (rune_len (c # cs)) (c # cs) @ v, t))
             (scan_string (drop (rune_len (c # cs)) (c # cs))))"
  by pat_completeness auto
termination
  by (relation "measure length") (auto simp: less_Suc_eq_le)

definition scan_digits :: "string \<Rightarrow> string \<times> string" where
  "scan_digits s = (takeWhile is_digit s, dropWhile is_digit s)"

definition scan_int_part :: "string \<Rightarrow> (string \<times> string) option" where
  "scan_int_part s = (case s of
     [] \<Rightarrow> None
   | c # r \<Rightarrow> if c = CHR ''0'' then Some (''0'', r)
             else if is_digit c then Some (scan_digits s) else None)"

definition scan_frac :: "string \<Rightarrow> (string option \<times> string) option" where
  "scan_frac s = (case s of
     c # r \<Rightarrow> if c = CHR ''.'' then
               (let (ds, t) = scan_digits r in if ds = [] then None else Some (Some ds, t))
             else Some (None, s)
   | [] \<Rightarrow> Some (None, s))"

definition scan_exp :: "string \<Rightarrow> (int option \<times> string) option" where
  "scan_exp s = (case s of
     c # r \<Rightarrow>
       if c = CHR ''e'' \<or> c = CHR ''E'' then
         (let (neg, r') = (case r of
                x # y \<Rightarrow> if x = CHR ''-'' then (True, y) else if x = CHR ''+'' then (False, y) else (False, r)
              | [] \<Rightarrow> (False, r));
              (ds, t) = scan_digits r'
          in if ds = [] then None
             else Some (Some (if neg then - int (nat_of_digits ds) else int (nat_of_digits ds)), t))
       else Some (None, s)
   | [] \<Rightarrow> Some (None, s))"

definition scan_number :: "string \<Rightarrow> (numlit \<times> string) option" where
  "scan_number s =
     (let (neg, s1) = (case s of c # r \<Rightarrow> if c = CHR ''-'' then (True, r) else (False, s) | [] \<Rightarrow> (False, s))
      in case scan_int_part s1 of
           None \<Rightarrow> None
         | Some (ds, s2) \<Rightarrow>
             (case scan_frac s2 of
                None \<Rightarrow> None
              | Some (fr, s3) \<Rightarrow>
                  (case scan_exp s3 of
                     None \<Rightarrow> None
                   | Some (ex, s4) \<Rightarrow>
                       Some (\<lparr>nl_neg = neg, nl_int = ds, nl_frac = fr, nl_exp = ex\<rparr>, s4))))"

definition scan_lit :: "string \<Rightarrow> json \<Rightarrow> string \<Rightarrow> (json \<times> string) option" where
  "scan_lit w v s = (if has_prefix w s then Some (v, drop (length w) s) else None)"

definition max_nesting :: nat where
  "max_nesting = 10000"

fun parse_value :: "nat \<Rightarrow> nat \<Rightarrow> string \<Rightarrow> (json \<times> string) option"
and parse_elems :: "nat \<Rightarrow> nat \<Rightarrow> string \<Rightarrow> (json list \<times> string) option"
and parse_members :: "nat \<Rightarrow> nat \<Rightarrow> string \<Rightarrow> ((string \<times> json) list \<times> string) option" where
  "parse_value 0 d s = None"
| "parse_value (Suc n) d s = (case skip_ws s of
     [] \<Rightarrow> None
   | c # r \<Rightarrow>
       if c = CHR ''{'' then
         (if max_nesting \<le> d then None
          else case skip_ws r of
                 [] \<Rightarrow> None
               | x # r' \<Rightarrow> if x = CHR ''}'' then Some (JObj [], r')
                          else map_option (\<lambda>(ms, t). (JObj ms, t)) (parse_members n (Suc d) r))
       else if c = CHR ''['' then
         (if max_nesting \<le> d then None
          else case skip_ws r of
                 [] \<Rightarrow> None
               | x # r' \<Rightarrow> if x = CHR '']'' then Some (JArr [], r')
                          else map_option (\<lambda>(vs, t). (JArr vs, t)) (parse_elems n (Suc d) r))
       else if c = ch_quote then map_option (\<lambda>(v, t). (JStr v, t)) (scan_string r)
       else if c = CHR ''t'' then scan_lit ''true'' (JBool True) (c # r)
       else if c = CHR ''f'' then scan_lit ''false'' (JBool False) (c # r)
       else if c = CHR ''n'' then scan_lit ''null'' JNull (c # r)
       else map_option (\<lambda>(v, t). (JNum v, t)) (scan_number (c # r)))"
| "parse_elems 0 d s = None"
| "parse_elems (Suc n) d s = (case parse_value n d s of
     None \<Rightarrow> None
   | Some (v, t) \<Rightarrow> (case skip_ws t of
       [] \<Rightarrow> None
     | c # r \<Rightarrow> if c = CHR '']'' then Some ([v], r)
               else if c = CHR '','' then map_option (\<lambda>(vs, u). (v # vs, u)) (parse_elems n d r)
               else None))"
| "parse_members 0 d s = None"
| "parse_members (Suc n) d s = (case skip_ws s of
     [] \<Rightarrow> None
   | q # r0 \<Rightarrow>
       if q \<noteq> ch_quote then None
       else case scan_string r0 of
              None \<Rightarrow> None
            | Some (k, t0) \<Rightarrow> (case skip_ws t0 of
                [] \<Rightarrow> None
              | p # r1 \<Rightarrow>
                  if p \<noteq> CHR '':'' then None
                  else case parse_value n d r1 of
                         None \<Rightarrow> None
                       | Some (v, t) \<Rightarrow> (case skip_ws t of
                           [] \<Rightarrow> None
                         | c # r \<Rightarrow>
                             if c = CHR ''}'' then Some ([(k, v)], r)
                             else if c = CHR '','' then
                               map_option (\<lambda>(ms, u). ((k, v) # ms, u)) (parse_members n d r)
                             else None)))"

definition json_parse :: "string \<Rightarrow> json option" where
  "json_parse s = (case parse_value (2 * length s + 2) 0 s of
     Some (v, t) \<Rightarrow> if skip_ws t = [] then Some v else None
   | None \<Rightarrow> None)"

section \<open>Unmarshal\<close>

definition numlit_rat :: "numlit \<Rightarrow> rat" where
  "numlit_rat l =
     (let f = (case nl_frac l of None \<Rightarrow> [] | Some ds \<Rightarrow> ds);
          e = (case nl_exp l of None \<Rightarrow> 0 | Some e \<Rightarrow> e)
      in of_nat (nat_of_digits (nl_int l @ f)) * 10 powi (e - int (length f)))"

text \<open>\<open>strconv.ParseFloat\<close>: the nearest float, an error when that overflows.\<close>

definition parse_float :: "numlit \<Rightarrow> float64 option" where
  "parse_float l = (case to_float False (numlit_rat l) of
     Fin _ m \<Rightarrow> Some (Fin (nl_neg l) m) | _ \<Rightarrow> None)"

text \<open>
  The value decoded into an \<open>interface{}\<close>, and whether a conversion error was met on the
  way (the decoder then goes on with a nil in that place and reports the error at the
  end).  Later duplicates of a key win.
\<close>

fun decode_any :: "json \<Rightarrow> any \<times> bool" where
  "decode_any JNull = (ANil, False)"
| "decode_any (JBool b) = (ABool b, False)"
| "decode_any (JNum l) = (case parse_float l of None \<Rightarrow> (ANil, True) | Some f \<Rightarrow> (AFloat f, False))"
| "decode_any (JStr s) = (AString s, False)"
| "decode_any (JArr vs) =
     (ASlice (map (\<lambda>v. fst (decode_any v)) vs), list_ex (\<lambda>v. snd (decode_any v)) vs)"
| "decode_any (JObj ms) =
     (AMap (fold (\<lambda>(k, v) m. fmupd k v m) (map (\<lambda>(k, v). (k, fst (decode_any v))) ms) fmempty),
      list_ex (\<lambda>(k, v). snd (decode_any v)) ms)"

type_synonym go_map = "(string, any) fmap option"

text \<open>
  \<open>json.Unmarshal(data, &m)\<close> for a variable \<open>m\<close> of type \<open>map[string]any\<close>: the new value
  of \<open>m\<close> and whether an error is returned.  A syntax error or a value of another kind
  leaves \<open>m\<close> as it was, \<open>null\<close> makes it nil, an object is added to the entries there.
\<close>

definition unmarshal_map :: "string \<Rightarrow> go_map \<Rightarrow> go_map \<times> bool" where
  "unmarshal_map data m = (case json_parse data of
     None \<Rightarrow> (m, True)
   | Some JNull \<Rightarrow> (None, False)
   | Some (JObj ms) \<Rightarrow>
       (Some (fold (\<lambda>(k, v) m. fmupd k v m) (map (\<lambda>(k, v). (k, fst (decode_any v))) ms)
                   (case m of None \<Rightarrow> fmempty | Some x \<Rightarrow> x)),
        list_ex (\<lambda>(k, v). snd (decode_any v)) ms)
   | Some _ \<Rightarrow> (m, True))"

text \<open>\<open>json.Marshal\<close> of such a map; a nil map is \<open>null\<close>.\<close>

definition marshal_go_map :: "go_map \<Rightarrow> string option" where
  "marshal_go_map m = (case m of None \<Rightarrow> Some ''null'' | Some x \<Rightarrow> json_marshal (AMap x))"

section \<open>Unmarshal into a struct\<close>

text \<open>
  \<open>json.Unmarshal\<close> into a struct: members are matched to fields by name without regard to
  case, unknown members are ignored, a null leaves a field as it is, a value of the wrong
  kind is an error.  A field decoder takes the JSON value and the struct so far.
\<close>

type_synonym 'a field_decoder = "string \<times> (json \<Rightarrow> 'a \<Rightarrow> 'a option)"

definition same_field :: "string \<Rightarrow> string \<Rightarrow> bool" where
  "same_field a b \<longleftrightarrow> map to_lower a = map to_lower b"

fun unmarshal_fields :: "'a field_decoder list \<Rightarrow> (string \<times> json) list \<Rightarrow> 'a \<Rightarrow> 'a option" where
  "unmarshal_fields ds [] p = Some p"
| "unmarshal_fields ds ((k, v) # ms) p =
     (case find (\<lambda>d. same_field (fst d) k) ds of
        None \<Rightarrow> unmarshal_fields ds ms p
      | Some d \<Rightarrow>
          if v = JNull then unmarshal_fields ds ms p
          else (case snd d v p of None \<Rightarrow> None | Some p' \<Rightarrow> unmarshal_fields ds ms p'))"

definition unmarshal_struct :: "'a field_decoder list \<Rightarrow> string \<Rightarrow> 'a \<Rightarrow> 'a option" where
  "unmarshal_struct ds data p = (case json_parse data of
     Some JNull \<Rightarrow> Some p
   | Some (JObj ms) \<Rightarrow> unmarshal_fields ds ms p
   | _ \<Rightarrow> None)"

fun json_string :: "json \<Rightarrow> string option" where
  "json_string (JStr s) = Some s"
| "json_string _ = None"

fun json_bool :: "json \<Rightarrow> bool option" where
  "json_bool (JBool b) = Some b"
| "json_bool _ = None"

text \<open>An \<open>int\<close> field takes a literal with neither fraction nor exponent that fits 64 bits.\<close>

fun json_int :: "json \<Rightarrow> int option" where
  "json_int (JNum l) =
     (let i = (if nl_neg l then - int (nat_of_digits (nl_int l)) else int (nat_of_digits (nl_int l)))
      in if nl_frac l = None \<and> nl_exp l = None \<and> in_int64 i then Some i else None)"
| "json_int _ = None"

text \<open>In a slice of strings, a null element is the empty string.\<close>

fun json_strings :: "json \<Rightarrow> string list option" where
  "json_strings (JArr vs) = opt_seq (map (\<lambda>v. if v = JNull then Some '''' else json_string v) vs)"
| "json_strings _ = None"

end
