(* ===== verification/Go_Http.thy ===== *)
theory Go_Http
  imports Prelude
begin

text \<open>
  The part of net, net/http and net/http/httputil the proxy uses: header maps with their
  canonical keys, the \<open>ResponseWriter\<close> interface and the server's writer, joining a host
  and a port, and the reverse proxy with its rewrite hook.

  An interface value is a record of its methods (\<open>rw_ops\<close>), each an action on the state the
  writer lives in.  The network is a parameter: the round trip is an action that is given
  the outgoing request.  Not modelled: informational (1xx) responses, protocol upgrades
  and trailers.
\<close>

section \<open>Headers\<close>

type_synonym http_header = "(string, string list) fmap"

definition token_byte :: "char \<Rightarrow> bool" where
  "token_byte c \<longleftrightarrow> (let n = (of_char c :: nat) in
     (48 \<le> n \<and> n \<le> 57) \<or> (65 \<le> n \<and> n \<le> 90) \<or> (97 \<le> n \<and> n \<le> 122) \<or>
     n \<in> {33, 35, 36, 37, 38, 39, 42, 43, 45, 46, 94, 95, 96, 124, 126})"

fun canon_from :: "bool \<Rightarrow> string \<Rightarrow> string" where
  "canon_from up [] = []"
| "canon_from up (c # cs) = (if up then to_upper c else to_lower c) # canon_from (c = CHR ''-'') cs"

text \<open>\<open>textproto.CanonicalMIMEHeaderKey\<close>\<close>

definition CanonicalHeaderKey :: "string \<Rightarrow> string" where
  "CanonicalHeaderKey s = (if list_all token_byte s then canon_from True s else s)"

definition header_Get :: "http_header \<Rightarrow> string \<Rightarrow> string" where
  "header_Get h k = (case fmlookup h (CanonicalHeaderKey k) of Some (v # _) \<Rightarrow> v | _ \<Rightarrow> '''')"

definition header_Set :: "string \<Rightarrow> string \<Rightarrow> http_header \<Rightarrow> http_header" where
  "header_Set k v h = fmupd (CanonicalHeaderKey k) [v] h"

definition header_Del :: "string \<Rightarrow> http_header \<Rightarrow> http_header" where
  "header_Del k h = fmdrop (CanonicalHeaderKey k) h"

definition header_values :: "http_header \<Rightarrow> string \<Rightarrow> string list" where
  "header_values h k = (case fmlookup h k of Some vs \<Rightarrow> vs | None \<Rightarrow> [])"

text \<open>A header map as the HTTP server and client build it: canonical keys, no empty entry.\<close>

definition wire_header :: "http_header \<Rightarrow> bool" where
  "wire_header h \<longleftrightarrow> (\<forall>k vs. fmlookup h k = Some vs \<longrightarrow> CanonicalHeaderKey k = k \<and> vs \<noteq> [])"

text \<open>\<open>copyHeader(dst, src)\<close> of the reverse proxy: every value is added to those there.\<close>

definition copy_header :: "http_header \<Rightarrow> http_header \<Rightarrow> http_header" where
  "copy_header dst src = fold (\<lambda>k h. fmupd k (header_values h k @ header_values src k) h)
     (sorted_list_of_fset (fmdom src)) dst"

section \<open>Hosts, ports and target URLs\<close>

text \<open>\<open>net.JoinHostPort\<close>: a host with a colon is an IPv6 literal and gets brackets.\<close>

definition JoinHostPort :: "string \<Rightarrow> string \<Rightarrow> string" where
  "JoinHostPort host port =
     (if CHR '':'' \<in> set host then ''['' @ host @ '']:'' @ port else host @ '':'' @ port)"

definition host_byte :: "char \<Rightarrow> bool" where
  "host_byte c \<longleftrightarrow> (let n = (of_char c :: nat) in
     (48 \<le> n \<and> n \<le> 57) \<or> (65 \<le> n \<and> n \<le> 90) \<or> (97 \<le> n \<and> n \<le> 122) \<or>
     n \<in> {33, 34, 36, 38, 39, 40, 41, 42, 43, 44, 45, 46, 58, 59, 60, 61, 62, 91, 93, 95, 126})"

definition last_index :: "char \<Rightarrow> string \<Rightarrow> nat option" where
  "last_index c s = (if c \<in> set s then Some (length s - 1 - length (takeWhile (\<lambda>x. x \<noteq> c) (rev s))) else None)"

definition valid_optional_port :: "string \<Rightarrow> bool" where
  "valid_optional_port p \<longleftrightarrow> (case p of [] \<Rightarrow> True | c # ds \<Rightarrow> c = CHR '':'' \<and> list_all is_digit ds)"

text \<open>
  \<open>url.Parse("http://" + a)\<close> for an authority \<open>a\<close>: its host, or \<open>None\<close> for an error.  Only the
  authority is modelled: the program builds \<open>a\<close> from a host and a port, so a byte that
  would start a path, a query, user information or an escape does not occur in it.
\<close>

definition url_host :: "string \<Rightarrow> string option" where
  "url_host a =
     (if \<not> list_all host_byte a then None
      else case a of
        [] \<Rightarrow> Some []
      | c # _ \<Rightarrow>
          if c = CHR ''['' then
            (case last_index (CHR '']'') a of
               None \<Rightarrow> None
             | Some i \<Rightarrow> if valid_optional_port (drop (Suc i) a) then Some a else None)
          else
            (case last_index (CHR '':'') a of
               None \<Rightarrow> Some a
             | Some i \<Rightarrow> if valid_optional_port (drop i a) then Some a else None))"

lemma url_host_id: "url_host a = Some h \<Longrightarrow> h = a"
  by (auto simp: url_host_def split: if_splits list.splits option.splits)

section \<open>Requests and responses\<close>

text \<open>
  An incoming request.  \<open>req_Body\<close> is what reading its body to the end gives: the bytes,
  and whether the read failed.  \<open>req_RemoteIP\<close> is the host part of the remote address.
\<close>

record http_request =
  req_Method :: string
  req_Scheme :: string
  req_Path :: string
  req_Host :: string
  req_Header :: http_header
  req_Body :: "string \<times> bool"
  req_ContentLength :: int
  req_RemoteIP :: "string option"
  req_TLS :: bool

text \<open>An outgoing request; its body is nil or a byte string.\<close>

record out_request =
  out_Method :: string
  out_URLHost :: string
  out_Path :: string
  out_Host :: string
  out_Header :: http_header
  out_Body :: "string option"
  out_ContentLength :: int

record response =
  resp_Status :: int
  resp_Header :: http_header
  resp_Chunks :: "string list"
  resp_BodyErr :: bool

definition StatusOK :: int where "StatusOK = 200"
definition StatusBadGateway :: int where "StatusBadGateway = 502"

section \<open>Response writers\<close>

record 's rw_ops =
  rwo_Header :: "'s \<Rightarrow> http_header"
  rwo_SetHeader :: "http_header \<Rightarrow> 's \<Rightarrow> 's"
  rwo_WriteHeader :: "int \<Rightarrow> ('s, unit) go"
  rwo_Write :: "string \<Rightarrow> ('s, bool) go"

text \<open>
  The server's own writer: the first \<open>WriteHeader\<close> fixes the status, a \<open>Write\<close> before it
  fixes 200, and a handler that writes nothing answers 200 with an empty body.
\<close>

record response_writer =
  rw_Header :: http_header
  rw_Status :: "int option"
  rw_Body :: string

definition new_response_writer :: response_writer where
  "new_response_writer = \<lparr>rw_Header = fmempty, rw_Status = None, rw_Body = ''''\<rparr>"

definition rw_WriteHeader :: "int \<Rightarrow> response_writer \<Rightarrow> response_writer" where
  "rw_WriteHeader c w = (case rw_Status w of None \<Rightarrow> w\<lparr>rw_Status := Some c\<rparr> | Some _ \<Rightarrow> w)"

definition rw_Write :: "string \<Rightarrow> response_writer \<Rightarrow> response_writer" where
  "rw_Write d w = (let w' = rw_WriteHeader StatusOK w in w'\<lparr>rw_Body := rw_Body w' @ d\<rparr>)"

text \<open>What the client of the server gets once the handler has returned.\<close>

definition client_sees :: "response_writer \<Rightarrow> int \<times> string" where
  "client_sees w = (case rw_Status w of None \<Rightarrow> StatusOK | Some c \<Rightarrow> c, rw_Body w)"

section \<open>The reverse proxy\<close>

definition hop_headers :: "string list" where
  "hop_headers = [''Connection'', ''Proxy-Connection'', ''Keep-Alive'', ''Proxy-Authenticate'',
     ''Proxy-Authorization'', ''Te'', ''Trailer'', ''Transfer-Encoding'', ''Upgrade'']"

fun split_on :: "char \<Rightarrow> string \<Rightarrow> string list" where
  "split_on c [] = [[]]"
| "split_on c (x # xs) =
     (if x = c then [] # split_on c xs
      else case split_on c xs of [] \<Rightarrow> [[x]] | y # ys \<Rightarrow> (x # y) # ys)"

definition trim_ws :: "string \<Rightarrow> string" where
  "trim_ws s = (let ws = (\<lambda>c. of_char c \<in> {32, 9, 10, 13 :: nat})
                in rev (dropWhile ws (rev (dropWhile ws s))))"

definition connection_tokens :: "http_header \<Rightarrow> string list" where
  "connection_tokens h = filter (\<lambda>t. t \<noteq> '''')
     (map trim_ws (concat (map (split_on CHR '','') (header_values h ''Connection''))))"

definition removeHopByHopHeaders :: "http_header \<Rightarrow> http_header" where
  "removeHopByHopHeaders h = fold header_Del (connection_tokens h @ hop_headers) h"

definition forwarding_headers :: "string list" where
  "forwarding_headers = [''Forwarded'', ''X-Forwarded-For'', ''X-Forwarded-Host'', ''X-Forwarded-Proto'']"

text \<open>
  The outgoing copy of a request as the rewrite hook finds it.  A request with content
  length zero gets a nil body.
\<close>

definition clone_out :: "http_request \<Rightarrow> out_request" where
  "clone_out req =
     \<lparr>out_Method = req_Method req, out_URLHost = '''', out_Path = req_Path req,
      out_Host = req_Host req,
      out_Header = fold header_Del forwarding_headers (removeHopByHopHeaders (req_Header req)),
      out_Body = (if req_ContentLength req = 0 then None else Some (fst (req_Body req))),
      out_ContentLength = req_ContentLength req\<rparr>"

text \<open>\<open>ProxyRequest.SetURL\<close> for a target without a path.\<close>

definition SetURL :: "string \<Rightarrow> out_request \<Rightarrow> out_request" where
  "SetURL host out = out\<lparr>out_URLHost := host, out_Host := '''',
     out_Path := (if has_prefix ''/'' (out_Path out) then out_Path out else ''/'' @ out_Path out)\<rparr>"

definition SetXForwarded :: "http_request \<Rightarrow> out_request \<Rightarrow> out_request" where
  "SetXForwarded req out =
     (let h = out_Header out;
          prior = header_values h ''X-Forwarded-For'';
          h1 = (case req_RemoteIP req of
                  Some ip \<Rightarrow> header_Set ''X-Forwarded-For''
                    (if prior = [] then ip else join '', '' prior @ '', '' @ ip) h
                | None \<Rightarrow> header_Del ''X-Forwarded-For'' h);
          h2 = header_Set ''X-Forwarded-Host'' (req_Host req) h1;
          h3 = header_Set ''X-Forwarded-Proto'' (if req_TLS req then ''https'' else ''http'') h2
      in out\<lparr>out_Header := h3\<rparr>)"

definition default_user_agent :: "out_request \<Rightarrow> out_request" where
  "default_user_agent out = (case fmlookup (out_Header out) ''User-Agent'' of
     None \<Rightarrow> out\<lparr>out_Header := header_Set ''User-Agent'' '''' (out_Header out)\<rparr>
   | Some _ \<Rightarrow> out)"

text \<open>\<open>copyResponse\<close>: one write per chunk until one fails; the result says whether one did.\<close>

fun copy_chunks :: "'s rw_ops \<Rightarrow> string list \<Rightarrow> ('s, bool) go" where
  "copy_chunks ops [] = go_return False"
| "copy_chunks ops (c # cs) =
     go_bind (rwo_Write ops c) (\<lambda>err. if err then go_return True else copy_chunks ops cs)"

definition send_response :: "'s rw_ops \<Rightarrow> response \<Rightarrow> ('s, unit) go" where
  "send_response ops res =
     go_then (go_modify (\<lambda>s. rwo_SetHeader ops
                (copy_header (rwo_Header ops s) (removeHopByHopHeaders (resp_Header res))) s))
    (go_then (rwo_WriteHeader ops (resp_Status res))
    (go_bind (copy_chunks ops (resp_Chunks res)) (\<lambda>err.
       if err \<or> resp_BodyErr res then go_panic AbortHandler else go_return ())))"

text \<open>
  \<open>ReverseProxy.ServeHTTP\<close> with a rewrite hook and the default transport and error handler.
  A failed round trip answers 502; a failure while the body is copied aborts the handler.
\<close>

definition reverse_proxy ::
  "'s rw_ops \<Rightarrow> (http_request \<Rightarrow> out_request \<Rightarrow> ('s, out_request) go) \<Rightarrow>
   (out_request \<Rightarrow> ('s, response option) go) \<Rightarrow> http_request \<Rightarrow> ('s, unit) go" where
  "reverse_proxy ops rewrite round_trip req =
     go_bind (rewrite req (clone_out req)) (\<lambda>out.
     go_bind (round_trip (default_user_agent out)) (\<lambda>res.
       case res of
         None \<Rightarrow> rwo_WriteHeader ops StatusBadGateway
       | Some r \<Rightarrow> send_response ops r))"

section \<open>Facts about headers and hosts\<close>

lemma dash_iff: "c = CHR ''-'' \<longleftrightarrow> (of_char c :: nat) = 45"
  using of_char_eq_iff [of c "CHR ''-''", where ?'a = nat] by simp

lemma case_idem [bytes_simps]: "to_upper (to_upper c) = to_upper c" "to_lower (to_lower c) = to_lower c"
  by (auto simp: to_upper_def to_lower_def)

lemma case_dash [bytes_simps]:
  "to_upper c = CHR ''-'' \<longleftrightarrow> c = CHR ''-''" "to_lower c = CHR ''-'' \<longleftrightarrow> c = CHR ''-''"
  by (auto simp: to_upper_def to_lower_def dash_iff)

lemma token_upper: "token_byte c \<Longrightarrow> token_byte (to_upper c)"
proof (cases "97 \<le> (of_char c :: nat) \<and> (of_char c :: nat) \<le> 122")
  case True
  then have "65 \<le> of_char c - (32 :: nat) \<and> of_char c - (32 :: nat) \<le> 90" by linarith
  then show ?thesis using True by (simp add: token_byte_def to_upper_def Let_def)
qed (auto simp: to_upper_def)

lemma token_lower: "token_byte c \<Longrightarrow> token_byte (to_lower c)"
proof (cases "65 \<le> (of_char c :: nat) \<and> (of_char c :: nat) \<le> 90")
  case True
  then have "97 \<le> of_char c + (32 :: nat) \<and> of_char c + (32 :: nat) \<le> 122" by linarith
  then show ?thesis using True by (simp add: token_byte_def to_lower_def Let_def)
qed (auto simp: to_lower_def)

lemma canon_from_idem: "canon_from up (canon_from up s) = canon_from up s"
  by (induction s arbitrary: up) (auto simp: bytes_simps)

lemma canon_from_token: "list_all token_byte s \<Longrightarrow> list_all token_byte (canon_from up s)"
  by (induction s arbitrary: up) (auto simp: token_upper token_lower)

lemma CanonicalHeaderKey_idem [simp]: "CanonicalHeaderKey (CanonicalHeaderKey k) = CanonicalHeaderKey k"
  by (simp add: CanonicalHeaderKey_def canon_from_idem canon_from_token)

lemma fold_header_Del_lookup:
  "fmlookup (fold header_Del ks h) x = (if x \<in> CanonicalHeaderKey ` set ks then None else fmlookup h x)"
  by (induction ks arbitrary: h) (auto simp: header_Del_def)

lemma wire_header_empty [simp]: "wire_header fmempty"
  by (simp add: wire_header_def)

lemma removeHopByHopHeaders_lookup:
  "fmlookup (removeHopByHopHeaders h) x =
     (if x \<in> CanonicalHeaderKey ` (set (connection_tokens h) \<union> set hop_headers) then None else fmlookup h x)"
  by (simp only: removeHopByHopHeaders_def fold_header_Del_lookup set_append)

lemma removeHopByHopHeaders_wire: "wire_header h \<Longrightarrow> wire_header (removeHopByHopHeaders h)"
  by (simp add: wire_header_def removeHopByHopHeaders_lookup)

text \<open>Copying into a writer without headers is a plain copy.\<close>

lemma copy_header_lookup:
  "fmlookup (copy_header dst src) k =
     (case fmlookup src k of None \<Rightarrow> fmlookup dst k | Some vs \<Rightarrow> Some (header_values dst k @ vs))"
proof -
  have step: "fmlookup (fold (\<lambda>k h. fmupd k (header_values h k @ header_values src k) h) ks h) k =
      (if k \<in> set ks then Some (header_values h k @ header_values src k) else fmlookup h k)"
    if "distinct ks" for ks h
    using that
  proof (induction ks arbitrary: h)
    case (Cons a ks)
    then show ?case by (auto simp: header_values_def)
  qed simp
  show ?thesis
    unfolding copy_header_def
    by (subst step)
      (auto simp: sorted_list_of_fset.rep_eq header_values_def fmdom_notI split: option.splits dest: fmdomI)
qed

lemma copy_header_empty [simp]: "copy_header fmempty h = h"
  by (rule fmap_ext) (simp add: copy_header_lookup header_values_def split: option.splits)

lemma copy_header_wire: "wire_header dst \<Longrightarrow> wire_header src \<Longrightarrow> wire_header (copy_header dst src)"
  by (auto simp: wire_header_def copy_header_lookup split: option.splits)

text \<open>A joined address determines the host and the port it was made from.\<close>

lemma JoinHostPort_inj:
  assumes j: "JoinHostPort h p = JoinHostPort h' p'"
    and h: "set h \<inter> {CHR ''['', CHR '']''} = {}" and h': "set h' \<inter> {CHR ''['', CHR '']''} = {}"
  shows "h = h'" and "p = p'"
proof -
  have first: "hd (JoinHostPort g q) = CHR ''['' \<longleftrightarrow> CHR '':'' \<in> set g"
    if "set g \<inter> {CHR ''['', CHR '']''} = {}" for g q
    using that by (cases g) (auto simp: JoinHostPort_def)
  have same: "CHR '':'' \<in> set h \<longleftrightarrow> CHR '':'' \<in> set h'"
    using first [OF h, of p] first [OF h', of p'] j by simp
  have "h = h' \<and> p = p'"
  proof (cases "CHR '':'' \<in> set h")
    case True
    with same j have "h @ CHR '']'' # '':'' @ p = h' @ CHR '']'' # '':'' @ p'" by (simp add: JoinHostPort_def)
    from split_at_unique [OF this] h h' show ?thesis by auto
  next
    case False
    with same j have "h @ CHR '':'' # p = h' @ CHR '':'' # p'" by (simp add: JoinHostPort_def)
    from split_at_unique [OF this] False same show ?thesis by auto
  qed
  then show "h = h'" and "p = p'" by auto
qed

end
