(* ===== verification/Gie.thy ===== *)
theory Gie
  imports Go_Json Go_Http
begin

text \<open>
  The interface of the gateway-api-inference-extension module and of the uuid module, as
  the proxy uses it.  Their code is not part of the repository: their data types appear
  here with the fields the proxy reads or writes, and their operations are parameters,
  collected in the records \<open>director\<close> and \<open>env\<close>.  Every parameter that stands for an
  outside effect takes a counter, so that two calls with equal arguments may answer
  differently.
\<close>

section \<open>Plugins and scheduling\<close>

record typed_name =
  tn_Type :: string
  tn_Name :: string

text \<open>Go's zero value of a \<open>TypedName\<close>.\<close>

definition zero_typed_name :: typed_name where
  "zero_typed_name = \<lparr>tn_Type = '''', tn_Name = ''''\<rparr>"

record endpoint_metadata =
  md_NamespacedName :: "string \<times> string"
  md_PodName :: string
  md_Address :: string
  md_Port :: string
  md_Labels :: "(string, string) fmap"

text \<open>
  A candidate model server.  Its metrics and attributes are only passed on, so a snapshot
  of them is a number here.
\<close>

record endpoint =
  ep_Metadata :: endpoint_metadata
  ep_Metrics :: nat
  ep_Attributes :: "nat option"

definition NewEndpoint :: "endpoint_metadata \<Rightarrow> nat \<Rightarrow> nat option \<Rightarrow> endpoint" where
  "NewEndpoint md m a = \<lparr>ep_Metadata = md, ep_Metrics = m, ep_Attributes = a\<rparr>"

record profile_run_result =
  TargetEndpoints :: "endpoint list"

text \<open>The results of the profile runs: a nil entry is a profile whose run failed.\<close>

type_synonym profile_results = "(string, profile_run_result option) fmap"

record scheduling_result =
  ProfileResults :: profile_results
  PrimaryProfileName :: string

text \<open>The request body the scheduler sees: a prompt, or the chat messages as a JSON value.\<close>

record llm_body =
  Completions :: "string option"
  ChatCompletions :: "any option"

record llm_request =
  lr_RequestId :: string
  lr_TargetModel :: string
  lr_Body :: "llm_body option"
  lr_Headers :: "(string, string) fmap"

section \<open>The request context\<close>

record usage =
  PromptTokens :: int
  CompletionTokens :: int
  TotalTokens :: int
  PromptTokenDetails :: "int option"

definition zero_usage :: usage where
  "zero_usage = \<lparr>PromptTokens = 0, CompletionTokens = 0, TotalTokens = 0, PromptTokenDetails = None\<rparr>"

text \<open>\<open>giehandlers.RequestContext\<close>; \<open>rc_Headers\<close> and \<open>rc_Body\<close> are those of its \<open>Request\<close>.\<close>

record reqctx =
  rc_Headers :: "(string, string) fmap"
  rc_Body :: go_map
  rc_RespHeaders :: "(string, string) fmap"
  FairnessID :: string
  ObjectiveKey :: string
  IncomingModelName :: string
  TargetModelName :: string
  RequestSize :: int
  ResponseSize :: int
  TargetPod :: "endpoint_metadata option"
  TargetEndpoint :: string
  SchedulingRequest :: "llm_request option"
  ModelServerStreaming :: bool
  ResponseComplete :: bool
  ResponseStatusCode :: string
  rc_Usage :: usage
  RequestReceivedTimestamp :: int
  ResponseCompleteTimestamp :: int

record gie_error =
  err_Code :: string
  err_Msg :: string

section \<open>Parameters\<close>

text \<open>
  The director.  An operation that is given the request context may change all of it.  The
  pre-request plugins are given the scheduling request and the result only; the header map
  of the request context is an argument and a result because the scheduling request shares
  it.
\<close>

record director =
  HandleRequest :: "nat \<Rightarrow> reqctx \<Rightarrow> reqctx \<times> string option"
  HandleRequestHelper :: "nat \<Rightarrow> reqctx \<Rightarrow> string list \<Rightarrow> reqctx \<times> (string + scheduling_result)"
  RunPreRequestPlugins :: "nat \<Rightarrow> (string, string) fmap \<Rightarrow> llm_request option \<Rightarrow> scheduling_result \<Rightarrow>
     (string, string) fmap \<times> llm_request option"
  HandleResponseReceived :: "nat \<Rightarrow> reqctx \<Rightarrow> reqctx \<times> string option"
  HandleResponseBodyStreaming :: "nat \<Rightarrow> reqctx \<Rightarrow> reqctx \<times> string option"
  HandleResponseBodyComplete :: "nat \<Rightarrow> reqctx \<Rightarrow> reqctx \<times> string option"

text \<open>
  The environment of one request: the director, the generated identifiers, the clock, the
  network, whether a write to the client works, the order in which a loop over a map
  runs, and the constants and helpers imported from the extension module.
\<close>

record env =
  env_director :: director
  NewUUID :: "nat \<Rightarrow> string + string"
  NewString :: "nat \<Rightarrow> string"
  time_Now :: "nat \<Rightarrow> int"
  RoundTrip :: "nat \<Rightarrow> out_request \<Rightarrow> response option"
  client_write_fails :: "nat \<Rightarrow> bool"
  range_order :: "nat \<Rightarrow> string fset \<Rightarrow> string list"
  IsSystemOwnedHeader :: "string \<Rightarrow> bool"
  ParseRespForUsage :: "string \<Rightarrow> usage"
  RequestIdHeaderKey :: string
  FlowFairnessIDKey :: string
  ObjectiveKeyHeader :: string
  ModelNameRewriteKey :: string
  StreamingEndMsg :: string
  ModelServerError :: string
  BadRequest :: string
  Error_text :: "gie_error \<Rightarrow> string"

text \<open>Every order the loops get is an order of the keys they range over.\<close>

definition orders_ok :: "env \<Rightarrow> bool" where
  "orders_ok E \<longleftrightarrow> (\<forall>t K. is_order K (range_order E t K))"

end
