(* ===== verification/Response_Writer.thy ===== *)
theory Response_Writer
  imports Go_Http
begin

text \<open>
  The two response writers of pkg/orchestrations/response\_writer.go: the copying writer,
  which passes everything on to the client's writer and keeps the body, and the collecting
  writer, which only keeps what it is given.  Both are given to the reverse proxy, so both
  are values of the \<open>ResponseWriter\<close> interface.
\<close>

section \<open>CopyingResponseWriter\<close>

record copying_rw =
  crw_body :: string
  isStreaming :: bool

definition NewCopyingResponseWriter :: copying_rw where
  "NewCopyingResponseWriter = \<lparr>crw_body = [], isStreaming = False\<rparr>"

text \<open>\<open>Body\<close> of the embedded base writer.\<close>

definition CopyingResponseWriter_Body :: "copying_rw \<Rightarrow> string" where
  "CopyingResponseWriter_Body crw = crw_body crw"

definition CopyingResponseWriter_Header :: "'s rw_ops \<Rightarrow> 's \<times> copying_rw \<Rightarrow> http_header" where
  "CopyingResponseWriter_Header targetRW st = rwo_Header targetRW (fst st)"

definition CopyingResponseWriter_Write ::
  "'s rw_ops \<Rightarrow> (string \<Rightarrow> ('s, unit) go) \<Rightarrow> string \<Rightarrow> ('s \<times> copying_rw, bool) go" where
  "CopyingResponseWriter_Write targetRW streamingHandler data =
     go_bind (go_read (\<lambda>st. isStreaming (snd st))) (\<lambda>streaming.
     go_then (if streaming then go_on_fst (streamingHandler data)
              else go_modify (\<lambda>(s, w). (s, w\<lparr>crw_body := crw_body w @ data\<rparr>)))
       (go_on_fst (rwo_Write targetRW data)))"

definition CopyingResponseWriter_WriteHeader ::
  "'s rw_ops \<Rightarrow> (int \<Rightarrow> http_header \<Rightarrow> ('s, unit) go) \<Rightarrow> int \<Rightarrow> ('s \<times> copying_rw, unit) go" where
  "CopyingResponseWriter_WriteHeader targetRW responseHeaderHandler statusCode =
     go_then (go_on_fst (rwo_WriteHeader targetRW statusCode))
    (go_bind (go_read (\<lambda>st. rwo_Header targetRW (fst st))) (\<lambda>h.
       go_on_fst (responseHeaderHandler statusCode h)))"

definition copying_ops ::
  "'s rw_ops \<Rightarrow> (int \<Rightarrow> http_header \<Rightarrow> ('s, unit) go) \<Rightarrow> (string \<Rightarrow> ('s, unit) go) \<Rightarrow>
   ('s \<times> copying_rw) rw_ops" where
  "copying_ops targetRW responseHeaderHandler streamingHandler =
     \<lparr>rwo_Header = CopyingResponseWriter_Header targetRW,
      rwo_SetHeader = (\<lambda>h (s, w). (rwo_SetHeader targetRW h s, w)),
      rwo_WriteHeader = CopyingResponseWriter_WriteHeader targetRW responseHeaderHandler,
      rwo_Write = CopyingResponseWriter_Write targetRW streamingHandler\<rparr>"

section \<open>CollectingResponseWriter\<close>

record collecting_rw =
  col_body :: string
  col_statusCode :: int
  col_headers :: http_header

definition NewCollectingResponseWriter :: collecting_rw where
  "NewCollectingResponseWriter = \<lparr>col_body = [], col_statusCode = 0, col_headers = fmempty\<rparr>"

definition CollectingResponseWriter_Header :: "'s \<times> collecting_rw \<Rightarrow> http_header" where
  "CollectingResponseWriter_Header st = col_headers (snd st)"

definition CollectingResponseWriter_Write :: "string \<Rightarrow> ('s \<times> collecting_rw, bool) go" where
  "CollectingResponseWriter_Write data =
     go_then (go_modify (\<lambda>(s, w). (s, w\<lparr>col_body := col_body w @ data\<rparr>))) (go_return False)"

definition CollectingResponseWriter_WriteHeader :: "int \<Rightarrow> ('s \<times> collecting_rw, unit) go" where
  "CollectingResponseWriter_WriteHeader statusCode =
     go_modify (\<lambda>(s, w). (s, w\<lparr>col_statusCode := statusCode\<rparr>))"

definition collecting_ops :: "('s \<times> collecting_rw) rw_ops" where
  "collecting_ops =
     \<lparr>rwo_Header = CollectingResponseWriter_Header,
      rwo_SetHeader = (\<lambda>h (s, w). (s, w\<lparr>col_headers := h\<rparr>)),
      rwo_WriteHeader = CollectingResponseWriter_WriteHeader,
      rwo_Write = CollectingResponseWriter_Write\<rparr>"

section \<open>What the reverse proxy relies on\<close>

text \<open>
  A writer that keeps the body it is given: a write never panics and adds its bytes at the
  end, also when passing them on fails.  \<open>ready\<close> is the condition under which it does.
\<close>

locale body_collector =
  fixes ops :: "'s rw_ops"
    and collected :: "'s \<Rightarrow> string"
    and ready :: "'s \<Rightarrow> bool"
  assumes write_total: "ready s \<Longrightarrow> \<exists>e s'. rwo_Write ops d s = (Inr e, s')"
    and write_collects: "ready s \<Longrightarrow> rwo_Write ops d s = (Inr e, s') \<Longrightarrow> collected s' = collected s @ d"
    and write_ready: "ready s \<Longrightarrow> rwo_Write ops d s = (Inr e, s') \<Longrightarrow> ready s'"
begin

lemma copy_total: "ready s \<Longrightarrow> \<exists>e s'. copy_chunks ops cs s = (Inr e, s')"
proof (induction cs arbitrary: s)
  case Nil
  show ?case by (auto simp: go_simps)
next
  case (Cons c cs)
  obtain e s' where w: "rwo_Write ops c s = (Inr e, s')" using write_total [OF Cons.prems] by blast
  then have "ready s'" using write_ready [OF Cons.prems] by blast
  then show ?case using Cons.IH [of s'] by (cases e) (auto simp: go_bind_def w go_simps)
qed

lemma copy_ready: "ready s \<Longrightarrow> copy_chunks ops cs s = (Inr e, s') \<Longrightarrow> ready s'"
proof (induction cs arbitrary: s)
  case Nil
  then show ?case by (simp add: go_simps)
next
  case (Cons c cs)
  obtain e1 s1 where w: "rwo_Write ops c s = (Inr e1, s1)" using write_total [OF Cons.prems(1)] by blast
  then have r: "ready s1" using write_ready [OF Cons.prems(1)] by blast
  from Cons.prems(2) r show ?case
    by (cases e1) (auto simp: go_bind_def w go_simps intro: Cons.IH)
qed

lemma copy_collects:
  "ready s \<Longrightarrow> copy_chunks ops cs s = (Inr False, s') \<Longrightarrow> collected s' = collected s @ concat cs"
proof (induction cs arbitrary: s)
  case Nil
  then show ?case by (simp add: go_simps)
next
  case (Cons c cs)
  obtain e1 s1 where w: "rwo_Write ops c s = (Inr e1, s1)" using write_total [OF Cons.prems(1)] by blast
  then have r: "ready s1" and k: "collected s1 = collected s @ c"
    using write_ready [OF Cons.prems(1)] write_collects [OF Cons.prems(1)] by blast+
  from Cons.prems(2) have "\<not> e1" and "copy_chunks ops cs s1 = (Inr False, s')"
    by (auto simp: go_bind_def w go_simps split: if_splits)
  then show ?case using Cons.IH [OF r] k by simp
qed

end

interpretation collecting: body_collector "collecting_ops :: ('s \<times> collecting_rw) rw_ops"
    "\<lambda>st. col_body (snd st)" "\<lambda>_. True"
  by unfold_locales
    (auto simp: collecting_ops_def CollectingResponseWriter_Write_def go_simps go_bind_def)

text \<open>The collecting writer never refuses a write, so a response is collected whole.\<close>

lemma copy_collecting:
  "copy_chunks collecting_ops cs (s, w) = (Inr False, (s, w\<lparr>col_body := col_body w @ concat cs\<rparr>))"
  by (induction cs arbitrary: w)
    (simp_all add: collecting_ops_def CollectingResponseWriter_Write_def go_simps go_bind_def)

lemma collecting_WriteHeader:
  "rwo_WriteHeader collecting_ops c (s, NewCollectingResponseWriter) =
     (Inr (), (s, \<lparr>col_body = [], col_statusCode = c, col_headers = fmempty\<rparr>))"
  by (simp add: collecting_ops_def CollectingResponseWriter_WriteHeader_def NewCollectingResponseWriter_def go_simps)

lemma collecting_send_response:
  "send_response collecting_ops r (s, NewCollectingResponseWriter) =
     (if resp_BodyErr r then Inl AbortHandler else Inr (),
      (s, \<lparr>col_body = concat (resp_Chunks r), col_statusCode = resp_Status r,
           col_headers = removeHopByHopHeaders (resp_Header r)\<rparr>))"
proof -
  have h: "rwo_Header collecting_ops (s, w) = col_headers w" for w
    by (simp add: collecting_ops_def CollectingResponseWriter_Header_def)
  have w: "rwo_WriteHeader collecting_ops c (s, w) = (Inr (), (s, w\<lparr>col_statusCode := c\<rparr>))"
    and g: "rwo_SetHeader collecting_ops x (s, w) = (s, w\<lparr>col_headers := x\<rparr>)" for c x and w :: collecting_rw
    by (simp_all add: collecting_ops_def CollectingResponseWriter_WriteHeader_def go_simps)
  show ?thesis
    by (simp add: send_response_def go_simps go_bind_def h w g copy_collecting NewCollectingResponseWriter_def)
qed

text \<open>The collecting writer leaves the rest of the state alone.\<close>

lemma collecting_keeps:
  "go_keeps (\<lambda>st. f (fst st)) (rwo_WriteHeader collecting_ops c)"
  "go_keeps (\<lambda>st. f (fst st)) (rwo_Write collecting_ops d)"
  "f (fst (rwo_SetHeader collecting_ops h st)) = f (fst st)"
  by (auto simp: collecting_ops_def CollectingResponseWriter_WriteHeader_def CollectingResponseWriter_Write_def
      go_simps go_bind_def go_keeps_def split: prod.split)

lemma copy_collecting_keeps: "go_keeps (\<lambda>st. f (fst st)) (copy_chunks collecting_ops cs)"
  by (induction cs) (auto intro!: go_rules collecting_keeps)

lemma collecting_proxy_keeps:
  assumes "\<And>i out. go_keeps f (rewrite i out)" and "\<And>out. go_keeps f (rt out)"
  shows "go_keeps (\<lambda>st. f (fst st))
    (reverse_proxy collecting_ops (\<lambda>i out. go_on_fst (rewrite i out)) (\<lambda>out. go_on_fst (rt out)) req)"
  unfolding reverse_proxy_def send_response_def
  by (intro go_rules keeps_on_fst assms collecting_keeps copy_collecting_keeps)

end
