(* ===== verification/Orchestration.thy ===== *)
theory Orchestration
  imports Gie Response_Writer
begin

text \<open>
  The orchestration object of pkg/orchestrations: preparing a request
  (orchestration.go), the operations offered to an orchestration plugin (plugin\_api.go), the
  standard processing without a plugin (standard.go) and what happens at the end of a
  response.

  \<open>orch\<close> is the object together with what the outside can observe of a run: the requests
  that went to model servers, each with its answer, the metrics that were recorded, and the
  client's response writer.  \<open>o_tick\<close> counts the questions put to the environment.
\<close>

datatype metric =
    RecordRequestCounter string string
  | RecordRequestSizes string string int
  | RecordInputTokens string string int
  | RecordOutputTokens string string int
  | RecordPromptCachedTokens string string int
  | RecordRequestLatencies string string int int
  | RecordResponseSizes string string int
  | RecordNormalizedTimePerOutputToken string string int int int

record orch =
  o_reqCtx :: reqctx
  o_req :: http_request
  o_rw :: response_writer
  o_tick :: nat
  o_sent :: "(out_request \<times> response option) list"
  o_metrics :: "metric list"

definition defaultFairnessID :: string where "defaultFairnessID = ''default-flow''"
definition SchemeKey :: string where "SchemeKey = '':scheme''"
definition MethodKey :: string where "MethodKey = '':method''"
definition PathKey :: string where "PathKey = '':path''"

definition EnvoyHeaders :: "string set" where
  "EnvoyHeaders = {map to_lower SchemeKey, map to_lower MethodKey, map to_lower PathKey}"

section \<open>Access to the state\<close>

definition upd_ctx :: "(reqctx \<Rightarrow> reqctx) \<Rightarrow> (orch, unit) go" where
  "upd_ctx f = go_modify (\<lambda>o'. o'\<lparr>o_reqCtx := f (o_reqCtx o')\<rparr>)"

definition get_ctx :: "(reqctx \<Rightarrow> 'a) \<Rightarrow> (orch, 'a) go" where
  "get_ctx f = go_read (\<lambda>o'. f (o_reqCtx o'))"

definition record_metric :: "(reqctx \<Rightarrow> metric) \<Rightarrow> (orch, unit) go" where
  "record_metric f = go_modify (\<lambda>o'. o'\<lparr>o_metrics := o_metrics o' @ [f (o_reqCtx o')]\<rparr>)"

definition next_tick :: "(orch, nat) go" where
  "next_tick o' = (Inr (o_tick o'), o'\<lparr>o_tick := Suc (o_tick o')\<rparr>)"

text \<open>A call of a director operation on the request context; its error is returned.\<close>

definition call_director :: "(nat \<Rightarrow> reqctx \<Rightarrow> reqctx \<times> 'e) \<Rightarrow> (orch, 'e) go" where
  "call_director f =
     go_bind next_tick (\<lambda>t. go_bind (get_ctx (f t)) (\<lambda>(ctx, e).
       go_then (upd_ctx (\<lambda>_. ctx)) (go_return e)))"

text \<open>The client's writer as the response writer the handler was given.\<close>

definition client_WriteHeader :: "int \<Rightarrow> (orch, unit) go" where
  "client_WriteHeader c = go_modify (\<lambda>o'. o'\<lparr>o_rw := rw_WriteHeader c (o_rw o')\<rparr>)"

definition client_Write :: "env \<Rightarrow> string \<Rightarrow> (orch, bool) go" where
  "client_Write E d = go_bind next_tick (\<lambda>t.
     if client_write_fails E t then go_return True
     else go_then (go_modify (\<lambda>o'. o'\<lparr>o_rw := rw_Write d (o_rw o')\<rparr>)) (go_return False))"

definition client_ops :: "env \<Rightarrow> orch rw_ops" where
  "client_ops E =
     \<lparr>rwo_Header = (\<lambda>o'. rw_Header (o_rw o')),
      rwo_SetHeader = (\<lambda>h o'. o'\<lparr>o_rw := (o_rw o')\<lparr>rw_Header := h\<rparr>\<rparr>),
      rwo_WriteHeader = client_WriteHeader,
      rwo_Write = client_Write E\<rparr>"

text \<open>The transport: the exchange is logged whatever the answer (\<open>None\<close> for no answer at all).\<close>

definition round_trip :: "env \<Rightarrow> out_request \<Rightarrow> (orch, response option) go" where
  "round_trip E out =
     go_bind next_tick (\<lambda>t.
     go_then (go_modify (\<lambda>o'. o'\<lparr>o_sent := o_sent o' @ [(out, RoundTrip E t out)]\<rparr>))
       (go_return (RoundTrip E t out)))"

section \<open>orchestration.go\<close>

definition NewOrchestration :: "env \<Rightarrow> http_request \<Rightarrow> string \<Rightarrow> response_writer \<Rightarrow> nat \<Rightarrow> orch" where
  "NewOrchestration E req requestID origRW tick =
     \<lparr>o_reqCtx =
        \<lparr>rc_Headers = fmupd (RequestIdHeaderKey E) requestID fmempty, rc_Body = Some fmempty,
         rc_RespHeaders = fmempty, FairnessID = '''', ObjectiveKey = '''',
         IncomingModelName = '''', TargetModelName = '''', RequestSize = 0, ResponseSize = 0,
         TargetPod = None, TargetEndpoint = '''', SchedulingRequest = None,
         ModelServerStreaming = False, ResponseComplete = False, ResponseStatusCode = '''',
         rc_Usage = zero_usage, RequestReceivedTimestamp = 0, ResponseCompleteTimestamp = 0\<rparr>,
      o_req = req, o_rw = origRW, o_tick = tick, o_sent = [], o_metrics = []\<rparr>"

definition sendError :: "env \<Rightarrow> string \<Rightarrow> (orch, unit) go" where
  "sendError E err =
     go_then (client_WriteHeader 500) (go_then (client_Write E err) (go_return ()))"

definition copy_request_header :: "env \<Rightarrow> http_header \<Rightarrow> string \<Rightarrow> (orch, unit) go" where
  "copy_request_header E header key =
     go_bind (go_lift (first (header_values header key))) (\<lambda>v.
     go_then (upd_ctx (\<lambda>c. c\<lparr>rc_Headers := fmupd key v (rc_Headers c)\<rparr>))
       (if key = FlowFairnessIDKey E then upd_ctx (\<lambda>c. c\<lparr>FairnessID := v\<rparr>)
        else if key = ObjectiveKeyHeader E then upd_ctx (\<lambda>c. c\<lparr>ObjectiveKey := v\<rparr>)
        else if key = ModelNameRewriteKey E then upd_ctx (\<lambda>c. c\<lparr>TargetModelName := v\<rparr>)
        else go_return ()))"

definition set_pseudo_headers :: "http_request \<Rightarrow> reqctx \<Rightarrow> reqctx" where
  "set_pseudo_headers req c = c\<lparr>rc_Headers :=
     fmupd PathKey (req_Path req) (fmupd MethodKey (req_Method req)
       (fmupd SchemeKey (req_Scheme req) (rc_Headers c)))\<rparr>"

definition PrepareRequest :: "env \<Rightarrow> (orch, gie_error option) go" where
  "PrepareRequest E =
     go_bind (go_read o_req) (\<lambda>req.
     go_bind next_tick (\<lambda>t.
     go_then (go_foreach (copy_request_header E (req_Header req)) (range_order E t (fmdom (req_Header req))))
    (go_then (upd_ctx (set_pseudo_headers req))
    (go_then (upd_ctx (\<lambda>c. if FairnessID c = '''' then c\<lparr>FairnessID := defaultFairnessID\<rparr> else c))
       (let (body, readErr) = req_Body req;
            badRequest = \<lparr>err_Code = BadRequest E, err_Msg = ''Error unmarshaling request body''\<rparr>
        in if readErr then go_return (Some badRequest)
           else go_bind (get_ctx (\<lambda>c. unmarshal_map body (rc_Body c))) (\<lambda>(m, unmarshalErr).
                go_then (upd_ctx (\<lambda>c. c\<lparr>rc_Body := m\<rparr>))
                  (if unmarshalErr then go_return (Some badRequest)
                   else go_then (upd_ctx (\<lambda>c. c\<lparr>RequestSize := int (length body)\<rparr>))
                          (go_return None))))))))"

text \<open>The header loop of \<open>updateOutgoingRequest\<close>, over the keys in the order of the loop.\<close>

fun update_headers :: "env \<Rightarrow> (string, string) fmap \<Rightarrow> string list \<Rightarrow> http_header \<Rightarrow> http_header" where
  "update_headers E hs [] h = h"
| "update_headers E hs (key # ks) h =
     update_headers E hs ks
       (case fmlookup hs key of
          None \<Rightarrow> h
        | Some v \<Rightarrow> if IsSystemOwnedHeader E key \<or> key \<in> EnvoyHeaders then header_Del key h
                   else header_Set key v h)"

definition updateOutgoingRequest :: "env \<Rightarrow> out_request \<Rightarrow> (orch, out_request) go" where
  "updateOutgoingRequest E out =
     go_bind (get_ctx (\<lambda>c. case marshal_go_map (rc_Body c) of None \<Rightarrow> '''' | Some b \<Rightarrow> b)) (\<lambda>requestBodyBytes.
     go_then (upd_ctx (\<lambda>c. c\<lparr>RequestSize := int (length requestBodyBytes)\<rparr>))
    (go_then (if out_Body out = None then go_panic NilDeref else go_return ())
    (go_bind next_tick (\<lambda>t.
     go_bind (get_ctx (\<lambda>c. update_headers E (rc_Headers c) (range_order E t (fmdom (rc_Headers c))) (out_Header out))) (\<lambda>h.
     go_bind (get_ctx RequestSize) (\<lambda>size.
     go_then (record_metric (\<lambda>c. RecordRequestCounter (IncomingModelName c) (TargetModelName c)))
    (go_then (record_metric (\<lambda>c. RecordRequestSizes (IncomingModelName c) (TargetModelName c) (RequestSize c)))
       (go_return (out\<lparr>out_Body := Some requestBodyBytes, out_ContentLength := size,
                       out_Header := header_Set ''Content-Length'' (itoa size) h\<rparr>)))))))))"

definition cached_tokens :: "reqctx \<Rightarrow> int" where
  "cached_tokens c = (case PromptTokenDetails (rc_Usage c) of None \<Rightarrow> 0 | Some n \<Rightarrow> n)"

definition record_token_metrics :: "(orch, unit) go" where
  "record_token_metrics =
     go_then (record_metric (\<lambda>c. RecordInputTokens (IncomingModelName c) (TargetModelName c) (PromptTokens (rc_Usage c))))
    (go_then (record_metric (\<lambda>c. RecordOutputTokens (IncomingModelName c) (TargetModelName c) (CompletionTokens (rc_Usage c))))
       (record_metric (\<lambda>c. RecordPromptCachedTokens (IncomingModelName c) (TargetModelName c) (cached_tokens c))))"

definition HandleResponseBodyModelStreaming :: "env \<Rightarrow> string \<Rightarrow> (orch, unit) go" where
  "HandleResponseBodyModelStreaming E responseText =
     go_then (call_director (HandleResponseBodyStreaming (env_director E)))
    (go_then (let u = ParseRespForUsage E responseText
              in if 0 < TotalTokens u then upd_ctx (\<lambda>c. c\<lparr>rc_Usage := u\<rparr>) else go_return ())
       (if contains responseText (StreamingEndMsg E)
        then go_then (upd_ctx (\<lambda>c. c\<lparr>ResponseComplete := True\<rparr>)) record_token_metrics
        else go_return ()))"

text \<open>The type assertions on the usage of a response: \<open>x.(float64)\<close>, \<open>x.(map[string]any)\<close>.\<close>

fun assert_float :: "any option \<Rightarrow> panic + int" where
  "assert_float (Some (AFloat f)) = Inr (int_of_float f)"
| "assert_float _ = Inl BadTypeAssertion"

fun assert_map :: "any option \<Rightarrow> panic + (string, any) fmap" where
  "assert_map (Some (AMap m)) = Inr m"
| "assert_map _ = Inl BadTypeAssertion"

definition go_map_get :: "go_map \<Rightarrow> string \<Rightarrow> any option" where
  "go_map_get m k = (case m of None \<Rightarrow> None | Some x \<Rightarrow> fmlookup x k)"

definition is_nil :: "any option \<Rightarrow> bool" where
  "is_nil v \<longleftrightarrow> v = None \<or> v = Some ANil"

definition parse_usage :: "(string, any) fmap \<Rightarrow> panic + usage" where
  "parse_usage usg = (case assert_float (fmlookup usg ''prompt_tokens'') of
     Inl p \<Rightarrow> Inl p
   | Inr pt \<Rightarrow> (case assert_float (fmlookup usg ''completion_tokens'') of
       Inl p \<Rightarrow> Inl p
     | Inr ct \<Rightarrow> (case assert_float (fmlookup usg ''total_tokens'') of
         Inl p \<Rightarrow> Inl p
       | Inr tt \<Rightarrow>
           let u = \<lparr>PromptTokens = pt, CompletionTokens = ct, TotalTokens = tt, PromptTokenDetails = None\<rparr>
           in if is_nil (fmlookup usg ''prompt_token_details'') then Inr u
              else (case assert_map (fmlookup usg ''prompt_token_details'') of
                Inl p \<Rightarrow> Inl p
              | Inr details \<Rightarrow>
                  (case fmlookup details ''cached_tokens'' of
                     None \<Rightarrow> Inr u
                   | Some c \<Rightarrow> (case assert_float (Some c) of
                       Inl p \<Rightarrow> Inl p
                     | Inr n \<Rightarrow> Inr (u\<lparr>PromptTokenDetails := Some n\<rparr>)))))))"

text \<open>The result is whether an error is returned.\<close>

definition HandleResponseBody :: "env \<Rightarrow> go_map \<Rightarrow> (orch, bool) go" where
  "HandleResponseBody E response = (case marshal_go_map response of
     None \<Rightarrow> go_return True
   | Some responseBytes \<Rightarrow>
       go_then (if is_nil (go_map_get response ''usage'') then go_return ()
                else go_bind (go_lift (assert_map (go_map_get response ''usage''))) (\<lambda>usg.
                     go_bind (go_lift (parse_usage usg)) (\<lambda>u. upd_ctx (\<lambda>c. c\<lparr>rc_Usage := u\<rparr>))))
      (go_then (upd_ctx (\<lambda>c. c\<lparr>ResponseSize := int (length responseBytes), ResponseComplete := True\<rparr>))
      (go_bind (call_director (HandleResponseBodyComplete (env_director E))) (\<lambda>err.
         go_return (err \<noteq> None)))))"

definition set_complete_timestamp :: "env \<Rightarrow> (orch, unit) go" where
  "set_complete_timestamp E =
     go_bind next_tick (\<lambda>t. upd_ctx (\<lambda>c. c\<lparr>ResponseCompleteTimestamp := time_Now E t\<rparr>))"

definition record_latencies :: "(orch, unit) go" where
  "record_latencies = record_metric (\<lambda>c. RecordRequestLatencies (IncomingModelName c)
     (TargetModelName c) (RequestReceivedTimestamp c) (ResponseCompleteTimestamp c))"

definition handleEndOfResponse :: "env \<Rightarrow> string \<Rightarrow> (orch, unit) go" where
  "handleEndOfResponse E body =
     go_bind (get_ctx ModelServerStreaming) (\<lambda>streaming.
     go_bind
       (if streaming then
          go_then (upd_ctx (\<lambda>c. c\<lparr>ResponseComplete := True\<rparr>))
         (go_then (call_director (HandleResponseBodyComplete (env_director E)))
         (go_then (set_complete_timestamp E)
         (go_then (record_metric (\<lambda>c. RecordNormalizedTimePerOutputToken (IncomingModelName c)
                     (TargetModelName c) (RequestReceivedTimestamp c) (ResponseCompleteTimestamp c)
                     (CompletionTokens (rc_Usage c))))
            (go_return True))))
        else
          go_bind (HandleResponseBody E (fst (unmarshal_map body None))) (\<lambda>err.
            if err then go_return False
            else go_bind (get_ctx ResponseComplete) (\<lambda>complete.
                 go_then (if complete
                          then go_then (set_complete_timestamp E)
                              (go_then record_latencies record_token_metrics)
                          else go_return ())
                   (go_return True))))
       (\<lambda>continue.
          if \<not> continue then go_return ()
          else go_then record_latencies
                (record_metric (\<lambda>c. RecordResponseSizes (IncomingModelName c) (TargetModelName c) (ResponseSize c)))))"

section \<open>standard.go\<close>

definition standardRewrite :: "env \<Rightarrow> http_request \<Rightarrow> out_request \<Rightarrow> (orch, out_request) go" where
  "standardRewrite E req out =
     go_bind (get_ctx (\<lambda>c. url_host (TargetEndpoint c))) (\<lambda>targetURL.
       case targetURL of
         None \<Rightarrow> go_panic NilDeref
       | Some host \<Rightarrow>
           go_bind (updateOutgoingRequest E (SetURL host out)) (\<lambda>out'.
             go_return (SetXForwarded req out')))"

definition copy_response_header :: "http_header \<Rightarrow> string \<Rightarrow> (orch, unit) go" where
  "copy_response_header headers key =
     go_bind (go_lift (first (header_values headers key))) (\<lambda>v.
     go_then (upd_ctx (\<lambda>c. c\<lparr>rc_RespHeaders := fmupd key v (rc_RespHeaders c)\<rparr>))
       (if key = ''content-type'' \<and> contains v ''text/event-stream''
        then upd_ctx (\<lambda>c. c\<lparr>ModelServerStreaming := True\<rparr>) else go_return ()))"

definition standardResponseHeaderHandler :: "env \<Rightarrow> int \<Rightarrow> http_header \<Rightarrow> (orch, unit) go" where
  "standardResponseHeaderHandler E statusCode headers =
     go_then (if statusCode \<noteq> StatusOK
              then upd_ctx (\<lambda>c. c\<lparr>ResponseStatusCode := ModelServerError E\<rparr>) else go_return ())
    (go_bind next_tick (\<lambda>t.
     go_then (go_foreach (copy_response_header headers) (range_order E t (fmdom headers)))
    (go_then (call_director (HandleResponseReceived (env_director E)))
       (go_return ()))))"

definition standardStreamingHandler :: "env \<Rightarrow> string \<Rightarrow> (orch, unit) go" where
  "standardStreamingHandler E responseText = HandleResponseBodyModelStreaming E responseText"

text \<open>
  Serving through a copying writer on the client's writer, and what is done with the body
  it kept.
\<close>

definition forward_to_client :: "env \<Rightarrow> (orch, unit) go" where
  "forward_to_client E =
     go_bind (go_read o_req) (\<lambda>req.
     go_bind (go_local NewCopyingResponseWriter
       (reverse_proxy
         (copying_ops (client_ops E) (standardResponseHeaderHandler E) (standardStreamingHandler E))
         (\<lambda>i out. go_on_fst (standardRewrite E i out)) (\<lambda>out. go_on_fst (round_trip E out)) req))
       (\<lambda>(_, responseWriter). handleEndOfResponse E (CopyingResponseWriter_Body responseWriter)))"

definition StandardProcessing :: "env \<Rightarrow> (orch, unit) go" where
  "StandardProcessing E =
     go_bind (call_director (HandleRequest (env_director E))) (\<lambda>err.
       case err of
         Some e \<Rightarrow> sendError E e
       | None \<Rightarrow> forward_to_client E)"

section \<open>plugin\_api.go\<close>

definition orchestrationSelectedProfile :: string where
  "orchestrationSelectedProfile = ''selectedProfile''"

definition orch_Headers :: "orch \<Rightarrow> (string, string) fmap" where
  "orch_Headers o' = rc_Headers (o_reqCtx o')"

definition orch_Body :: "orch \<Rightarrow> go_map" where
  "orch_Body o' = rc_Body (o_reqCtx o')"

definition DetermineTargets :: "env \<Rightarrow> string list \<Rightarrow> (orch, string + scheduling_result) go" where
  "DetermineTargets E profileNames =
     go_bind (call_director (\<lambda>t ctx. HandleRequestHelper (env_director E) t ctx profileNames)) (\<lambda>r.
       case r of
         Inl err \<Rightarrow> go_then (sendError E err) (go_return (Inl err))
       | Inr results \<Rightarrow> go_return (Inr results))"

definition commonSendRequest :: "env \<Rightarrow> endpoint \<Rightarrow> (orch, unit) go" where
  "commonSendRequest E target =
     (let md = ep_Metadata target;
          endpointString = JoinHostPort (md_Address md) (md_Port md);
          schedulingResult = \<lparr>ProfileResults = fmupd orchestrationSelectedProfile
                                (Some \<lparr>TargetEndpoints = [target]\<rparr>) fmempty,
                              PrimaryProfileName = orchestrationSelectedProfile\<rparr>
      in go_then (upd_ctx (\<lambda>c. c\<lparr>TargetPod := Some md, TargetEndpoint := endpointString\<rparr>))
        (go_bind next_tick (\<lambda>t.
           upd_ctx (\<lambda>c. let (hs, sr) = RunPreRequestPlugins (env_director E) t (rc_Headers c)
                                        (SchedulingRequest c) schedulingResult
                        in c\<lparr>rc_Headers := hs, SchedulingRequest := sr\<rparr>))))"

text \<open>The first value of every header of a response, in the order of the loop.\<close>

definition collect_header :: "http_header \<Rightarrow> string \<Rightarrow> ((string, string) fmap, unit) go" where
  "collect_header header key =
     go_bind (go_lift (first (header_values header key))) (\<lambda>v. go_modify (fmupd key v))"

definition SendRequest :: "env \<Rightarrow> endpoint \<Rightarrow> (orch, gie_error + (string, string) fmap \<times> go_map) go" where
  "SendRequest E target =
     go_then (commonSendRequest E target)
    (go_bind (go_read o_req) (\<lambda>req.
     go_bind (go_local NewCollectingResponseWriter
       (reverse_proxy collecting_ops (\<lambda>i out. go_on_fst (standardRewrite E i out))
          (\<lambda>out. go_on_fst (round_trip E out)) req)) (\<lambda>(_, responseWriter).
     go_bind next_tick (\<lambda>t.
       let (r, headers) = go_foreach (collect_header (col_headers responseWriter))
                            (range_order E t (fmdom (col_headers responseWriter))) fmempty
       in go_then (go_lift r)
            (let (body, unmarshalErr) = unmarshal_map (col_body responseWriter) (Some fmempty)
             in if unmarshalErr
                then go_return (Inl \<lparr>err_Code = BadRequest E, err_Msg = ''Error unmarshaling respone body''\<rparr>)
                else go_return (Inr (headers, body)))))))"

definition SendRequestAndResponse :: "env \<Rightarrow> endpoint \<Rightarrow> (orch, unit) go" where
  "SendRequestAndResponse E target = go_then (commonSendRequest E target) (forward_to_client E)"

section \<open>What the actions do, as equations\<close>

lemmas state_defs = upd_ctx_def get_ctx_def record_metric_def next_tick_def call_director_def
  client_WriteHeader_def client_Write_def round_trip_def

lemmas run_simps = state_defs go_simps go_bind_def

text \<open>The bytes of the request body as they are sent; a body that cannot be encoded is sent empty.\<close>

definition body_bytes :: "reqctx \<Rightarrow> string" where
  "body_bytes c = (case marshal_go_map (rc_Body c) of None \<Rightarrow> '''' | Some b \<Rightarrow> b)"

definition request_metrics :: "reqctx \<Rightarrow> metric list" where
  "request_metrics c =
     [RecordRequestCounter (IncomingModelName c) (TargetModelName c),
      RecordRequestSizes (IncomingModelName c) (TargetModelName c) (int (length (body_bytes c)))]"

definition outgoing_header :: "env \<Rightarrow> orch \<Rightarrow> http_header \<Rightarrow> http_header" where
  "outgoing_header E o' h =
     (let hs = rc_Headers (o_reqCtx o')
      in header_Set ''Content-Length'' (itoa (int (length (body_bytes (o_reqCtx o')))))
           (update_headers E hs (range_order E (o_tick o') (fmdom hs)) h))"

definition after_update :: "orch \<Rightarrow> orch" where
  "after_update o' = o'\<lparr>o_reqCtx := (o_reqCtx o')\<lparr>RequestSize := int (length (body_bytes (o_reqCtx o')))\<rparr>,
     o_tick := Suc (o_tick o'), o_metrics := o_metrics o' @ request_metrics (o_reqCtx o')\<rparr>"

lemma updateOutgoingRequest_eq:
  "updateOutgoingRequest E out o' =
     (if out_Body out = None
      then (Inl NilDeref, o'\<lparr>o_reqCtx := (o_reqCtx o')\<lparr>RequestSize := int (length (body_bytes (o_reqCtx o')))\<rparr>\<rparr>)
      else (Inr (out\<lparr>out_Body := Some (body_bytes (o_reqCtx o')),
                     out_ContentLength := int (length (body_bytes (o_reqCtx o'))),
                     out_Header := outgoing_header E o' (out_Header out)\<rparr>),
            after_update o'))"
  by (simp add: updateOutgoingRequest_def run_simps body_bytes_def [symmetric] outgoing_header_def
      after_update_def request_metrics_def Let_def)

definition rewritten :: "env \<Rightarrow> http_request \<Rightarrow> string \<Rightarrow> orch \<Rightarrow> out_request \<Rightarrow> out_request" where
  "rewritten E req host o' out = SetXForwarded req ((SetURL host out)\<lparr>
     out_Body := Some (body_bytes (o_reqCtx o')),
     out_ContentLength := int (length (body_bytes (o_reqCtx o'))),
     out_Header := outgoing_header E o' (out_Header out)\<rparr>)"

lemma SetURL_simps [simp]:
  "out_Body (SetURL host out) = out_Body out" "out_Header (SetURL host out) = out_Header out"
  "out_URLHost (SetURL host out) = host"
  by (simp_all add: SetURL_def)

lemma standardRewrite_eq:
  assumes "url_host (TargetEndpoint (o_reqCtx o')) = Some host" and "out_Body out \<noteq> None"
  shows "standardRewrite E req out o' = (Inr (rewritten E req host o' out), after_update o')"
  using assms by (simp add: standardRewrite_def run_simps updateOutgoingRequest_eq rewritten_def)

lemma SetXForwarded_simps [simp]:
  "out_Body (SetXForwarded req out) = out_Body out"
  "out_ContentLength (SetXForwarded req out) = out_ContentLength out"
  "out_URLHost (SetXForwarded req out) = out_URLHost out"
  by (simp_all add: SetXForwarded_def Let_def)

lemma default_user_agent_simps [simp]:
  "out_Body (default_user_agent out) = out_Body out"
  "out_ContentLength (default_user_agent out) = out_ContentLength out"
  "out_URLHost (default_user_agent out) = out_URLHost out"
  by (simp_all add: default_user_agent_def split: option.split)

text \<open>The request a model server gets when the orchestration is in a given state.\<close>

definition sent_request :: "env \<Rightarrow> string \<Rightarrow> orch \<Rightarrow> out_request" where
  "sent_request E host o' = default_user_agent (rewritten E (o_req o') host o' (clone_out (o_req o')))"

lemma sent_request_simps:
  "out_URLHost (sent_request E host o') = host"
  "out_Body (sent_request E host o') = Some (body_bytes (o_reqCtx o'))"
  "out_ContentLength (sent_request E host o') = int (length (body_bytes (o_reqCtx o')))"
  by (simp_all add: sent_request_def rewritten_def)

text \<open>The answer of the network to the request.\<close>

definition answer :: "env \<Rightarrow> string \<Rightarrow> orch \<Rightarrow> response option" where
  "answer E host o' = RoundTrip E (Suc (o_tick o')) (sent_request E host o')"

text \<open>The state in which the answer to that request comes back.\<close>

definition after_send :: "env \<Rightarrow> string \<Rightarrow> orch \<Rightarrow> orch" where
  "after_send E host o' = (after_update o')\<lparr>o_tick := Suc (Suc (o_tick o')),
     o_sent := o_sent o' @ [(sent_request E host o', answer E host o')]\<rparr>"

lemma after_send_simps [simp]:
  "o_rw (after_send E host o') = o_rw o'" "o_req (after_send E host o') = o_req o'"
  "o_sent (after_send E host o') = o_sent o' @ [(sent_request E host o', answer E host o')]"
  "rc_Body (o_reqCtx (after_send E host o')) = rc_Body (o_reqCtx o')"
  "rc_Headers (o_reqCtx (after_send E host o')) = rc_Headers (o_reqCtx o')"
  "o_tick (after_send E host o') = Suc (Suc (o_tick o'))"
  by (simp_all add: after_send_def after_update_def)

lemma proxy_round_trip:
  assumes "url_host (TargetEndpoint (o_reqCtx o')) = Some host"
    and "req_ContentLength (o_req o') \<noteq> 0"
  shows "reverse_proxy ops (\<lambda>i out. go_on_fst (standardRewrite E i out)) (\<lambda>out. go_on_fst (round_trip E out))
           (o_req o') (o', w) =
         (case answer E host o' of
            None \<Rightarrow> rwo_WriteHeader ops StatusBadGateway
          | Some r \<Rightarrow> send_response ops r) (after_send E host o', w)"
proof -
  have b: "out_Body (clone_out (o_req o')) \<noteq> None" using assms(2) by (simp add: clone_out_def)
  show ?thesis
    by (simp add: reverse_proxy_def go_bind_def go_on_fst_def standardRewrite_eq [OF assms(1) b] round_trip_def
        next_tick_def go_simps sent_request_def [symmetric] answer_def after_send_def after_update_def)
qed

section \<open>Sending a request and collecting the answer\<close>

text \<open>The state after the target of a request is set and the pre-request plugins have run.\<close>

definition targeted :: "env \<Rightarrow> endpoint \<Rightarrow> orch \<Rightarrow> orch" where
  "targeted E target o' =
     (let c = o_reqCtx o'; md = ep_Metadata target;
          (hs, sr) = RunPreRequestPlugins (env_director E) (o_tick o') (rc_Headers c) (SchedulingRequest c)
             \<lparr>ProfileResults = fmupd orchestrationSelectedProfile (Some \<lparr>TargetEndpoints = [target]\<rparr>) fmempty,
              PrimaryProfileName = orchestrationSelectedProfile\<rparr>
      in o'\<lparr>o_reqCtx := c\<lparr>TargetPod := Some md, TargetEndpoint := JoinHostPort (md_Address md) (md_Port md),
                           rc_Headers := hs, SchedulingRequest := sr\<rparr>,
            o_tick := Suc (o_tick o')\<rparr>)"

lemma commonSendRequest_eq: "commonSendRequest E target o' = (Inr (), targeted E target o')"
  by (simp add: commonSendRequest_def targeted_def run_simps Let_def split: prod.split)

lemma targeted_simps [simp]:
  "rc_Body (o_reqCtx (targeted E target o')) = rc_Body (o_reqCtx o')"
  "o_rw (targeted E target o') = o_rw o'" "o_req (targeted E target o') = o_req o'"
  "o_sent (targeted E target o') = o_sent o'" "o_metrics (targeted E target o') = o_metrics o'"
  "o_tick (targeted E target o') = Suc (o_tick o')"
  "TargetEndpoint (o_reqCtx (targeted E target o')) =
     JoinHostPort (md_Address (ep_Metadata target)) (md_Port (ep_Metadata target))"
  "ModelServerStreaming (o_reqCtx (targeted E target o')) = ModelServerStreaming (o_reqCtx o')"
  by (simp_all add: targeted_def Let_def split: prod.split)

lemma fold_header_values:
  assumes "is_order (fmdom h) ks"
  shows "fold (\<lambda>k. fmupd k (hd (header_values h k))) ks m = m ++\<^sub>f fmmap hd h"
proof (rule fmap_ext)
  fix k
  show "fmlookup (fold (\<lambda>k. fmupd k (hd (header_values h k))) ks m) k = fmlookup (m ++\<^sub>f fmmap hd h) k"
    using assms
    by (cases "fmlookup h k") (auto simp: fold_fmupd_lookup is_order_def header_values_def fmlookup_dom_iff
        dest: fmdomI fmdom_notI)
qed

lemma collect_headers:
  assumes "wire_header h" and "is_order (fmdom h) ks"
  shows "go_foreach (collect_header h) ks fmempty = (Inr (), fmmap hd h)"
proof -
  have run: "go_foreach (collect_header h) ls m = (Inr (), fold (\<lambda>k. fmupd k (hd (header_values h k))) ls m)"
    if "set ls \<subseteq> fset (fmdom h)" for ls m
    using that
  proof (induction ls arbitrary: m)
    case (Cons k ls)
    then obtain vs where k: "fmlookup h k = Some vs" by (auto simp: fmlookup_dom_iff)
    with assms(1) have "vs \<noteq> []" by (auto simp: wire_header_def)
    then obtain v vs' where "vs = v # vs'" by (cases vs) auto
    with Cons k show ?case by (simp add: collect_header_def header_values_def go_simps go_bind_def)
  qed (simp add: go_simps)
  have eq: "fold (\<lambda>k. fmupd k (hd (header_values h k))) ks fmempty = fmmap hd h"
    using fold_header_values [OF assms(2), of fmempty] by simp
  have sub: "set ks \<subseteq> fset (fmdom h)" using assms(2) by (simp add: is_order_def)
  show ?thesis unfolding run [OF sub] eq ..
qed

text \<open>What the caller of \<open>SendRequest\<close> is given for an answer of the network.\<close>

definition reply_body :: "response option \<Rightarrow> string" where
  "reply_body a = (case a of None \<Rightarrow> [] | Some r \<Rightarrow> concat (resp_Chunks r))"

definition reply_headers :: "response option \<Rightarrow> (string, string) fmap" where
  "reply_headers a = (case a of None \<Rightarrow> fmempty | Some r \<Rightarrow> fmmap hd (removeHopByHopHeaders (resp_Header r)))"

definition decode_reply :: "env \<Rightarrow> response option \<Rightarrow> gie_error + (string, string) fmap \<times> go_map" where
  "decode_reply E a = (let (m, err) = unmarshal_map (reply_body a) (Some fmempty)
     in if err then Inl \<lparr>err_Code = BadRequest E, err_Msg = ''Error unmarshaling respone body''\<rparr>
        else Inr (reply_headers a, m))"

definition answer_ok :: "response option \<Rightarrow> bool" where
  "answer_ok a \<longleftrightarrow> (case a of None \<Rightarrow> True | Some r \<Rightarrow> \<not> resp_BodyErr r \<and> wire_header (resp_Header r))"

lemma SendRequest_eq:
  fixes E target o'
  defines "o1 \<equiv> targeted E target o'"
  assumes host: "url_host (TargetEndpoint (o_reqCtx o1)) = Some host"
    and len: "req_ContentLength (o_req o') \<noteq> 0"
    and ord: "orders_ok E"
    and ans: "answer_ok (answer E host o1)"
  shows "SendRequest E target o' =
    (Inr (decode_reply E (answer E host o1)), (after_send E host o1)\<lparr>o_tick := Suc (o_tick (after_send E host o1))\<rparr>)"
proof -
  have len1: "req_ContentLength (o_req o1) \<noteq> 0" using len by (simp add: o1_def)
  define W where "W = (\<lambda>a :: response option. case a of
      None \<Rightarrow> \<lparr>col_body = [], col_statusCode = StatusBadGateway, col_headers = fmempty\<rparr>
    | Some r \<Rightarrow> \<lparr>col_body = concat (resp_Chunks r), col_statusCode = resp_Status r,
                 col_headers = removeHopByHopHeaders (resp_Header r)\<rparr>)"
  have local: "go_local NewCollectingResponseWriter
      (reverse_proxy collecting_ops (\<lambda>i out. go_on_fst (standardRewrite E i out))
         (\<lambda>out. go_on_fst (round_trip E out)) (o_req o1)) o1 =
      (Inr ((), W (answer E host o1)), after_send E host o1)"
    using ans
    by (auto simp: go_local_def proxy_round_trip [OF host len1] collecting_send_response
        collecting_WriteHeader answer_ok_def W_def split: option.splits)
  have hdr: "go_foreach (collect_header (col_headers (W (answer E host o1))))
      (range_order E t (fmdom (col_headers (W (answer E host o1))))) fmempty =
      (Inr (), reply_headers (answer E host o1))" for t
  proof -
    have "wire_header (col_headers (W (answer E host o1)))"
      using ans removeHopByHopHeaders_wire wire_header_empty
      by (auto simp: W_def answer_ok_def split: option.splits)
    moreover have "fmmap hd (col_headers (W (answer E host o1))) = reply_headers (answer E host o1)"
      by (simp add: W_def reply_headers_def split: option.split)
    ultimately show ?thesis using ord by (simp add: orders_ok_def collect_headers)
  qed
  have bod: "col_body (W (answer E host o1)) = reply_body (answer E host o1)"
    by (simp add: W_def reply_body_def split: option.split)
  show ?thesis
    by (simp add: SendRequest_def commonSendRequest_eq [of E target o', folded o1_def] go_simps go_bind_def local
        next_tick_def hdr bod decode_reply_def split: prod.split)
qed

section \<open>Passing a response on to the client\<close>

text \<open>
  The headers of a response have canonical names, so the test for the lower-case name
  \<open>content-type\<close> never holds: the header handler only records the headers.
\<close>

lemma content_type_not_canonical: "CanonicalHeaderKey ''content-type'' \<noteq> ''content-type''"
  by code_simp

definition record_response :: "env \<Rightarrow> int \<Rightarrow> http_header \<Rightarrow> reqctx \<Rightarrow> reqctx" where
  "record_response E status h c =
     c\<lparr>ResponseStatusCode := (if status = StatusOK then ResponseStatusCode c else ModelServerError E),
       rc_RespHeaders := rc_RespHeaders c ++\<^sub>f fmmap hd h\<rparr>"

lemma copy_response_headers:
  assumes wire: "wire_header h" and ord: "is_order (fmdom h) ks"
  shows "go_foreach (copy_response_header h) ks o' =
    (Inr (), o'\<lparr>o_reqCtx := (o_reqCtx o')\<lparr>rc_RespHeaders := rc_RespHeaders (o_reqCtx o') ++\<^sub>f fmmap hd h\<rparr>\<rparr>)"
proof -
  have run: "go_foreach (copy_response_header h) ls o1 = (Inr (), o1\<lparr>o_reqCtx := (o_reqCtx o1)\<lparr>rc_RespHeaders :=
      fold (\<lambda>k. fmupd k (hd (header_values h k))) ls (rc_RespHeaders (o_reqCtx o1))\<rparr>\<rparr>)"
    if "set ls \<subseteq> fset (fmdom h)" for ls o1
    using that
  proof (induction ls arbitrary: o1)
    case (Cons k ls)
    then obtain vs where k: "fmlookup h k = Some vs" by (auto simp: fmlookup_dom_iff)
    with wire have "vs \<noteq> []" and c: "CanonicalHeaderKey k = k" by (auto simp: wire_header_def)
    then obtain v vs' where "vs = v # vs'" by (cases vs) auto
    moreover have "k \<noteq> ''content-type''" using c content_type_not_canonical by metis
    ultimately show ?case using Cons k by (simp add: copy_response_header_def header_values_def run_simps)
  qed (simp add: go_simps)
  note fold_header_values [OF ord]
  moreover have "set ks \<subseteq> fset (fmdom h)" using ord by (simp add: is_order_def)
  ultimately show ?thesis by (simp add: run)
qed

lemma header_handler_eq:
  assumes "wire_header h" and "orders_ok E"
  shows "standardResponseHeaderHandler E status h o' =
    (Inr (), o'\<lparr>o_reqCtx := fst (HandleResponseReceived (env_director E) (Suc (o_tick o'))
                              (record_response E status h (o_reqCtx o'))),
               o_tick := Suc (Suc (o_tick o'))\<rparr>)"
proof -
  have "is_order (fmdom h) (range_order E t (fmdom h))" for t using assms(2) by (simp add: orders_ok_def)
  then show ?thesis
    by (simp add: standardResponseHeaderHandler_def run_simps copy_response_headers [OF assms(1)]
        record_response_def split: prod.split)
qed

text \<open>What reaches the client's writer of a response that is passed on whole.\<close>

definition deliver :: "response \<Rightarrow> response_writer \<Rightarrow> response_writer" where
  "deliver r w = fold rw_Write (resp_Chunks r) (rw_WriteHeader (resp_Status r)
     (w\<lparr>rw_Header := copy_header (rw_Header w) (removeHopByHopHeaders (resp_Header r))\<rparr>))"

lemma rw_Write_fold:
  assumes "rw_Status w = Some c"
  shows "fold rw_Write cs w = w\<lparr>rw_Body := rw_Body w @ concat cs\<rparr>"
  using assms by (induction cs arbitrary: w) (simp_all add: rw_Write_def rw_WriteHeader_def)

lemma deliver_fresh:
  assumes "rw_Status w = None"
  shows "client_sees (deliver r w) = (resp_Status r, rw_Body w @ concat (resp_Chunks r))"
  using assms by (simp add: deliver_def rw_WriteHeader_def rw_Write_fold client_sees_def)

abbreviation tee_ops :: "env \<Rightarrow> (orch \<times> copying_rw) rw_ops" where
  "tee_ops E \<equiv> copying_ops (client_ops E) (standardResponseHeaderHandler E) (standardStreamingHandler E)"

text \<open>
  Both ends of the tee collect the body: the copy that is kept, and the client's writer as
  long as writing to it works.
\<close>

lemma tee_Write:
  "rwo_Write (tee_ops E) d (o', w) =
     (if isStreaming w then go_then (go_on_fst (standardStreamingHandler E d)) (go_on_fst (client_Write E d)) (o', w)
      else (case client_Write E d o' of (r, o2) \<Rightarrow> (r, (o2, w\<lparr>crw_body := crw_body w @ d\<rparr>))))"
  by (simp add: copying_ops_def CopyingResponseWriter_Write_def client_ops_def go_simps go_bind_def go_on_fst_def
      split: prod.split)

interpretation kept: body_collector "tee_ops E" "\<lambda>st. crw_body (snd st)" "\<lambda>st. \<not> isStreaming (snd st)" for E
  by unfold_locales (auto simp: tee_Write client_Write_def run_simps split: if_splits)

interpretation passed_on: body_collector "tee_ops E" "\<lambda>st. rw_Body (o_rw (fst st))"
    "\<lambda>st. \<not> isStreaming (snd st) \<and> (\<forall>t. \<not> client_write_fails E t)" for E
  by unfold_locales (auto simp: tee_Write client_Write_def run_simps rw_Write_def Let_def rw_WriteHeader_def
      split: if_splits option.splits)

lemma tee_copy:
  assumes "\<not> isStreaming w" and "\<forall>t. \<not> client_write_fails E t"
  shows "copy_chunks (tee_ops E) cs (o', w) =
    (Inr False, (o'\<lparr>o_rw := fold rw_Write cs (o_rw o'), o_tick := o_tick o' + length cs\<rparr>,
                 w\<lparr>crw_body := crw_body w @ concat cs\<rparr>))"
  using assms(1)
proof (induction cs arbitrary: o' w)
  case (Cons d cs)
  then show ?case using assms(2) by (simp add: go_bind_def tee_Write client_Write_def next_tick_def go_simps)
qed (simp add: go_simps)

text \<open>The state in which the end of a response is handled.\<close>

definition delivered :: "env \<Rightarrow> string \<Rightarrow> orch \<Rightarrow> response \<Rightarrow> orch" where
  "delivered E host o' r =
     (let o1 = after_send E host o'; w = deliver r (o_rw o') in
      o1\<lparr>o_rw := w,
         o_reqCtx := fst (HandleResponseReceived (env_director E) (Suc (o_tick o1))
                       (record_response E (resp_Status r) (rw_Header w) (o_reqCtx o1))),
         o_tick := Suc (Suc (o_tick o1)) + length (resp_Chunks r)\<rparr>)"

lemma rw_Header_kept [simp]:
  "rw_Header (rw_WriteHeader c w) = rw_Header w" "rw_Header (rw_Write d w) = rw_Header w"
  "rw_Header (fold rw_Write cs w) = rw_Header w"
proof -
  show a: "rw_Header (rw_WriteHeader c w) = rw_Header w" for c w
    by (simp add: rw_WriteHeader_def split: option.split)
  show b: "rw_Header (rw_Write d w) = rw_Header w" for d w by (simp add: rw_Write_def a Let_def)
  show "rw_Header (fold rw_Write cs w) = rw_Header w" by (induction cs arbitrary: w) (simp_all add: b)
qed

lemma tee_WriteHeader:
  assumes "wire_header (rw_Header (o_rw o'))" and "orders_ok E"
  shows "rwo_WriteHeader (tee_ops E) c (o', w) =
    (Inr (), (o'\<lparr>o_rw := rw_WriteHeader c (o_rw o'),
               o_reqCtx := fst (HandleResponseReceived (env_director E) (Suc (o_tick o'))
                              (record_response E c (rw_Header (o_rw o')) (o_reqCtx o'))),
               o_tick := Suc (Suc (o_tick o'))\<rparr>, w))"
  using assms
  by (simp add: copying_ops_def CopyingResponseWriter_WriteHeader_def client_ops_def go_simps go_bind_def go_on_fst_def
      client_WriteHeader_def header_handler_eq)

lemma tee_send_response:
  assumes "wire_header (rw_Header (o_rw o'))" and "orders_ok E" and "\<forall>t. \<not> client_write_fails E t"
    and "wire_header (resp_Header r)"
  shows "send_response (tee_ops E) r (o', NewCopyingResponseWriter) =
    (if resp_BodyErr r then Inl AbortHandler else Inr (),
     (o'\<lparr>o_rw := deliver r (o_rw o'),
        o_reqCtx := fst (HandleResponseReceived (env_director E) (Suc (o_tick o'))
                      (record_response E (resp_Status r) (rw_Header (deliver r (o_rw o'))) (o_reqCtx o'))),
        o_tick := Suc (Suc (o_tick o')) + length (resp_Chunks r)\<rparr>,
      \<lparr>crw_body = concat (resp_Chunks r), isStreaming = False\<rparr>))"
proof -
  let ?h = "copy_header (rw_Header (o_rw o')) (removeHopByHopHeaders (resp_Header r))"
  have w: "wire_header ?h" using assms(1,4) by (intro copy_header_wire removeHopByHopHeaders_wire)
  have s: "rwo_SetHeader (tee_ops E) (copy_header (rwo_Header (tee_ops E) (o', v)) g) (o', v) =
      (o'\<lparr>o_rw := (o_rw o')\<lparr>rw_Header := copy_header (rw_Header (o_rw o')) g\<rparr>\<rparr>, v)" for g v
    by (simp add: copying_ops_def client_ops_def CopyingResponseWriter_Header_def)
  have "rwo_WriteHeader (tee_ops E) (resp_Status r)
      (o'\<lparr>o_rw := (o_rw o')\<lparr>rw_Header := ?h\<rparr>\<rparr>, NewCopyingResponseWriter) =
      (Inr (), (o'\<lparr>o_rw := rw_WriteHeader (resp_Status r) ((o_rw o')\<lparr>rw_Header := ?h\<rparr>),
        o_reqCtx := fst (HandleResponseReceived (env_director E) (Suc (o_tick o'))
                      (record_response E (resp_Status r) ?h (o_reqCtx o'))),
        o_tick := Suc (Suc (o_tick o'))\<rparr>, NewCopyingResponseWriter))"
    by (subst tee_WriteHeader) (use w assms(2) in simp_all)
  then show ?thesis using assms(3)
    by (simp add: send_response_def go_simps go_bind_def s tee_copy deliver_def NewCopyingResponseWriter_def)
qed

lemma forward_to_client_eq:
  assumes host: "url_host (TargetEndpoint (o_reqCtx o')) = Some host"
    and len: "req_ContentLength (o_req o') \<noteq> 0"
    and ord: "orders_ok E"
    and ans: "answer E host o' = Some r"
    and wire: "wire_header (resp_Header r)" "wire_header (rw_Header (o_rw o'))"
    and writes: "\<forall>t. \<not> client_write_fails E t"
  shows "forward_to_client E o' =
    (if resp_BodyErr r then (Inl AbortHandler, delivered E host o' r)
     else handleEndOfResponse E (concat (resp_Chunks r)) (delivered E host o' r))"
proof -
  have t: "send_response (tee_ops E) r (after_send E host o', NewCopyingResponseWriter) =
    (if resp_BodyErr r then Inl AbortHandler else Inr (),
     (delivered E host o' r, \<lparr>crw_body = concat (resp_Chunks r), isStreaming = False\<rparr>))"
    by (subst tee_send_response) (use wire ord writes in \<open>simp_all add: delivered_def Let_def\<close>)
  show ?thesis
    by (simp add: forward_to_client_def go_simps go_bind_def go_local_def proxy_round_trip [OF host len] ans t
        CopyingResponseWriter_Body_def)
qed

text \<open>A model server that cannot be reached: the client gets a bad gateway.\<close>

lemma forward_to_client_unreachable:
  assumes host: "url_host (TargetEndpoint (o_reqCtx o')) = Some host"
    and len: "req_ContentLength (o_req o') \<noteq> 0"
    and ord: "orders_ok E"
    and ans: "answer E host o' = None"
    and wire: "wire_header (rw_Header (o_rw o'))"
  shows "\<exists>c t. forward_to_client E o' = handleEndOfResponse E []
     ((after_send E host o')\<lparr>o_rw := rw_WriteHeader StatusBadGateway (o_rw o'), o_reqCtx := c, o_tick := t\<rparr>)"
proof -
  have w: "wire_header (rw_Header (o_rw (after_send E host o')))" using wire by simp
  show ?thesis
    by (simp add: forward_to_client_def go_simps go_bind_def go_local_def proxy_round_trip [OF host len] ans
        tee_WriteHeader [OF w ord] CopyingResponseWriter_Body_def NewCopyingResponseWriter_def)
      (intro exI, rule refl)
qed

section \<open>What the end of a response leaves alone\<close>

lemma keeps_state [go_rules]:
  "(\<And>o' c. f (o'\<lparr>o_reqCtx := c\<rparr>) = f o') \<Longrightarrow> go_keeps f (upd_ctx g)"
  "go_keeps f (get_ctx h)"
  "(\<And>o' ms. f (o'\<lparr>o_metrics := ms\<rparr>) = f o') \<Longrightarrow> go_keeps f (record_metric m)"
  "(\<And>o' t. f (o'\<lparr>o_tick := t\<rparr>) = f o') \<Longrightarrow> go_keeps f next_tick"
  by (auto simp: state_defs go_keeps_def go_simps)

lemma keeps_call_director [go_rules]:
  assumes "\<And>o' c. f (o'\<lparr>o_reqCtx := c\<rparr>) = f o'" and "\<And>o' t. f (o'\<lparr>o_tick := t\<rparr>) = f o'"
  shows "go_keeps f (call_director d)"
  unfolding call_director_def using assms by (intro go_rules) auto

lemma end_of_response_keeps:
  assumes "\<And>o' c. f (o'\<lparr>o_reqCtx := c\<rparr>) = f o'" and "\<And>o' t. f (o'\<lparr>o_tick := t\<rparr>) = f o'"
    and "\<And>o' ms. f (o'\<lparr>o_metrics := ms\<rparr>) = f o'"
  shows "go_keeps f (handleEndOfResponse E body)"
  unfolding handleEndOfResponse_def HandleResponseBody_def set_complete_timestamp_def record_latencies_def
    record_token_metrics_def Let_def
  using assms by (intro go_rules | simp)+

lemma end_of_response_frame:
  "o_rw (snd (handleEndOfResponse E body o')) = o_rw o'"
  "o_sent (snd (handleEndOfResponse E body o')) = o_sent o'"
  "o_req (snd (handleEndOfResponse E body o')) = o_req o'"
  using end_of_response_keeps [of o_rw E body] end_of_response_keeps [of o_sent E body]
    end_of_response_keeps [of o_req E body]
  by (simp_all add: go_keeps_def)

section \<open>What sending a request leaves alone\<close>

lemma SendRequest_keeps:
  assumes "\<And>o' c. f (o'\<lparr>o_reqCtx := (o_reqCtx o')\<lparr>RequestSize := c\<rparr>\<rparr>) = f o'"
    and "\<And>o' a b. f (o'\<lparr>o_reqCtx := (o_reqCtx o')\<lparr>TargetPod := a, TargetEndpoint := b\<rparr>\<rparr>) = f o'"
    and "\<And>o' a b. f (o'\<lparr>o_reqCtx := (o_reqCtx o')\<lparr>rc_Headers := a, SchedulingRequest := b\<rparr>\<rparr>) = f o'"
    and "\<And>o' t. f (o'\<lparr>o_tick := t\<rparr>) = f o'" and "\<And>o' t. f (o'\<lparr>o_sent := t\<rparr>) = f o'"
    and "\<And>o' ms. f (o'\<lparr>o_metrics := ms\<rparr>) = f o'"
  shows "go_keeps f (SendRequest E target)"
proof -
  have u: "go_keeps f (updateOutgoingRequest E out)" for out
    unfolding updateOutgoingRequest_def upd_ctx_def get_ctx_def using assms by (intro go_rules) auto
  have rw: "go_keeps f (standardRewrite E i out)" for i out
    unfolding standardRewrite_def get_ctx_def by (intro go_rules u)
  have rt: "go_keeps f (round_trip E out)" for out
    unfolding round_trip_def using assms by (intro go_rules) auto
  have cs: "go_keeps f (commonSendRequest E target)"
    unfolding commonSendRequest_def Let_def upd_ctx_def using assms
    by (intro go_rules) (auto split: prod.split)
  show ?thesis
    unfolding SendRequest_def Let_def using assms
    by (intro go_rules cs collecting_proxy_keeps rw rt) auto
qed

lemma SendRequest_keeps_body: "go_keeps (\<lambda>o'. rc_Body (o_reqCtx o')) (SendRequest E target)"
  and SendRequest_keeps_client: "go_keeps o_rw (SendRequest E target)"
  by (rule SendRequest_keeps; simp)+

section \<open>A whole exchange with the client\<close>

text \<open>
  What the network promises: header names are canonical and never without a value, and a
  response body is read to its end.
\<close>

definition network_ok :: "env \<Rightarrow> bool" where
  "network_ok E \<longleftrightarrow> (\<forall>t out. answer_ok (RoundTrip E t out))"

text \<open>What the client's writer holds once the model server has answered.\<close>

definition client_result :: "response option \<Rightarrow> response_writer \<Rightarrow> response_writer" where
  "client_result a w = (case a of None \<Rightarrow> rw_WriteHeader StatusBadGateway w | Some r \<Rightarrow> deliver r w)"

text \<open>The conditions under which a worker can be talked to at all.\<close>

definition workable :: "env \<Rightarrow> orch \<Rightarrow> bool" where
  "workable E o' \<longleftrightarrow> orders_ok E \<and> network_ok E \<and> (\<forall>t. \<not> client_write_fails E t) \<and>
     req_ContentLength (o_req o') \<noteq> 0 \<and> wire_header (rw_Header (o_rw o'))"

lemma workableD:
  assumes "workable E o'"
  shows "orders_ok E" "network_ok E" "\<forall>t. \<not> client_write_fails E t" "req_ContentLength (o_req o') \<noteq> 0"
    "wire_header (rw_Header (o_rw o'))"
  using assms by (simp_all add: workable_def)

lemma workable_cong: "o_req o1 = o_req o' \<Longrightarrow> o_rw o1 = o_rw o' \<Longrightarrow> workable E o1 = workable E o'"
  by (simp add: workable_def)

lemma forward_run:
  assumes work: "workable E o'" and host: "url_host (TargetEndpoint (o_reqCtx o')) = Some host"
  shows "o_sent (snd (forward_to_client E o')) = o_sent o' @ [(sent_request E host o', answer E host o')]"
    and "o_rw (snd (forward_to_client E o')) = client_result (answer E host o') (o_rw o')"
proof -
  note w = workableD [OF work]
  have ok: "answer_ok (answer E host o')" using w(2) by (simp add: network_ok_def answer_def)
  note fwd = forward_to_client_eq [OF host w(4,1) _ _ w(5,3)] forward_to_client_unreachable [OF host w(4,1) _ w(5)]
  show "o_sent (snd (forward_to_client E o')) = o_sent o' @ [(sent_request E host o', answer E host o')]"
    using fwd ok
    by (cases "answer E host o'") (force simp: end_of_response_frame delivered_def answer_ok_def Let_def)+
  show "o_rw (snd (forward_to_client E o')) = client_result (answer E host o') (o_rw o')"
    using fwd ok unfolding client_result_def
    by (cases "answer E host o'") (force simp: end_of_response_frame delivered_def answer_ok_def Let_def)+
qed

end
