(* ===== verification/Example_Env.thy ===== *)
theory Example_Env
  imports Orchestration
begin

text \<open>
  A concrete environment with which the hypotheses of the theorems are shown to hold: a
  director that returns a given scheduling result, a network given as a function of the
  address, and loops that run in the order of the keys.
\<close>

definition example_director :: "(string list \<Rightarrow> string + scheduling_result) \<Rightarrow> director" where
  "example_director sched =
     \<lparr>HandleRequest = (\<lambda>t c. (c, None)),
      HandleRequestHelper = (\<lambda>t c names. (c, sched names)),
      RunPreRequestPlugins = (\<lambda>t hs sr res. (hs, sr)),
      HandleResponseReceived = (\<lambda>t c. (c, None)),
      HandleResponseBodyStreaming = (\<lambda>t c. (c, None)),
      HandleResponseBodyComplete = (\<lambda>t c. (c, None))\<rparr>"

definition example_env :: "(string list \<Rightarrow> string + scheduling_result) \<Rightarrow> (string \<Rightarrow> response option) \<Rightarrow> env" where
  "example_env sched network =
     \<lparr>env_director = example_director sched,
      NewUUID = (\<lambda>t. Inr ''uuid''), NewString = (\<lambda>t. ''generated''), time_Now = int,
      RoundTrip = (\<lambda>t out. network (out_URLHost out)),
      client_write_fails = (\<lambda>t. False),
      range_order = (\<lambda>t K. sorted_list_of_fset K),
      IsSystemOwnedHeader = (\<lambda>k. k = ''content-length''),
      ParseRespForUsage = (\<lambda>s. zero_usage),
      RequestIdHeaderKey = ''x-request-id'', FlowFairnessIDKey = ''x-gateway-inference-fairness-id'',
      ObjectiveKeyHeader = ''x-gateway-inference-objective'',
      ModelNameRewriteKey = ''x-gateway-model-name-rewrite'',
      StreamingEndMsg = ''data: [DONE]'', ModelServerError = ''ModelServerError'',
      BadRequest = ''BadRequest'', Error_text = err_Msg\<rparr>"

lemma example_env_simps [simp]:
  "orders_ok (example_env sched network)"
  "env_director (example_env sched network) = example_director sched"
  "NewUUID (example_env sched network) t = Inr ''uuid''"
  "\<not> client_write_fails (example_env sched network) t"
  "RoundTrip (example_env sched network) t out = network (out_URLHost out)"
  "HandleRequestHelper (example_director sched) t c names = (c, sched names)"
  by (simp_all add: example_env_def orders_ok_def example_director_def)

definition example_endpoint :: "string \<Rightarrow> endpoint" where
  "example_endpoint ip = \<lparr>ep_Metadata = \<lparr>md_NamespacedName = (''ns'', ip), md_PodName = ip, md_Address = ip,
     md_Port = ''8000'', md_Labels = fmempty\<rparr>, ep_Metrics = 0, ep_Attributes = None\<rparr>"

definition example_result :: "(string \<times> endpoint) list \<Rightarrow> scheduling_result" where
  "example_result es = \<lparr>ProfileResults = fmap_of_list (map (\<lambda>(n, e). (n, Some \<lparr>TargetEndpoints = [e]\<rparr>)) es),
     PrimaryProfileName = ''decode''\<rparr>"

definition example_response :: "int \<Rightarrow> string \<Rightarrow> response" where
  "example_response status text =
     \<lparr>resp_Status = status, resp_Header = fmupd ''Content-Type'' [''application/json''] fmempty,
      resp_Chunks = [text], resp_BodyErr = False\<rparr>"

lemma example_response_ok [simp]: "answer_ok (Some (example_response status text))"
proof -
  have "CanonicalHeaderKey ''Content-Type'' = ''Content-Type''" by code_simp
  then show ?thesis by (simp add: answer_ok_def example_response_def wire_header_def)
qed

definition example_request :: "http_header \<Rightarrow> string \<Rightarrow> http_request" where
  "example_request h body =
     \<lparr>req_Method = ''POST'', req_Scheme = '''', req_Path = ''/v1/completions'', req_Host = ''proxy'',
      req_Header = h, req_Body = (body, False), req_ContentLength = int (length body),
      req_RemoteIP = Some ''10.1.1.1'', req_TLS = False\<rparr>"

end
