(* ===== verification/Filters.thy ===== *)
theory Filters
  imports Gie
begin

text \<open>
  The endpoint filters (pkg/plugins/filter): filtering by the value of one label
  (by\_label.go), by a Kubernetes label selector (by\_label\_selector.go), and the prefill and
  decode role filters built from the first (pd\_role.go).
\<close>

section \<open>Plugin names\<close>

text \<open>
  What every plugin of the repository promises about its name: \<open>WithName\<close> replaces the
  name and keeps the type, and nothing else of the plugin changes.
\<close>

locale named_plugin =
  fixes TypedName :: "'p \<Rightarrow> typed_name"
    and WithName :: "string \<Rightarrow> 'p \<Rightarrow> 'p"
    and behaviour :: "'p \<Rightarrow> 'b"
  assumes name_set: "TypedName (WithName n p) = (TypedName p)\<lparr>tn_Name := n\<rparr>"
    and behaviour_kept: "behaviour (WithName n p) = behaviour p"
begin

lemma last_name_wins: "TypedName (WithName n (WithName m p)) = TypedName (WithName n p)"
  by (simp add: name_set)

lemma type_kept: "tn_Type (TypedName (WithName n p)) = tn_Type (TypedName p)"
  by (simp add: name_set)

lemma name_read: "tn_Name (TypedName (WithName n p)) = n"
  by (simp add: name_set)

end

text \<open>Why a plugin factory refuses its configuration; the string is the plugin type.\<close>

datatype config_error =
    ParseFailed string
  | EmptyName string
  | MissingLabel string
  | NoValidValues string
  | InvalidSelector string
  | InvalidThreshold int
  | InvalidHashBlockSize int
  | InvalidPrimaryPort int

section \<open>Filters as endpoint predicates\<close>

text \<open>
  The contract of a scheduling filter in this repository: it keeps exactly the endpoints
  that satisfy a predicate of their own, in the order given.
\<close>

locale endpoint_filter =
  fixes flt :: "endpoint list \<Rightarrow> endpoint list"
    and keeps :: "endpoint \<Rightarrow> bool"
  assumes flt_filter: "flt es = filter keeps es"
begin

lemma flt_mem: "e \<in> set (flt es) \<longleftrightarrow> e \<in> set es \<and> keeps e"
  by (auto simp: flt_filter)

lemma flt_idem: "flt (flt es) = flt es"
  by (simp add: flt_filter)

lemma flt_append: "flt (es @ fs) = flt es @ flt fs"
  by (simp add: flt_filter)

lemma flt_commute:
  assumes "endpoint_filter flt' keeps'"
  shows "flt (flt' es) = flt' (flt es)"
  using endpoint_filter.flt_filter [OF assms] by (simp add: flt_filter conj_commute)

end

section \<open>ByLabel\<close>

definition ByLabelType :: string where
  "ByLabelType = ''by-label''"

record byLabelParameters =
  blp_Label :: string
  blp_ValidValues :: "string list"
  blp_AllowsNoLabel :: bool

record ByLabel =
  bl_typedName :: typed_name
  bl_labelName :: string
  bl_validValues :: "string fset"
  bl_allowsNoLabel :: bool

definition NewByLabel :: "string \<Rightarrow> string \<Rightarrow> bool \<Rightarrow> string list \<Rightarrow> ByLabel" where
  "NewByLabel name labelName allowsNoLabel validValues =
     \<lparr>bl_typedName = \<lparr>tn_Type = ByLabelType, tn_Name = name\<rparr>, bl_labelName = labelName,
      bl_validValues = fold finsert validValues {||}, bl_allowsNoLabel = allowsNoLabel\<rparr>"

definition byLabel_fields :: "byLabelParameters field_decoder list" where
  "byLabel_fields =
     [(''label'', \<lambda>v p. map_option (\<lambda>s. p\<lparr>blp_Label := s\<rparr>) (json_string v)),
      (''validValues'', \<lambda>v p. map_option (\<lambda>ss. p\<lparr>blp_ValidValues := ss\<rparr>) (json_strings v)),
      (''allowsNoLabel'', \<lambda>v p. map_option (\<lambda>b. p\<lparr>blp_AllowsNoLabel := b\<rparr>) (json_bool v))]"

definition ByLabelFactory :: "string \<Rightarrow> string option \<Rightarrow> config_error + ByLabel" where
  "ByLabelFactory name rawParameters =
     (let parameters0 = \<lparr>blp_Label = '''', blp_ValidValues = [], blp_AllowsNoLabel = False\<rparr>
      in case (case rawParameters of None \<Rightarrow> Some parameters0
               | Some raw \<Rightarrow> unmarshal_struct byLabel_fields raw parameters0) of
           None \<Rightarrow> Inl (ParseFailed ByLabelType)
         | Some parameters \<Rightarrow>
             if name = '''' then Inl (EmptyName ByLabelType)
             else if blp_Label parameters = '''' then Inl (MissingLabel ByLabelType)
             else if length (blp_ValidValues parameters) = 0 \<and> \<not> blp_AllowsNoLabel parameters
             then Inl (NoValidValues ByLabelType)
             else Inr (NewByLabel name (blp_Label parameters) (blp_AllowsNoLabel parameters)
                         (blp_ValidValues parameters)))"

definition ByLabel_TypedName :: "ByLabel \<Rightarrow> typed_name" where
  "ByLabel_TypedName f = bl_typedName f"

definition ByLabel_WithName :: "string \<Rightarrow> ByLabel \<Rightarrow> ByLabel" where
  "ByLabel_WithName name f = f\<lparr>bl_typedName := (bl_typedName f)\<lparr>tn_Name := name\<rparr>\<rparr>"

text \<open>
  The loop of \<open>Filter\<close>.  A missing label reads as the empty string, so a filter whose
  valid values hold the empty string also keeps endpoints without the label.
\<close>

definition ByLabel_Filter :: "ByLabel \<Rightarrow> endpoint list \<Rightarrow> endpoint list" where
  "ByLabel_Filter f endpoints = foldl (\<lambda>filteredPods endpoint.
     (let look = fmlookup (md_Labels (ep_Metadata endpoint)) (bl_labelName f);
          val = (case look of None \<Rightarrow> '''' | Some v \<Rightarrow> v);
          labelDefined = (look \<noteq> None);
          valueExists = (val |\<in>| bl_validValues f)
      in if (\<not> labelDefined \<and> bl_allowsNoLabel f) \<or> valueExists
         then filteredPods @ [endpoint] else filteredPods)) [] endpoints"

definition ByLabel_keeps :: "ByLabel \<Rightarrow> endpoint \<Rightarrow> bool" where
  "ByLabel_keeps f e = (case fmlookup (md_Labels (ep_Metadata e)) (bl_labelName f) of
     None \<Rightarrow> bl_allowsNoLabel f \<or> '''' |\<in>| bl_validValues f
   | Some v \<Rightarrow> v |\<in>| bl_validValues f)"

lemma foldl_filter:
  "foldl (\<lambda>acc e. if P e then acc @ [e] else acc) acc es = acc @ filter P es"
  by (induction es arbitrary: acc) auto

lemma ByLabel_Filter_eq: "ByLabel_Filter f es = filter (ByLabel_keeps f) es"
proof -
  have "(\<lambda>acc e. let look = fmlookup (md_Labels (ep_Metadata e)) (bl_labelName f);
          val = (case look of None \<Rightarrow> '''' | Some v \<Rightarrow> v);
          labelDefined = (look \<noteq> None);
          valueExists = (val |\<in>| bl_validValues f)
      in if (\<not> labelDefined \<and> bl_allowsNoLabel f) \<or> valueExists then acc @ [e] else acc) =
    (\<lambda>acc e. if ByLabel_keeps f e then acc @ [e] else acc)"
    by (rule ext)+ (auto simp: ByLabel_keeps_def Let_def split: option.splits)
  then show ?thesis by (simp add: ByLabel_Filter_def foldl_filter)
qed

interpretation by_label: endpoint_filter "ByLabel_Filter f" "ByLabel_keeps f" for f
  by unfold_locales (rule ByLabel_Filter_eq)

interpretation by_label_name: named_plugin ByLabel_TypedName ByLabel_WithName
    "\<lambda>f. (bl_labelName f, bl_validValues f, bl_allowsNoLabel f)"
  by unfold_locales (simp_all add: ByLabel_TypedName_def ByLabel_WithName_def)

lemma fset_fold_finsert: "fset (fold finsert vs S) = set vs \<union> fset S"
  by (induction vs arbitrary: S) auto

section \<open>ByLabelSelector\<close>

text \<open>
  The selector comes from the Kubernetes apimachinery module: decoding its JSON form,
  turning it into a matcher and matching a label set are parameters.
\<close>

definition ByLabelSelectorType :: string where
  "ByLabelSelectorType = ''by-label-selector''"

record 'cs ByLabelSelector =
  bls_typedName :: typed_name
  bls_selector :: 'cs

definition NewByLabelSelector ::
  "('sel \<Rightarrow> 'cs option) \<Rightarrow> string \<Rightarrow> 'sel \<Rightarrow> config_error + 'cs ByLabelSelector" where
  "NewByLabelSelector LabelSelectorAsSelector name selector =
     (if name = '''' then Inl (EmptyName ByLabelSelectorType)
      else case LabelSelectorAsSelector selector of
        None \<Rightarrow> Inl (InvalidSelector ByLabelSelectorType)
      | Some labelSelector \<Rightarrow>
          Inr \<lparr>bls_typedName = \<lparr>tn_Type = ByLabelSelectorType, tn_Name = name\<rparr>,
               bls_selector = labelSelector\<rparr>)"

definition ByLabelSelectorFactory ::
  "('sel \<Rightarrow> 'cs option) \<Rightarrow> 'sel \<Rightarrow> (string \<Rightarrow> 'sel option) \<Rightarrow> string \<Rightarrow> string option \<Rightarrow>
   config_error + 'cs ByLabelSelector" where
  "ByLabelSelectorFactory LabelSelectorAsSelector empty_selector unmarshal_selector name rawParameters =
     (case (case rawParameters of None \<Rightarrow> Some empty_selector | Some raw \<Rightarrow> unmarshal_selector raw) of
        None \<Rightarrow> Inl (ParseFailed ByLabelSelectorType)
      | Some parameters \<Rightarrow> NewByLabelSelector LabelSelectorAsSelector name parameters)"

definition ByLabelSelector_TypedName :: "'cs ByLabelSelector \<Rightarrow> typed_name" where
  "ByLabelSelector_TypedName blf = bls_typedName blf"

definition ByLabelSelector_Filter ::
  "('cs \<Rightarrow> (string, string) fmap \<Rightarrow> bool) \<Rightarrow> 'cs ByLabelSelector \<Rightarrow> endpoint list \<Rightarrow> endpoint list" where
  "ByLabelSelector_Filter Matches blf endpoints = foldl (\<lambda>filtered endpoint.
     if Matches (bls_selector blf) (md_Labels (ep_Metadata endpoint))
     then filtered @ [endpoint] else filtered) [] endpoints"

interpretation by_selector: endpoint_filter "ByLabelSelector_Filter M blf"
    "\<lambda>e. M (bls_selector blf) (md_Labels (ep_Metadata e))" for M blf
  by unfold_locales (simp add: ByLabelSelector_Filter_def foldl_filter)

section \<open>The role filters\<close>

definition RoleLabel :: string where "RoleLabel = ''llm-d.ai/role''"
definition RolePrefill :: string where "RolePrefill = ''prefill''"
definition RoleDecode :: string where "RoleDecode = ''decode''"
definition RoleBoth :: string where "RoleBoth = ''both''"
definition DecodeRoleType :: string where "DecodeRoleType = ''decode-filter''"
definition PrefillRoleType :: string where "PrefillRoleType = ''prefill-filter''"

definition NewPrefillRole :: ByLabel where
  "NewPrefillRole = NewByLabel PrefillRoleType RoleLabel False [RolePrefill]"

definition PrefillRoleFactory :: "string \<Rightarrow> config_error + ByLabel" where
  "PrefillRoleFactory name = Inr (ByLabel_WithName name NewPrefillRole)"

definition NewDecodeRole :: ByLabel where
  "NewDecodeRole = NewByLabel DecodeRoleType RoleLabel True [RoleDecode, RoleBoth]"

definition DecodeRoleFactory :: "string \<Rightarrow> config_error + ByLabel" where
  "DecodeRoleFactory name = Inr (ByLabel_WithName name NewDecodeRole)"

lemmas role_defs = NewPrefillRole_def NewDecodeRole_def NewByLabel_def RoleLabel_def
  RolePrefill_def RoleDecode_def RoleBoth_def

definition role_of :: "endpoint \<Rightarrow> string option" where
  "role_of e = fmlookup (md_Labels (ep_Metadata e)) RoleLabel"

lemma prefill_keeps: "ByLabel_keeps NewPrefillRole e \<longleftrightarrow> role_of e = Some RolePrefill"
  by (auto simp: ByLabel_keeps_def role_defs role_of_def split: option.splits)

lemma decode_keeps:
  "ByLabel_keeps NewDecodeRole e \<longleftrightarrow> role_of e \<in> {None, Some RoleDecode, Some RoleBoth}"
  by (auto simp: ByLabel_keeps_def role_defs role_of_def split: option.splits)

lemma ByLabel_keeps_WithName: "ByLabel_keeps (ByLabel_WithName n f) e = ByLabel_keeps f e"
  by (simp add: ByLabel_keeps_def ByLabel_WithName_def split: option.split)

section \<open>Properties\<close>

text \<open>
  C21: the label filter keeps, in the order given, exactly the endpoints whose label has one of the valid values, and
  those without the label if that is allowed; an empty string among the valid values also
  admits endpoints without the label, even where that is not allowed.
\<close>

theorem by_label_filter:
  "ByLabel_Filter f es = filter (\<lambda>e. case fmlookup (md_Labels (ep_Metadata e)) (bl_labelName f) of
      None \<Rightarrow> bl_allowsNoLabel f \<or> '''' |\<in>| bl_validValues f
    | Some v \<Rightarrow> v |\<in>| bl_validValues f) es"
proof -
  have "ByLabel_keeps f = (\<lambda>e. case fmlookup (md_Labels (ep_Metadata e)) (bl_labelName f) of
      None \<Rightarrow> bl_allowsNoLabel f \<or> '''' |\<in>| bl_validValues f | Some v \<Rightarrow> v |\<in>| bl_validValues f)"
    by (rule ext) (auto simp: ByLabel_keeps_def split: option.splits)
  then show ?thesis by (simp add: by_label.flt_filter)
qed

text \<open>
  A label filter the factory returns has a name, a label and something it can keep: a valid value or
  permission for a missing label; its type is the one of label filters, its name the configured one.
\<close>

theorem by_label_factory:
  assumes "ByLabelFactory name raw = Inr f"
  shows "ByLabel_TypedName f = \<lparr>tn_Type = ByLabelType, tn_Name = name\<rparr> \<and> name \<noteq> '''' \<and> bl_labelName f \<noteq> '''' \<and>
    (bl_validValues f \<noteq> {||} \<or> bl_allowsNoLabel f)"
proof -
  have ne: "fold finsert vs S \<noteq> {||}" if "vs \<noteq> []" for vs :: "string list" and S
    using that fset_fold_finsert [of vs S] by (metis bot_fset.rep_eq set_empty sup_eq_bot_iff)
  show ?thesis
    using assms
    by (auto simp: ByLabelFactory_def NewByLabel_def ByLabel_TypedName_def Let_def ne split: option.splits if_splits)
qed

theorem by_label_factory_witness:
  "\<exists>f. ByLabelFactory ''f'' (Some (CHR ''{'' # quote ''label'' @ CHR '':'' # quote ''a'' @ CHR '','' # quote ''allowsNoLabel'' @ '':true}''))
     = Inr f \<and> bl_labelName f \<noteq> '''' \<and> (bl_validValues f \<noteq> {||} \<or> bl_allowsNoLabel f)"
proof -
  let ?t = "CHR ''{'' # quote ''label'' @ CHR '':'' # quote ''a'' @ CHR '','' # quote ''allowsNoLabel'' @ '':true}''"
  have p: "json_parse ?t = Some (JObj [(''label'', JStr ''a''), (''allowsNoLabel'', JBool True)])" by code_simp
  have s: "same_field ''label'' ''label''" "\<not> same_field ''label'' ''allowsNoLabel''"
    "\<not> same_field ''validValues'' ''allowsNoLabel''" "same_field ''allowsNoLabel'' ''allowsNoLabel''" by code_simp+
  obtain f where f: "ByLabelFactory ''f'' (Some ?t) = Inr f"
    by (simp add: ByLabelFactory_def unmarshal_struct_def p byLabel_fields_def s Let_def)
  show ?thesis using by_label_factory [OF f] f by blast
qed


text \<open>
  A worker with the role \<open>both\<close>, documented as one that can do prefill and decode, is never
  given prefill work: the prefill filter drops it wherever it is configured.
\<close>

theorem both_role_not_prefill:
  "PrefillRoleFactory name = Inr f \<Longrightarrow> role_of e = Some RoleBoth \<Longrightarrow> e \<notin> set (ByLabel_Filter f es)"
proof -
  assume f: "PrefillRoleFactory name = Inr f" and r: "role_of e = Some RoleBoth"
  have "ByLabel_keeps f e = ByLabel_keeps NewPrefillRole e"
    using f by (auto simp: PrefillRoleFactory_def ByLabel_keeps_WithName)
  then show ?thesis using r by (simp add: by_label.flt_mem prefill_keeps) (simp add: RolePrefill_def RoleBoth_def)
qed

definition both_endpoint :: endpoint where
  "both_endpoint = \<lparr>ep_Metadata = \<lparr>md_NamespacedName = (''ns'', ''b0''), md_PodName = ''b0'', md_Address = ''10.0.0.3'',
     md_Port = ''8000'', md_Labels = fmupd RoleLabel RoleBoth fmempty\<rparr>, ep_Metrics = 0, ep_Attributes = None\<rparr>"

theorem both_role_not_prefill_witness:
  "both_endpoint \<notin> set (ByLabel_Filter (ByLabel_WithName ''p'' NewPrefillRole) [both_endpoint])"
  by (rule both_role_not_prefill [of "''p''"]) (simp_all add: PrefillRoleFactory_def both_endpoint_def role_of_def)

end
