(* ===== verification/Metrics.thy ===== *)
theory Metrics
  imports Prelude
begin

text \<open>
  The P/D decision counter (pkg/metrics/metrics.go).  The Prometheus counter vector is a
  function from its two label values to a count; a label pair that was never used counts
  zero.
\<close>

definition SchedulerSubsystem :: string where
  "SchedulerSubsystem = ''llm_d_inference_scheduler''"

definition DecisionTypeDecodeOnly :: string where
  "DecisionTypeDecodeOnly = ''decode-only''"

definition DecisionTypePrefillDecode :: string where
  "DecisionTypePrefillDecode = ''prefill-decode''"

type_synonym counter_vec = "string \<times> string \<Rightarrow> nat"

definition new_counter_vec :: counter_vec where
  "new_counter_vec = (\<lambda>_. 0)"

definition RecordPDDecision :: "string \<Rightarrow> string \<Rightarrow> counter_vec \<Rightarrow> counter_vec" where
  "RecordPDDecision modelName decisionType c =
     (let modelName' = (if modelName = '''' then ''unknown'' else modelName)
      in c((modelName', decisionType) := Suc (c (modelName', decisionType))))"

text \<open>A run of decisions, oldest first.\<close>

definition RecordPDDecisions :: "(string \<times> string) list \<Rightarrow> counter_vec \<Rightarrow> counter_vec" where
  "RecordPDDecisions ds c = fold (\<lambda>(m, d). RecordPDDecision m d) ds c"

definition label_of :: "string \<times> string \<Rightarrow> string \<times> string" where
  "label_of d = (if fst d = '''' then ''unknown'' else fst d, snd d)"

lemma RecordPDDecision_apply:
  "RecordPDDecision m d c l = (if l = label_of (m, d) then Suc (c l) else c l)"
  by (simp add: RecordPDDecision_def label_of_def Let_def)

lemma RecordPDDecisions_count:
  "RecordPDDecisions ds c l = c l + length (filter (\<lambda>d. label_of d = l) ds)"
proof (induction ds arbitrary: c)
  case Nil
  show ?case by (simp add: RecordPDDecisions_def)
next
  case (Cons d ds)
  obtain m t where d: "d = (m, t)" by (cases d)
  have "RecordPDDecisions (d # ds) c l = RecordPDDecisions ds (RecordPDDecision m t c) l"
    by (simp add: RecordPDDecisions_def d)
  with Cons.IH show ?case by (auto simp: RecordPDDecision_apply d)
qed

text \<open>
  C38: after any sequence of recorded decisions, each label pair of the counter holds
  exactly the number of decisions recorded under it, where an empty model name counts
  under the label "unknown"; so no decision is lost or counted under another label, and
  no counter has an empty model label.
\<close>

theorem decision_counter_exact:
  "RecordPDDecisions ds new_counter_vec l =
     length (filter (\<lambda>(m, d). (if m = '''' then ''unknown'' else m, d) = l) ds)"
proof -
  have "(\<lambda>d. label_of d = l) = (\<lambda>(m, d). (if m = '''' then ''unknown'' else m, d) = l)"
    by (auto simp: label_of_def)
  then show ?thesis by (simp add: RecordPDDecisions_count new_counter_vec_def)
qed

end
