(* ===== verification/Profile_Handlers.thy ===== *)
theory Profile_Handlers
  imports Filters Metrics
begin

text \<open>
  The profile handlers (pkg/plugins/profile): the P/D handler, which decides per request
  whether the prefill profile runs beside the decode profile (pd\_profile\_handler.go), and
  the handler used together with an orchestration plugin (orchestration\_profile\_handler.go).
  Also the two header names of pkg/common.
\<close>

definition PrefillPodHeader :: string where
  "PrefillPodHeader = ''x-prefiller-host-port''"

definition DataParallelPodHeader :: string where
  "DataParallelPodHeader = ''x-data-parallel-host-port''"

section \<open>The orchestration profile handler\<close>

record OrchestrationProfileHandler =
  oph_typedName :: typed_name

definition OrchestrationProfileHandlerType :: string where
  "OrchestrationProfileHandlerType = ''orchestration-profile-handler''"

definition NewOrchestrationProfileHandler :: OrchestrationProfileHandler where
  "NewOrchestrationProfileHandler = \<lparr>oph_typedName = zero_typed_name\<rparr>"

definition OrchestrationProfileHandler_TypedName :: "OrchestrationProfileHandler \<Rightarrow> typed_name" where
  "OrchestrationProfileHandler_TypedName h = oph_typedName h"

definition OrchestrationProfileHandler_WithName ::
  "string \<Rightarrow> OrchestrationProfileHandler \<Rightarrow> OrchestrationProfileHandler" where
  "OrchestrationProfileHandler_WithName name h =
     h\<lparr>oph_typedName := (oph_typedName h)\<lparr>tn_Name := name\<rparr>\<rparr>"

definition OrchestrationProfileHandlerFactory :: "string \<Rightarrow> config_error + OrchestrationProfileHandler" where
  "OrchestrationProfileHandlerFactory name =
     Inr (OrchestrationProfileHandler_WithName name NewOrchestrationProfileHandler)"

definition OrchestrationProfileHandler_Pick ::
  "OrchestrationProfileHandler \<Rightarrow> (string, 'p) fmap \<Rightarrow> profile_results \<Rightarrow> (string, 'p option) fmap option" where
  "OrchestrationProfileHandler_Pick h profiles profileResults = None"

definition OrchestrationProfileHandler_ProcessResults ::
  "OrchestrationProfileHandler \<Rightarrow> profile_results \<Rightarrow> string + scheduling_result" where
  "OrchestrationProfileHandler_ProcessResults h profileResults =
     Inr \<lparr>ProfileResults = profileResults, PrimaryProfileName = ''''\<rparr>"

interpretation oph_name: named_plugin OrchestrationProfileHandler_TypedName
    OrchestrationProfileHandler_WithName "\<lambda>_. ()"
  by unfold_locales
    (simp_all add: OrchestrationProfileHandler_TypedName_def OrchestrationProfileHandler_WithName_def)

section \<open>The P/D profile handler\<close>

definition PdProfileHandlerType :: string where
  "PdProfileHandlerType = ''pd-profile-handler''"

definition defaultDecodeProfile :: string where "defaultDecodeProfile = ''decode''"
definition defaultPrefillProfile :: string where "defaultPrefillProfile = ''prefill''"
definition averageCharactersPerToken :: int where "averageCharactersPerToken = 4"

record pdProfileHandlerParameters =
  php_Threshold :: int
  php_DecodeProfile :: string
  php_PrefillProfile :: string
  php_PrefixPluginType :: string
  php_PrefixPluginName :: string
  php_HashBlockSize :: int
  php_PrimaryPort :: int

record PdProfileHandler =
  ph_typedName :: typed_name
  ph_prefixPluginTypedName :: typed_name
  ph_decodeProfile :: string
  ph_prefillProfile :: string
  ph_pdThreshold :: int
  ph_hashBlockSize :: int
  ph_primaryPort :: string

definition NewPdProfileHandler ::
  "string \<Rightarrow> string \<Rightarrow> string \<Rightarrow> string \<Rightarrow> int \<Rightarrow> int \<Rightarrow> int \<Rightarrow> PdProfileHandler" where
  "NewPdProfileHandler prefillProfile decodeProfile prefixPluginType prefixPluginName pdThreshold
     hashBlockSize primaryPort =
     \<lparr>ph_typedName = \<lparr>tn_Type = PdProfileHandlerType, tn_Name = ''''\<rparr>,
      ph_prefixPluginTypedName = \<lparr>tn_Type = prefixPluginType, tn_Name = prefixPluginName\<rparr>,
      ph_decodeProfile = decodeProfile, ph_prefillProfile = prefillProfile,
      ph_pdThreshold = pdThreshold, ph_hashBlockSize = hashBlockSize,
      ph_primaryPort = (if primaryPort \<noteq> 0 then itoa primaryPort else '''')\<rparr>"

definition PdProfileHandler_TypedName :: "PdProfileHandler \<Rightarrow> typed_name" where
  "PdProfileHandler_TypedName h = ph_typedName h"

definition PdProfileHandler_WithName :: "string \<Rightarrow> PdProfileHandler \<Rightarrow> PdProfileHandler" where
  "PdProfileHandler_WithName name h = h\<lparr>ph_typedName := (ph_typedName h)\<lparr>tn_Name := name\<rparr>\<rparr>"

interpretation pd_name: named_plugin PdProfileHandler_TypedName PdProfileHandler_WithName
    "\<lambda>h. (ph_prefixPluginTypedName h, ph_decodeProfile h, ph_prefillProfile h, ph_pdThreshold h,
          ph_hashBlockSize h, ph_primaryPort h)"
  by unfold_locales (simp_all add: PdProfileHandler_TypedName_def PdProfileHandler_WithName_def)

definition pdProfileHandler_fields :: "pdProfileHandlerParameters field_decoder list" where
  "pdProfileHandler_fields =
     [(''threshold'', \<lambda>v p. map_option (\<lambda>i. p\<lparr>php_Threshold := i\<rparr>) (json_int v)),
      (''decodeProfile'', \<lambda>v p. map_option (\<lambda>s. p\<lparr>php_DecodeProfile := s\<rparr>) (json_string v)),
      (''prefillProfile'', \<lambda>v p. map_option (\<lambda>s. p\<lparr>php_PrefillProfile := s\<rparr>) (json_string v)),
      (''prefixPluginType'', \<lambda>v p. map_option (\<lambda>s. p\<lparr>php_PrefixPluginType := s\<rparr>) (json_string v)),
      (''prefixPluginName'', \<lambda>v p. map_option (\<lambda>s. p\<lparr>php_PrefixPluginName := s\<rparr>) (json_string v)),
      (''hashBlockSize'', \<lambda>v p. map_option (\<lambda>i. p\<lparr>php_HashBlockSize := i\<rparr>) (json_int v)),
      (''primaryPort'', \<lambda>v p. map_option (\<lambda>i. p\<lparr>php_PrimaryPort := i\<rparr>) (json_int v))]"

text \<open>
  The factory.  The type of the prefix-cache plugin and its default block size in tokens
  are constants of the extension module.
\<close>

definition PdProfileHandlerFactory ::
  "string \<Rightarrow> int \<Rightarrow> string \<Rightarrow> string option \<Rightarrow> config_error + PdProfileHandler" where
  "PdProfileHandlerFactory PrefixCachePluginType DefaultBlockSizeTokens name rawParameters =
     (let parameters0 = \<lparr>php_Threshold = 0, php_DecodeProfile = defaultDecodeProfile,
            php_PrefillProfile = defaultPrefillProfile, php_PrefixPluginType = PrefixCachePluginType,
            php_PrefixPluginName = '''',
            php_HashBlockSize = DefaultBlockSizeTokens * averageCharactersPerToken,
            php_PrimaryPort = 0\<rparr>
      in case (case rawParameters of None \<Rightarrow> Some parameters0
               | Some raw \<Rightarrow> unmarshal_struct pdProfileHandler_fields raw parameters0) of
           None \<Rightarrow> Inl (ParseFailed PdProfileHandlerType)
         | Some p \<Rightarrow>
             let pluginName = (if php_PrefixPluginName p = '''' then php_PrefixPluginType p
                               else php_PrefixPluginName p)
             in if php_Threshold p < 0 then Inl (InvalidThreshold (php_Threshold p))
                else if php_HashBlockSize p \<le> 0 then Inl (InvalidHashBlockSize (php_HashBlockSize p))
                else if php_PrimaryPort p \<noteq> 0 \<and> (php_PrimaryPort p < 1 \<or> 65535 < php_PrimaryPort p)
                then Inl (InvalidPrimaryPort (php_PrimaryPort p))
                else Inr (PdProfileHandler_WithName name
                       (NewPdProfileHandler (php_PrefillProfile p) (php_DecodeProfile p)
                          (php_PrefixPluginType p) pluginName (php_Threshold p)
                          (php_HashBlockSize p) (php_PrimaryPort p))))"

text \<open>
  What \<open>Pick\<close> reads from the scheduling cycle: under the name of the prefix-cache plugin,
  the number of cached blocks per server (a server that is not listed has none).
\<close>

record cycle_state =
  ReadPrefixState :: "string \<Rightarrow> (string \<times> string \<Rightarrow> int option) option"
  TypedName_String :: "typed_name \<Rightarrow> string"

text \<open>\<open>None\<close> is the error of \<open>json.Marshal\<close>.\<close>

definition getUserInputBytes :: "llm_request \<Rightarrow> panic + string option" where
  "getUserInputBytes request = (case lr_Body request of
     None \<Rightarrow> Inl NilDeref
   | Some b \<Rightarrow>
       (case Completions b of
          Some prompt \<Rightarrow> Inr (Some prompt)
        | None \<Rightarrow>
            (case ChatCompletions b of
               None \<Rightarrow> Inl NilDeref
             | Some messages \<Rightarrow> Inr (json_marshal messages))))"

text \<open>The share of the prompt found in the prefix cache, from the number of hits.\<close>

definition hit_percentage :: "PdProfileHandler \<Rightarrow> int \<Rightarrow> int \<Rightarrow> float64" where
  "hit_percentage h cached len =
     (let hitPrefix = max (wrap64 (cached - 1)) 0
      in fdiv (float_of_int (wrap64 (hitPrefix * ph_hashBlockSize h))) (float_of_int len))"

definition hitPercentagePrefix ::
  "cycle_state \<Rightarrow> PdProfileHandler \<Rightarrow> profile_results \<Rightarrow> string \<Rightarrow> panic + float64" where
  "hitPercentagePrefix C h profileResults userInput =
     (case ReadPrefixState C (TypedName_String C (ph_prefixPluginTypedName h)) of
        None \<Rightarrow> Inr (Fin False 0)
      | Some servers \<Rightarrow>
          (case fmlookup profileResults (ph_decodeProfile h) of
             Some (Some r) \<Rightarrow>
               (case first (TargetEndpoints r) of
                  Inl p \<Rightarrow> Inl p
                | Inr e \<Rightarrow>
                    Inr (hit_percentage h
                      (case servers (md_NamespacedName (ep_Metadata e)) of None \<Rightarrow> 0 | Some n \<Rightarrow> n)
                      (int (length userInput))))
           | _ \<Rightarrow> Inl NilDeref))"

definition suffix_below_threshold :: "PdProfileHandler \<Rightarrow> float64 \<Rightarrow> int \<Rightarrow> bool" where
  "suffix_below_threshold h hitPercentage len =
     flt (fmul (fsub (Fin False 1) hitPercentage) (float_of_int len)) (float_of_int (ph_pdThreshold h))"

definition run_prefill ::
  "PdProfileHandler \<Rightarrow> llm_request \<Rightarrow> (string, 'p) fmap \<Rightarrow> (counter_vec, (string, 'p option) fmap option) go" where
  "run_prefill h request profiles =
     go_then (go_modify (RecordPDDecision (lr_TargetModel request) DecisionTypePrefillDecode))
       (go_return (Some (fmupd (ph_prefillProfile h) (fmlookup profiles (ph_prefillProfile h)) fmempty)))"

text \<open>
  \<open>Pick\<close>: the profiles to run next, a nil map as \<open>None\<close>; a profile that is not configured is
  a nil value of the map.
\<close>

definition PdProfileHandler_Pick ::
  "cycle_state \<Rightarrow> PdProfileHandler \<Rightarrow> llm_request \<Rightarrow> (string, 'p) fmap \<Rightarrow> profile_results \<Rightarrow>
   (counter_vec, (string, 'p option) fmap option) go" where
  "PdProfileHandler_Pick C h request profiles profileResults =
     (if fmlookup profileResults (ph_decodeProfile h) = None then
        go_return (Some (fmupd (ph_decodeProfile h) (fmlookup profiles (ph_decodeProfile h)) fmempty))
      else if fcard (fmdom profiles) = fcard (fmdom profileResults) \<or>
              fmlookup profileResults (ph_decodeProfile h) = Some None then
        go_return (Some fmempty)
      else if 0 < ph_pdThreshold h then
        go_bind (go_lift (getUserInputBytes request)) (\<lambda>input.
          case input of
            None \<Rightarrow> go_return None
          | Some userInput \<Rightarrow>
              go_bind (go_lift (hitPercentagePrefix C h profileResults userInput)) (\<lambda>hp.
                if suffix_below_threshold h hp (int (length userInput)) then
                  go_then (go_modify (RecordPDDecision (lr_TargetModel request) DecisionTypeDecodeOnly))
                    (go_return (Some fmempty))
                else run_prefill h request profiles))
      else run_prefill h request profiles)"

text \<open>
  \<open>ProcessResults\<close>, with the headers of the request as its state (the data-parallel branch
  writes one).
\<close>

definition with_port :: "string \<Rightarrow> endpoint \<Rightarrow> endpoint" where
  "with_port port target =
     NewEndpoint ((ep_Metadata target)\<lparr>md_Port := port\<rparr>) (ep_Metrics target) None"

definition PdProfileHandler_ProcessResults ::
  "PdProfileHandler \<Rightarrow> profile_results \<Rightarrow> ((string, string) fmap, string + scheduling_result) go" where
  "PdProfileHandler_ProcessResults h profileResults =
     (case fmlookup profileResults (ph_decodeProfile h) of
        Some (Some decodeRunResults) \<Rightarrow>
          go_bind
            (if ph_primaryPort h \<noteq> '''' then
               go_bind (go_lift (first (TargetEndpoints decodeRunResults))) (\<lambda>t.
               go_then (go_modify (fmupd DataParallelPodHeader
                          (JoinHostPort (md_Address (ep_Metadata t)) (md_Port (ep_Metadata t)))))
                 (go_return \<lparr>TargetEndpoints =
                    map (with_port (ph_primaryPort h)) (TargetEndpoints decodeRunResults)\<rparr>))
             else go_return decodeRunResults)
            (\<lambda>updated.
               let updatedResults = fmupd (ph_decodeProfile h) (Some updated) fmempty;
                   updatedResults' = (case fmlookup profileResults (ph_prefillProfile h) of
                      Some (Some prefillRunResult) \<Rightarrow>
                        fmupd (ph_prefillProfile h) (Some prefillRunResult) updatedResults
                    | _ \<Rightarrow> updatedResults)
               in go_return (Inr \<lparr>ProfileResults = updatedResults',
                                  PrimaryProfileName = ph_decodeProfile h\<rparr>))
      | _ \<Rightarrow> go_return (Inl ''failed to find available decode workers''))"

section \<open>The threshold decision\<close>

text \<open>
  The code compares floating-point numbers.  For prompts of up to \<open>2 ^ 50\<close> bytes the number it
  computes for the uncached suffix is less than one away from the exact integer.
\<close>

lemma uncached_error:
  fixes h len :: int
  assumes "0 \<le> h" and "h \<le> len" and "0 < len" and "len \<le> 2 ^ 50"
  defines "c \<equiv> fmul (fsub (Fin False 1) (fdiv (float_of_int h) (float_of_int len))) (float_of_int len)"
  shows "is_fin c" and "\<bar>fval c - of_int (len - h)\<bar> < 1"
proof -
  have small: "\<bar>h\<bar> < 2 ^ 53" "\<bar>len\<bar> < 2 ^ 53" using assms(1-4) by auto
  note fh = float_of_int_exact [OF small(1)] and fl = float_of_int_exact [OF small(2)]
  define l where "l = (of_int len :: rat)"
  define x where "x = of_int h / l"
  have "l \<le> of_int (2 ^ 50)" unfolding l_def using assms(4) by (simp only: of_int_le_iff)
  then have l: "0 < l" "l \<le> 2 ^ 50" using assms(3) by (simp_all add: l_def)
  have x: "0 \<le> x" "x \<le> 1" using assms(1-3) l by (auto simp: x_def l_def divide_le_eq)
  obtain s1 where q: "fdiv (float_of_int h) (float_of_int len) = to_float s1 x"
    using fin_ops(3) [OF fh(1) fl(1)] fh(2) fl(2) l by (auto simp: x_def l_def)
  define q where "q = to_float s1 x"
  have bx: "\<bar>x\<bar> \<le> 1" using x by simp
  have qf: "is_fin q" and qe: "\<bar>fval q - x\<bar> \<le> 1 / 2 ^ 53 + 1 / 2 ^ 54"
    using to_float_near [OF bx, of s1] unfolding q_def by simp_all
  obtain s2 where r: "fsub (Fin False 1) q = to_float s2 (1 - fval q)"
    using fin_ops(1) [OF _ qf, of "Fin False 1"] by auto
  define r where "r = to_float s2 (1 - fval q)"
  have "\<bar>fval q - x\<bar> \<le> 1" by (rule order_trans [OF qe]) simp
  then have br: "\<bar>1 - fval q\<bar> \<le> 2" using x by linarith
  have rf: "is_fin r" and re: "\<bar>fval r - (1 - fval q)\<bar> \<le> 2 / 2 ^ 53 + 1 / 2 ^ 54"
    using to_float_near [OF br, of s2] unfolding r_def by simp_all
  obtain s3 where m: "fmul r (float_of_int len) = to_float s3 (fval r * l)"
    using fin_ops(2) [OF rf fl(1)] fl(2) by (auto simp: l_def)
  have "\<bar>fval r - (1 - x)\<bar> \<le> \<bar>fval r - (1 - fval q)\<bar> + \<bar>fval q - x\<bar>" by linarith
  also have "\<dots> \<le> (2 / 2 ^ 53 + 1 / 2 ^ 54) + (1 / 2 ^ 53 + 1 / 2 ^ 54)" by (rule add_mono [OF re qe])
  finally have d: "\<bar>fval r - (1 - x)\<bar> \<le> 1 / 2 ^ 51" by simp
  have "\<bar>fval r - (1 - x)\<bar> \<le> 1" by (rule order_trans [OF d]) simp
  then have "\<bar>fval r\<bar> \<le> 2" using x by linarith
  then have "\<bar>fval r * l\<bar> \<le> 2 * 2 ^ 50" unfolding abs_mult using l by (intro mult_mono) auto
  then have bm: "\<bar>fval r * l\<bar> \<le> 2 ^ 51" by simp
  have c: "c = to_float s3 (fval r * l)" using q r m unfolding c_def q_def r_def by simp
  show "is_fin c" unfolding c by (rule to_float_near(1) [OF bm]) simp
  have ce: "\<bar>fval c - fval r * l\<bar> \<le> 2 ^ 51 / 2 ^ 53 + 1 / 2 ^ 54"
    using to_float_near(2) [OF bm, of s3] unfolding c by simp
  have "\<bar>fval r * l - (1 - x) * l\<bar> = \<bar>fval r - (1 - x)\<bar> * l"
    using l by (simp add: abs_mult left_diff_distrib [symmetric])
  also have "\<dots> \<le> 1 / 2 ^ 51 * 2 ^ 50" using d l by (intro mult_mono) auto
  finally have re2: "\<bar>fval r * l - (1 - x) * l\<bar> \<le> 1 / 2" by simp
  have "(1 - x) * l = of_int (len - h)" using l by (simp add: left_diff_distrib x_def) (simp add: l_def)
  moreover have "\<bar>fval c - fval r * l\<bar> \<le> 3 / 8" by (rule order_trans [OF ce]) simp
  ultimately show "\<bar>fval c - of_int (len - h)\<bar> < 1" using re2 by linarith
qed

text \<open>The number of prompt bytes the prefix cache of a server covers.\<close>

definition cached_bytes :: "PdProfileHandler \<Rightarrow> int \<Rightarrow> int" where
  "cached_bytes h cached = max (cached - 1) 0 * ph_hashBlockSize h"

lemma hit_percentage_eq:
  assumes "0 \<le> cached" and "cached < 2 ^ 63" and "0 \<le> ph_hashBlockSize h" and "cached_bytes h cached < 2 ^ 63"
  shows "hit_percentage h cached len = fdiv (float_of_int (cached_bytes h cached)) (float_of_int len)"
proof -
  have "wrap64 (cached - 1) = cached - 1" using assms(1,2) by (intro wrap64_id) (simp add: in_int64_def)
  moreover have "wrap64 (cached_bytes h cached) = cached_bytes h cached"
  proof (rule wrap64_id)
    have "0 \<le> cached_bytes h cached" using assms(3) by (simp add: cached_bytes_def)
    then show "in_int64 (cached_bytes h cached)" using assms(4) by (simp add: in_int64_def)
  qed
  ultimately show ?thesis by (simp add: hit_percentage_def cached_bytes_def Let_def)
qed

lemma suffix_decision:
  assumes "0 \<le> cached" and "cached < 2 ^ 63" and "0 \<le> ph_hashBlockSize h" and "cached_bytes h cached \<le> len"
    and "0 < len" and "len \<le> 2 ^ 50" and "0 \<le> ph_pdThreshold h" and "ph_pdThreshold h \<le> 2 ^ 50"
  shows "len - cached_bytes h cached < ph_pdThreshold h \<Longrightarrow> suffix_below_threshold h (hit_percentage h cached len) len"
    and "ph_pdThreshold h < len - cached_bytes h cached \<Longrightarrow> \<not> suffix_below_threshold h (hit_percentage h cached len) len"
proof -
  have nn: "0 \<le> cached_bytes h cached" using assms(3) by (simp add: cached_bytes_def)
  have hp: "hit_percentage h cached len = fdiv (float_of_int (cached_bytes h cached)) (float_of_int len)"
    using assms by (intro hit_percentage_eq) auto
  note err = uncached_error [OF nn assms(4-6)]
  have t: "\<bar>ph_pdThreshold h\<bar> < 2 ^ 53" using assms(7,8) by auto
  note ft = float_of_int_exact [OF t]
  have cmp: "suffix_below_threshold h (hit_percentage h cached len) len \<longleftrightarrow>
      fval (fmul (fsub (Fin False 1) (fdiv (float_of_int (cached_bytes h cached)) (float_of_int len))) (float_of_int len))
        < of_int (ph_pdThreshold h)"
    unfolding suffix_below_threshold_def hp using fin_ops(4) [OF err(1) ft(1)] ft(2) by simp
  show "suffix_below_threshold h (hit_percentage h cached len) len" if "len - cached_bytes h cached < ph_pdThreshold h"
  proof -
    have "(of_int (len - cached_bytes h cached) :: rat) \<le> of_int (ph_pdThreshold h - 1)"
      using that by (simp only: of_int_le_iff)
    then show ?thesis unfolding cmp using err(2) unfolding of_int_diff of_int_1 by linarith
  qed
  show "\<not> suffix_below_threshold h (hit_percentage h cached len) len" if "ph_pdThreshold h < len - cached_bytes h cached"
  proof -
    have "(of_int (ph_pdThreshold h + 1) :: rat) \<le> of_int (len - cached_bytes h cached)"
      using that by (simp only: of_int_le_iff)
    then show ?thesis unfolding cmp using err(2) unfolding of_int_add of_int_1 by linarith
  qed
qed

text \<open>What \<open>Pick\<close> does once the decode profile has run and something else is left to run.\<close>

lemma Pick_decides:
  assumes "fmlookup results (ph_decodeProfile h) = Some (Some r)" and "first (TargetEndpoints r) = Inr e"
    and "fcard (fmdom profiles) \<noteq> fcard (fmdom results)" and "0 < ph_pdThreshold h"
    and "getUserInputBytes request = Inr (Some input)"
  shows "PdProfileHandler_Pick C h request profiles results c =
    (let hp = (case ReadPrefixState C (TypedName_String C (ph_prefixPluginTypedName h)) of
                 None \<Rightarrow> Fin False 0
               | Some servers \<Rightarrow> hit_percentage h
                   (case servers (md_NamespacedName (ep_Metadata e)) of None \<Rightarrow> 0 | Some n \<Rightarrow> n) (int (length input)))
     in if suffix_below_threshold h hp (int (length input))
        then (Inr (Some fmempty), RecordPDDecision (lr_TargetModel request) DecisionTypeDecodeOnly c)
        else (Inr (Some (fmupd (ph_prefillProfile h) (fmlookup profiles (ph_prefillProfile h)) fmempty)),
              RecordPDDecision (lr_TargetModel request) DecisionTypePrefillDecode c))"
  using assms
  by (simp add: PdProfileHandler_Pick_def hitPercentagePrefix_def run_prefill_def go_simps go_bind_def Let_def
      split: option.split)

section \<open>Examples\<close>

definition example_handler :: "int \<Rightarrow> PdProfileHandler" where
  "example_handler threshold = NewPdProfileHandler ''prefill'' ''decode'' ''prefix'' ''prefix'' threshold 4 0"

definition example_cycle :: "int option \<Rightarrow> cycle_state" where
  "example_cycle cached = \<lparr>ReadPrefixState = (\<lambda>_. map_option (\<lambda>n _. Some n) cached), TypedName_String = tn_Name\<rparr>"

definition example_llm_request :: "string \<Rightarrow> llm_request" where
  "example_llm_request prompt = \<lparr>lr_RequestId = ''id'', lr_TargetModel = ''llama'',
     lr_Body = Some \<lparr>Completions = Some prompt, ChatCompletions = None\<rparr>, lr_Headers = fmempty\<rparr>"

definition example_decode_result :: profile_results where
  "example_decode_result = fmupd ''decode'' (Some \<lparr>TargetEndpoints = [\<lparr>ep_Metadata = \<lparr>md_NamespacedName = (''ns'', ''d0''),
     md_PodName = ''d0'', md_Address = ''10.0.0.2'', md_Port = ''8000'', md_Labels = fmempty\<rparr>, ep_Metrics = 0,
     ep_Attributes = None\<rparr>]\<rparr>) fmempty"

definition two_profiles :: "(string, nat) fmap" where
  "two_profiles = fmap_of_list [(''decode'', 0), (''prefill'', 1)]"

lemma example_simps [simp]:
  "ph_decodeProfile (example_handler t) = ''decode''" "ph_prefillProfile (example_handler t) = ''prefill''"
  "ph_pdThreshold (example_handler t) = t" "ph_hashBlockSize (example_handler t) = 4"
  "getUserInputBytes (example_llm_request prompt) = Inr (Some prompt)"
  "ReadPrefixState (example_cycle (Some n)) k = Some (\<lambda>_. Some n)" "ReadPrefixState (example_cycle None) k = None"
  "lr_TargetModel (example_llm_request prompt) = ''llama''"
  by (simp_all add: example_handler_def NewPdProfileHandler_def getUserInputBytes_def example_llm_request_def
      example_cycle_def)

lemma two_profiles_card: "fcard (fmdom two_profiles) \<noteq> fcard (fmdom example_decode_result)"
  by (simp add: two_profiles_def example_decode_result_def fcard_finsert_if)

lemma example_decode:
  "\<exists>r e. fmlookup example_decode_result ''decode'' = Some (Some r) \<and> first (TargetEndpoints r) = Inr e"
  by (simp add: example_decode_result_def)

section \<open>Properties\<close>

definition pd_handler_ok :: "PdProfileHandler \<Rightarrow> bool" where
  "pd_handler_ok h \<longleftrightarrow> 0 \<le> ph_pdThreshold h \<and> 0 < ph_hashBlockSize h \<and>
     (ph_primaryPort h = '''' \<or> (\<exists>p. 1 \<le> p \<and> p \<le> 65535 \<and> ph_primaryPort h = itoa p))"

lemma NewPdProfileHandler_ok:
  assumes "0 \<le> threshold" and "0 < block" and "port \<noteq> 0 \<Longrightarrow> 1 \<le> port \<and> port \<le> 65535"
  shows "pd_handler_ok (PdProfileHandler_WithName name (NewPdProfileHandler pp dp pt pn threshold block port)) \<and>
    PdProfileHandler_TypedName (PdProfileHandler_WithName name (NewPdProfileHandler pp dp pt pn threshold block port)) =
      \<lparr>tn_Type = PdProfileHandlerType, tn_Name = name\<rparr>"
proof -
  have "pd_handler_ok (PdProfileHandler_WithName name (NewPdProfileHandler pp dp pt pn threshold block port))"
    using assms by (cases "port = 0") (auto simp: pd_handler_ok_def PdProfileHandler_WithName_def NewPdProfileHandler_def)
  then show ?thesis
    by (simp add: pd_name.name_set) (simp add: PdProfileHandler_TypedName_def NewPdProfileHandler_def)
qed

text \<open>
  C19: a P/D profile handler the factory returns is always well formed: its threshold is not
  negative, its block size is positive, and its primary port is unset or the decimal form of a
  port number; and it carries its type and the name it was configured with.
\<close>

theorem pd_factory_ok:
  assumes "PdProfileHandlerFactory prefixType blockTokens name raw = Inr h"
  shows "pd_handler_ok h \<and> PdProfileHandler_TypedName h = \<lparr>tn_Type = PdProfileHandlerType, tn_Name = name\<rparr>"
  using assms
  by (auto simp: PdProfileHandlerFactory_def Let_def not_less not_le split: option.splits if_splits
      intro!: NewPdProfileHandler_ok [THEN conjunct1] NewPdProfileHandler_ok [THEN conjunct2])

theorem pd_factory_ok_witness:
  "\<exists>h. PdProfileHandlerFactory ''prefix'' 16 ''pd'' (Some (CHR ''{'' # quote ''threshold'' @ '':5}'')) = Inr h \<and>
     pd_handler_ok h \<and> ph_pdThreshold h = 5"
proof -
  have p: "json_parse (CHR ''{'' # quote ''threshold'' @ '':5}'') =
      Some (JObj [(''threshold'', JNum \<lparr>nl_neg = False, nl_int = ''5'', nl_frac = None, nl_exp = None\<rparr>)])"
    by code_simp
  have i: "json_int (JNum \<lparr>nl_neg = False, nl_int = ''5'', nl_frac = None, nl_exp = None\<rparr>) = Some 5" by code_simp
  have f: "same_field ''threshold'' ''threshold''" by (simp add: same_field_def)
  obtain h where h: "PdProfileHandlerFactory ''prefix'' 16 ''pd'' (Some (CHR ''{'' # quote ''threshold'' @ '':5}'')) = Inr h"
    and t: "ph_pdThreshold h = 5"
    by (simp add: PdProfileHandlerFactory_def unmarshal_struct_def p pdProfileHandler_fields_def f i Let_def
        averageCharactersPerToken_def del: json_int.simps)
      (simp add: PdProfileHandler_WithName_def NewPdProfileHandler_def)
  show ?thesis using pd_factory_ok [OF h] h t by simp
qed

text \<open>
  C8: the decision between decode only and prefill first is the intended one.  With the uncached
  suffix the prompt length less the bytes the prefix cache of the chosen decode server covers,
  a suffix below the threshold runs no prefill and a suffix above it does, and the decision is counted under
  the model of the request; the floating-point arithmetic cannot turn it around for
  prompts of up to \<open>2 ^ 50\<close> bytes.
\<close>

theorem threshold_decision:
  fixes h :: PdProfileHandler and input :: string and cached :: int
  defines "suffix \<equiv> int (length input) - cached_bytes h cached"
  assumes "fmlookup results (ph_decodeProfile h) = Some (Some r)" and "first (TargetEndpoints r) = Inr e"
    and "fcard (fmdom profiles) \<noteq> fcard (fmdom results)" and "getUserInputBytes request = Inr (Some input)"
    and "ReadPrefixState C (TypedName_String C (ph_prefixPluginTypedName h)) = Some servers"
    and "cached = (case servers (md_NamespacedName (ep_Metadata e)) of None \<Rightarrow> 0 | Some n \<Rightarrow> n)"
    and "0 \<le> cached" and "cached < 2 ^ 63" and "0 < ph_hashBlockSize h"
    and "0 < ph_pdThreshold h" and "ph_pdThreshold h \<le> 2 ^ 50"
    and "input \<noteq> ''''" and "int (length input) \<le> 2 ^ 50" and "0 \<le> suffix"
  shows "(suffix < ph_pdThreshold h \<longrightarrow> PdProfileHandler_Pick C h request profiles results c =
      (Inr (Some fmempty), RecordPDDecision (lr_TargetModel request) DecisionTypeDecodeOnly c)) \<and>
    (ph_pdThreshold h < suffix \<longrightarrow> PdProfileHandler_Pick C h request profiles results c =
      (Inr (Some (fmupd (ph_prefillProfile h) (fmlookup profiles (ph_prefillProfile h)) fmempty)),
       RecordPDDecision (lr_TargetModel request) DecisionTypePrefillDecode c))"
proof -
  have len: "0 < int (length input)" "cached_bytes h cached \<le> int (length input)"
    using assms(13,15) by (simp_all add: suffix_def)
  note dec = suffix_decision [OF assms(8,9) _ len(2,1) assms(14) _ assms(12)]
  show ?thesis
    unfolding Pick_decides [OF assms(2,3,4,11,5)] assms(6)
    using dec assms(10,11) by (simp add: suffix_def assms(7) [symmetric])
qed

theorem threshold_decision_witness:
  "PdProfileHandler_Pick (example_cycle (Some 3)) (example_handler 5) (example_llm_request ''abcdefgh'') two_profiles
     example_decode_result new_counter_vec = (Inr (Some fmempty), RecordPDDecision ''llama'' ''decode-only'' new_counter_vec)"
proof -
  obtain r e where re: "fmlookup example_decode_result ''decode'' = Some (Some r)" "first (TargetEndpoints r) = Inr e"
    using example_decode by blast
  show ?thesis
    using threshold_decision [of example_decode_result "example_handler 5" r e two_profiles "example_llm_request ''abcdefgh''"
        "''abcdefgh''" "example_cycle (Some 3)" "\<lambda>_. Some 3" 3 new_counter_vec] re two_profiles_card
    by (simp add: cached_bytes_def DecisionTypeDecodeOnly_def)
qed

text \<open>
  When the prefix-cache state cannot be read, the decision is exact: no prefill runs precisely
  if the whole prompt is shorter than the threshold.
\<close>

theorem threshold_decision_without_cache:
  assumes "fmlookup results (ph_decodeProfile h) = Some (Some r)" and "first (TargetEndpoints r) = Inr e"
    and "fcard (fmdom profiles) \<noteq> fcard (fmdom results)" and "getUserInputBytes request = Inr (Some input)"
    and "ReadPrefixState C (TypedName_String C (ph_prefixPluginTypedName h)) = None"
    and "0 < ph_pdThreshold h" and "ph_pdThreshold h < 2 ^ 53" and "int (length input) < 2 ^ 53"
  shows "fst (PdProfileHandler_Pick C h request profiles results c) =
    Inr (Some (if int (length input) < ph_pdThreshold h then fmempty
               else fmupd (ph_prefillProfile h) (fmlookup profiles (ph_prefillProfile h)) fmempty))"
proof -
  have one: "fsub (Fin False 1) (Fin False 0) = Fin False 1"
    using to_float_int [of 1 False] by (simp add: fsub_def)
  have l: "\<bar>int (length input)\<bar> < 2 ^ 53" using assms(8) by simp
  have t: "\<bar>ph_pdThreshold h\<bar> < 2 ^ 53" using assms(6,7) by simp
  note fl = float_of_int_exact [OF l] and ft = float_of_int_exact [OF t]
  obtain s where "fmul (Fin False 1) (float_of_int (int (length input))) = to_float s (of_int (int (length input)))"
    using fin_ops(2) [of "Fin False 1", OF _ fl(1)] fl(2) by auto
  then have m: "is_fin (fmul (Fin False 1) (float_of_int (int (length input))))"
    "fval (fmul (Fin False 1) (float_of_int (int (length input)))) = of_int (int (length input))"
    using to_float_int [OF l, of s] by (auto split: if_splits)
  have "suffix_below_threshold h (Fin False 0) (int (length input)) \<longleftrightarrow> int (length input) < ph_pdThreshold h"
    unfolding suffix_below_threshold_def one
    using fin_ops(4) [OF m(1) ft(1)] unfolding m(2) ft(2) by (simp only: of_int_less_iff)
  then show ?thesis unfolding Pick_decides [OF assms(1-3,6,4)] assms(5) by simp
qed

theorem threshold_decision_without_cache_witness:
  "fst (PdProfileHandler_Pick (example_cycle None) (example_handler 5) (example_llm_request ''abcdefgh'') two_profiles
     example_decode_result new_counter_vec) = Inr (Some (fmupd ''prefill'' (Some 1) fmempty))"
proof -
  obtain r e where re: "fmlookup example_decode_result ''decode'' = Some (Some r)" "first (TargetEndpoints r) = Inr e"
    using example_decode by blast
  show ?thesis
    using threshold_decision_without_cache [of example_decode_result "example_handler 5" r e two_profiles
        "example_llm_request ''abcdefgh''" "''abcdefgh''" "example_cycle None" new_counter_vec] re two_profiles_card
    by (simp add: two_profiles_def)
qed


text \<open>
  C35: an empty prompt always runs the prefill profile when the prefix state can be read and holds no block
  beyond the model name: the share of the prompt that is cached is then zero divided by zero, which
  is not below any threshold.
\<close>

theorem empty_prompt_prefills:
  assumes "fmlookup results (ph_decodeProfile h) = Some (Some r)" and "first (TargetEndpoints r) = Inr e"
    and "fcard (fmdom profiles) \<noteq> fcard (fmdom results)" and "getUserInputBytes request = Inr (Some '''')"
    and "ReadPrefixState C (TypedName_String C (ph_prefixPluginTypedName h)) = Some servers"
    and "servers (md_NamespacedName (ep_Metadata e)) \<in> {None, Some 0, Some 1}"
    and "0 < ph_pdThreshold h"
  shows "fst (PdProfileHandler_Pick C h request profiles results c) =
    Inr (Some (fmupd (ph_prefillProfile h) (fmlookup profiles (ph_prefillProfile h)) fmempty))"
proof -
  have z: "float_of_int 0 = Fin False 0" by (simp add: float_of_int_def to_float_def)
  have "hit_percentage h n 0 = NaN" if "n \<in> {0, 1}" for n
    using that z by (auto simp: hit_percentage_def wrap64_def)
  then have "hit_percentage h (case servers (md_NamespacedName (ep_Metadata e)) of None \<Rightarrow> 0 | Some n \<Rightarrow> n) 0 = NaN"
    using assms(6) by auto
  then show ?thesis
    unfolding Pick_decides [OF assms(1-3,7,4)] assms(5) by (simp add: suffix_below_threshold_def fsub_def)
qed

theorem empty_prompt_prefills_witness:
  "fst (PdProfileHandler_Pick (example_cycle (Some 1)) (example_handler 100) (example_llm_request '''') two_profiles
     example_decode_result new_counter_vec) = Inr (Some (fmupd ''prefill'' (Some 1) fmempty))"
proof -
  obtain r e where re: "fmlookup example_decode_result ''decode'' = Some (Some r)" "first (TargetEndpoints r) = Inr e"
    using example_decode by blast
  show ?thesis
    using empty_prompt_prefills [of example_decode_result "example_handler 100" r e two_profiles
        "example_llm_request ''''" "example_cycle (Some 1)" "\<lambda>_. Some 1" new_counter_vec] re two_profiles_card
    by (simp add: two_profiles_def)
qed

section \<open>The rounds of a scheduling run\<close>

text \<open>
  The scheduler of the extension module calls \<open>Pick\<close> until it returns no profile, runs what was
  picked and enters a result, nil for a failed run, for each.  A round is one such step;
  what the runs return is left open.
\<close>

inductive pick_round ::
  "cycle_state \<Rightarrow> PdProfileHandler \<Rightarrow> llm_request \<Rightarrow> (string, 'p) fmap \<Rightarrow>
   profile_results \<times> counter_vec \<Rightarrow> profile_results \<times> counter_vec \<Rightarrow> bool"
  for C h request profiles where
  "PdProfileHandler_Pick C h request profiles results c = (Inr (Some picked), c') \<Longrightarrow> picked \<noteq> fmempty \<Longrightarrow>
   fmdom results' = fmdom results |\<union>| fmdom picked \<Longrightarrow>
   (\<forall>k. k |\<notin>| fmdom picked \<longrightarrow> fmlookup results' k = fmlookup results k) \<Longrightarrow>
   pick_round C h request profiles (results, c) (results', c')"

inductive_cases pick_roundE: "pick_round C h request profiles s t"

lemma Pick_first:
  "ph_decodeProfile h |\<notin>| fmdom results \<Longrightarrow> PdProfileHandler_Pick C h request profiles results c =
     (Inr (Some (fmupd (ph_decodeProfile h) (fmlookup profiles (ph_decodeProfile h)) fmempty)), c)"
  by (simp add: PdProfileHandler_Pick_def fmdom_notD go_simps)

lemma Pick_done:
  "ph_decodeProfile h |\<in>| fmdom results \<Longrightarrow> fcard (fmdom profiles) = fcard (fmdom results) \<Longrightarrow>
   PdProfileHandler_Pick C h request profiles results c = (Inr (Some fmempty), c)"
  by (auto simp: PdProfileHandler_Pick_def go_simps fmlookup_dom_iff)

text \<open>Once the decode profile has run, at most the prefill profile is picked.\<close>

lemma Pick_second:
  assumes "ph_decodeProfile h |\<in>| fmdom results"
    and "PdProfileHandler_Pick C h request profiles results c = (Inr (Some picked), c')" and "picked \<noteq> fmempty"
  shows "fmdom picked = {|ph_prefillProfile h|}"
  using assms
  by (auto simp: PdProfileHandler_Pick_def go_simps go_bind_def run_prefill_def fmlookup_dom_iff
      split: if_splits option.splits sum.splits prod.splits)

definition pd_profiles :: "PdProfileHandler \<Rightarrow> (string, 'p) fmap \<Rightarrow> bool" where
  "pd_profiles h profiles \<longleftrightarrow> fmdom profiles = {|ph_decodeProfile h, ph_prefillProfile h|} \<and>
     ph_decodeProfile h \<noteq> ph_prefillProfile h"

lemma round_progress:
  assumes two: "pd_profiles h profiles" and step: "pick_round C h request profiles (results, c) (results', c')"
    and inv: "fmdom results \<in> {{||}, {|ph_decodeProfile h|}, {|ph_decodeProfile h, ph_prefillProfile h|}}"
  shows "fmdom results' \<in> {{|ph_decodeProfile h|}, {|ph_decodeProfile h, ph_prefillProfile h|}} \<and>
    fcard (fmdom results') = Suc (fcard (fmdom results))"
proof -
  let ?d = "ph_decodeProfile h" and ?p = "ph_prefillProfile h"
  have ne: "?d \<noteq> ?p" and card: "fcard (fmdom profiles) = 2" using two by (auto simp: pd_profiles_def fcard_finsert_if)
  from step obtain picked where pick: "PdProfileHandler_Pick C h request profiles results c = (Inr (Some picked), c')"
    and some: "picked \<noteq> fmempty" and dom: "fmdom results' = fmdom results |\<union>| fmdom picked"
    by (rule pick_roundE) auto
  from inv consider "fmdom results = {||}" | "fmdom results = {|?d|}" | "fmdom results = {|?d, ?p|}" by auto
  then show ?thesis
  proof cases
    case 1
    then have "fmdom picked = {|?d|}" using pick by (auto simp: Pick_first)
    then show ?thesis using dom 1 by (simp add: fcard_finsert_if)
  next
    case 2
    then have "fmdom picked = {|?p|}" using Pick_second [OF _ pick some] by simp
    then show ?thesis using dom 2 ne by (auto simp: fcard_finsert_if)
  next
    case 3
    then have "picked = fmempty" using pick card ne by (auto simp: Pick_done fcard_finsert_if)
    then show ?thesis using some by simp
  qed
qed

lemma rounds_run:
  assumes "pd_profiles h profiles" and "(pick_round C h request profiles ^^ n) (fmempty, c) (results, c')"
  shows "fmdom results \<in> {{||}, {|ph_decodeProfile h|}, {|ph_decodeProfile h, ph_prefillProfile h|}} \<and>
    fcard (fmdom results) = n"
  using assms(2)
proof (induction n arbitrary: results c')
  case 0
  then show ?case by simp
next
  case (Suc n)
  then obtain r1 c1 where "(pick_round C h request profiles ^^ n) (fmempty, c) (r1, c1)"
    and st: "pick_round C h request profiles (r1, c1) (results, c')" by auto
  with Suc.IH have "fmdom r1 \<in> {{||}, {|ph_decodeProfile h|}, {|ph_decodeProfile h, ph_prefillProfile h|}}" "fcard (fmdom r1) = n"
    by blast+
  with round_progress [OF assms(1) st] show ?case by auto
qed

lemma rounds_at_most_two:
  assumes "pd_profiles h profiles" and "(pick_round C h request profiles ^^ n) (fmempty, c) (results, c')"
  shows "n \<le> 2"
proof -
  have ne: "ph_decodeProfile h \<noteq> ph_prefillProfile h" using assms(1) by (simp add: pd_profiles_def)
  from rounds_run [OF assms] consider "fcard (fmdom results) = n" "fmdom results = {||}"
    | "fcard (fmdom results) = n" "fmdom results = {|ph_decodeProfile h|}"
    | "fcard (fmdom results) = n" "fmdom results = {|ph_decodeProfile h, ph_prefillProfile h|}" by blast
  then show ?thesis using ne by cases (simp_all add: fcard_finsert_if)
qed

text \<open>
  C12: with a decode and a prefill profile configured, a scheduling run takes at most two rounds, whatever
  the runs return: the first runs the decode profile, the second, if there is one, the prefill profile.
\<close>

theorem rounds_bounded:
  assumes "pd_profiles h profiles" and "(pick_round C h request profiles ^^ n) (fmempty, c) (results, c')"
  shows "n \<le> 2 \<and> fcard (fmdom results) = n \<and> (n = 1 \<longrightarrow> fmdom results = {|ph_decodeProfile h|})"
proof -
  note run = rounds_run [OF assms]
  have ne: "ph_decodeProfile h \<noteq> ph_prefillProfile h" using assms(1) by (simp add: pd_profiles_def)
  from run consider "fmdom results = {||}" | "fmdom results = {|ph_decodeProfile h|}"
    | "fmdom results = {|ph_decodeProfile h, ph_prefillProfile h|}" by blast
  then show ?thesis using run ne by cases (simp_all add: fcard_finsert_if)
qed

lemma example_pd_profiles: "pd_profiles (example_handler t) two_profiles"
  by (simp add: pd_profiles_def two_profiles_def)

lemma example_round:
  "pick_round C (example_handler t) request two_profiles (fmempty, c) (fmupd ''decode'' x fmempty, c)"
  by (rule pick_round.intros [where picked = "fmupd ''decode'' (fmlookup two_profiles ''decode'') fmempty"])
    (simp_all add: Pick_first)

theorem rounds_bounded_witness:
  "fcard (fmdom (fmupd ''decode'' (None :: profile_run_result option) fmempty)) = 1 \<and>
   (pick_round (example_cycle None) (example_handler 5) (example_llm_request ''abc'') two_profiles ^^ 1)
     (fmempty, new_counter_vec) (fmupd ''decode'' None fmempty, new_counter_vec)"
proof -
  have r: "(pick_round (example_cycle None) (example_handler 5) (example_llm_request ''abc'') two_profiles ^^ 1)
     (fmempty, new_counter_vec) (fmupd ''decode'' None fmempty, new_counter_vec)"
    using example_round by (simp add: relcompp_apply)
  show ?thesis using rounds_bounded [OF example_pd_profiles r] r by simp
qed

text \<open>What one call of \<open>Pick\<close> does to the counter, given what it picks after the decode run.\<close>

lemma Pick_records:
  assumes "fmlookup results (ph_decodeProfile h) = Some x" and "fcard (fmdom results) < fcard (fmdom profiles)"
    and "PdProfileHandler_Pick C h request profiles results c = (Inr (Some picked), c')"
  shows "c' = (case x of None \<Rightarrow> c
    | Some r \<Rightarrow> RecordPDDecision (lr_TargetModel request)
        (if picked = fmempty then DecisionTypeDecodeOnly else DecisionTypePrefillDecode) c)"
    and "picked \<noteq> fmempty \<Longrightarrow> x \<noteq> None"
proof -
  have "fcard (fmdom profiles) \<noteq> fcard (fmdom results)" using assms(2) by simp
  with assms(1,3) show "c' = (case x of None \<Rightarrow> c
    | Some r \<Rightarrow> RecordPDDecision (lr_TargetModel request)
        (if picked = fmempty then DecisionTypeDecodeOnly else DecisionTypePrefillDecode) c)"
    and "picked \<noteq> fmempty \<Longrightarrow> x \<noteq> None"
    by (cases x; auto simp: PdProfileHandler_Pick_def run_prefill_def go_simps go_bind_def
        split: if_splits option.splits sum.splits)+
qed





section \<open>ProcessResults\<close>



text \<open>
  Without a successful decode run there is no result: the error is returned and no header is written.
\<close>

theorem process_results_error:
  assumes "fmlookup results (ph_decodeProfile h) \<in> {None, Some None}"
  shows "PdProfileHandler_ProcessResults h results hs = (Inr (Inl ''failed to find available decode workers''), hs)"
  using assms by (auto simp: PdProfileHandler_ProcessResults_def go_simps)

theorem process_results_error_witness:
  "PdProfileHandler_ProcessResults (example_handler 5) fmempty fmempty =
     (Inr (Inl ''failed to find available decode workers''), fmempty)"
  by (rule process_results_error) simp

end
