(* ===== verification/PD_Orchestration.thy ===== *)
theory PD_Orchestration
  imports Example_Env Profile_Handlers
begin

text \<open>
  The P/D orchestration plugin (pkg/plugins/orchestration/pd\_orchestration.go): the request
  first goes to a prefill worker with its streaming and token limits replaced, then, with
  these restored and the worker's transfer parameters added, to a decode worker.
\<close>

definition PdOrchestrationType :: string where "PdOrchestrationType = ''pd-orchestration''"

definition requestHeaderRequestID :: string where "requestHeaderRequestID = ''x-request-id''"
definition requestFieldKVTransferParams :: string where
  "requestFieldKVTransferParams = ''kv_transfer_params''"
definition requestFieldMaxTokens :: string where "requestFieldMaxTokens = ''max_tokens''"
definition requestFieldMaxCompletionTokens :: string where
  "requestFieldMaxCompletionTokens = ''max_completion_tokens''"
definition requestFieldDoRemotePrefill :: string where "requestFieldDoRemotePrefill = ''do_remote_prefill''"
definition requestFieldDoRemoteDecode :: string where "requestFieldDoRemoteDecode = ''do_remote_decode''"
definition requestFieldRemoteBlockIDs :: string where "requestFieldRemoteBlockIDs = ''remote_block_ids''"
definition requestFieldRemoteEngineID :: string where "requestFieldRemoteEngineID = ''remote_engine_id''"
definition requestFieldRemoteHost :: string where "requestFieldRemoteHost = ''remote_host''"
definition requestFieldRemotePort :: string where "requestFieldRemotePort = ''remote_port''"
definition requestFieldStream :: string where "requestFieldStream = ''stream''"
definition requestFieldStreamOptions :: string where "requestFieldStreamOptions = ''stream_options''"

lemmas field_defs = requestFieldKVTransferParams_def requestFieldMaxTokens_def
  requestFieldMaxCompletionTokens_def requestFieldStream_def requestFieldStreamOptions_def

record pdOrchestartionParameters =
  pop_DeferredDecode :: bool
  pop_DecodeProfile :: string
  pop_PrefillProfile :: string

record PdOrchestration =
  po_typedName :: typed_name
  po_deferredDecode :: bool
  po_decodeProfile :: string
  po_prefillProfile :: string

definition NewPdOrchestration :: "bool \<Rightarrow> string \<Rightarrow> string \<Rightarrow> PdOrchestration" where
  "NewPdOrchestration deferredDecode prefillProfile decodeProfile =
     \<lparr>po_typedName = zero_typed_name, po_deferredDecode = deferredDecode,
      po_decodeProfile = decodeProfile, po_prefillProfile = prefillProfile\<rparr>"

definition PdOrchestration_TypedName :: "PdOrchestration \<Rightarrow> typed_name" where
  "PdOrchestration_TypedName p = po_typedName p"

definition PdOrchestration_WithName :: "string \<Rightarrow> PdOrchestration \<Rightarrow> PdOrchestration" where
  "PdOrchestration_WithName name p = p\<lparr>po_typedName := (po_typedName p)\<lparr>tn_Name := name\<rparr>\<rparr>"

interpretation po_name: named_plugin PdOrchestration_TypedName PdOrchestration_WithName
    "\<lambda>p. (po_deferredDecode p, po_decodeProfile p, po_prefillProfile p)"
  by unfold_locales (simp_all add: PdOrchestration_TypedName_def PdOrchestration_WithName_def)

definition pdOrchestration_fields :: "pdOrchestartionParameters field_decoder list" where
  "pdOrchestration_fields =
     [(''deferredDecode'', \<lambda>v p. map_option (\<lambda>b. p\<lparr>pop_DeferredDecode := b\<rparr>) (json_bool v)),
      (''decodeProfile'', \<lambda>v p. map_option (\<lambda>s. p\<lparr>pop_DecodeProfile := s\<rparr>) (json_string v)),
      (''prefillProfile'', \<lambda>v p. map_option (\<lambda>s. p\<lparr>pop_PrefillProfile := s\<rparr>) (json_string v))]"

definition PdOrchestrationFactory :: "string \<Rightarrow> string option \<Rightarrow> config_error + PdOrchestration" where
  "PdOrchestrationFactory name rawParameters =
     (let parameters0 = \<lparr>pop_DeferredDecode = False, pop_DecodeProfile = defaultDecodeProfile,
                         pop_PrefillProfile = defaultPrefillProfile\<rparr>
      in case (case rawParameters of None \<Rightarrow> Some parameters0
               | Some raw \<Rightarrow> unmarshal_struct pdOrchestration_fields raw parameters0) of
           None \<Rightarrow> Inl (ParseFailed PdOrchestrationType)
         | Some p \<Rightarrow>
             Inr (PdOrchestration_WithName name
                    (NewPdOrchestration (pop_DeferredDecode p) (pop_PrefillProfile p) (pop_DecodeProfile p))))"

section \<open>The two requests\<close>

text \<open>
  A write into \<open>orchestration.Body()\<close>.  The plugin keeps the map in a local variable, which
  is the map of the request context throughout: nothing it calls in between replaces it.
  Writing to a nil map panics; deleting from one does nothing.
\<close>

definition body_set :: "string \<Rightarrow> any \<Rightarrow> (orch, unit) go" where
  "body_set k v = go_bind (go_read orch_Body) (\<lambda>m. case m of
     None \<Rightarrow> go_panic NilMapWrite
   | Some x \<Rightarrow> upd_ctx (\<lambda>c. c\<lparr>rc_Body := Some (fmupd k v x)\<rparr>))"

definition body_delete :: "string \<Rightarrow> (orch, unit) go" where
  "body_delete k = upd_ctx (\<lambda>c. c\<lparr>rc_Body := map_option (fmdrop k) (rc_Body c)\<rparr>)"

definition set_request_id :: "string \<Rightarrow> (orch, unit) go" where
  "set_request_id u = upd_ctx (\<lambda>c. c\<lparr>rc_Headers := fmupd requestHeaderRequestID u (rc_Headers c)\<rparr>)"

definition prefill_kv_params :: any where
  "prefill_kv_params = AMap (fmap_of_list
     [(requestFieldDoRemoteDecode, ABool True), (requestFieldDoRemotePrefill, ABool False),
      (requestFieldRemoteEngineID, ANil), (requestFieldRemoteBlockIDs, ANil),
      (requestFieldRemoteHost, ANil), (requestFieldRemotePort, ANil)])"

definition restore_field :: "string \<Rightarrow> any option \<Rightarrow> (orch, unit) go" where
  "restore_field k old = (case old of None \<Rightarrow> go_return () | Some v \<Rightarrow> body_set k v)"

text \<open>What a plugin returns as its error: its own text, or one passed on.\<close>

datatype orch_error = PluginError string | UuidError string | GieError gie_error

text \<open>\<open>prefillResponse[k]\<close> of a missing key is nil.\<close>

definition nil_default :: "any option \<Rightarrow> any" where
  "nil_default v = (case v of None \<Rightarrow> ANil | Some x \<Rightarrow> x)"

definition sendPrefillRequest :: "env \<Rightarrow> profile_run_result \<Rightarrow> (orch, orch_error option) go" where
  "sendPrefillRequest E prefillResults =
     go_bind next_tick (\<lambda>t. case NewUUID E t of
       Inl e \<Rightarrow> go_return (Some (UuidError e))
     | Inr uuidStr \<Rightarrow>
         go_then (set_request_id uuidStr)
        (go_bind (go_read orch_Body) (\<lambda>completionRequest.
         let streamValue = go_map_get completionRequest requestFieldStream;
             streamOptionsValue = go_map_get completionRequest requestFieldStreamOptions;
             maxTokensValue = go_map_get completionRequest requestFieldMaxTokens;
             maxCompletionTokensValue = go_map_get completionRequest requestFieldMaxCompletionTokens
         in go_then (body_set requestFieldKVTransferParams prefill_kv_params)
           (go_then (body_set requestFieldStream (ABool False))
           (go_then (body_delete requestFieldStreamOptions)
           (go_then (body_set requestFieldMaxTokens (AInt 1))
           (go_then (body_set requestFieldMaxCompletionTokens (AInt 1))
           (go_bind (go_lift (first (TargetEndpoints prefillResults))) (\<lambda>target.
            go_bind (SendRequest E target) (\<lambda>r. case r of
              Inl err \<Rightarrow> go_return (Some (GieError err))
            | Inr (_, prefillResponse) \<Rightarrow>
                go_then (set_request_id uuidStr)
               (go_then (body_delete requestFieldStream)
               (go_then (restore_field requestFieldStream streamValue)
               (go_then (restore_field requestFieldStreamOptions streamOptionsValue)
               (go_then (body_delete requestFieldMaxTokens)
               (go_then (restore_field requestFieldMaxTokens maxTokensValue)
               (go_then (body_delete requestFieldMaxCompletionTokens)
               (go_then (restore_field requestFieldMaxCompletionTokens maxCompletionTokensValue)
               (go_then (body_set requestFieldKVTransferParams
                           (nil_default (go_map_get prefillResponse requestFieldKVTransferParams)))
                  (go_return None)))))))))))))))))))"

definition sendDecodeRequest :: "env \<Rightarrow> profile_run_result \<Rightarrow> (orch, unit) go" where
  "sendDecodeRequest E decodeResults =
     go_bind (go_lift (first (TargetEndpoints decodeResults))) (SendRequestAndResponse E)"

section \<open>Orchestrate\<close>

definition no_decode_workers :: orch_error where
  "no_decode_workers = PluginError ''failed to find available decode workers''"

text \<open>\<open>schedResult.ProfileResults[name]\<close>; a missing entry and a nil entry both read as nil.\<close>

definition run_result :: "scheduling_result \<Rightarrow> string \<Rightarrow> profile_run_result option" where
  "run_result r name = (case fmlookup (ProfileResults r) name of None \<Rightarrow> None | Some x \<Rightarrow> x)"

definition prefill_if_any :: "env \<Rightarrow> profile_run_result option \<Rightarrow> (orch, orch_error option) go" where
  "prefill_if_any E prefillResults = (case prefillResults of
     None \<Rightarrow> go_return None | Some r \<Rightarrow> sendPrefillRequest E r)"

definition nonDeferredDecodePD :: "env \<Rightarrow> PdOrchestration \<Rightarrow> (orch, orch_error option) go" where
  "nonDeferredDecodePD E p =
     go_bind (DetermineTargets E [po_prefillProfile p, po_decodeProfile p]) (\<lambda>r. case r of
       Inl err \<Rightarrow> go_return (Some (PluginError err))
     | Inr schedResult \<Rightarrow>
         (case run_result schedResult (po_decodeProfile p) of
            None \<Rightarrow> go_return (Some no_decode_workers)
          | Some decodeResults \<Rightarrow>
              go_bind (prefill_if_any E (run_result schedResult (po_prefillProfile p))) (\<lambda>err. case err of
                Some e \<Rightarrow> go_return (Some e)
              | None \<Rightarrow> go_then (sendDecodeRequest E decodeResults) (go_return None))))"

definition deferredDecodePD :: "env \<Rightarrow> PdOrchestration \<Rightarrow> (orch, orch_error option) go" where
  "deferredDecodePD E p =
     go_bind (DetermineTargets E [po_prefillProfile p]) (\<lambda>r. case r of
       Inl err \<Rightarrow> go_return (Some (PluginError err))
     | Inr schedResult \<Rightarrow>
         go_bind (prefill_if_any E (run_result schedResult (po_prefillProfile p))) (\<lambda>err. case err of
           Some e \<Rightarrow> go_return (Some e)
         | None \<Rightarrow>
             go_bind (DetermineTargets E [po_decodeProfile p]) (\<lambda>r2. case r2 of
               Inl err \<Rightarrow> go_return (Some (PluginError err))
             | Inr schedResult2 \<Rightarrow>
                 (case run_result schedResult2 (po_decodeProfile p) of
                    None \<Rightarrow> go_return (Some no_decode_workers)
                  | Some decodeResults \<Rightarrow>
                      go_then (sendDecodeRequest E decodeResults) (go_return None)))))"

definition Orchestrate :: "env \<Rightarrow> PdOrchestration \<Rightarrow> (orch, orch_error option) go" where
  "Orchestrate E p = (if po_deferredDecode p then deferredDecodePD E p else nonDeferredDecodePD E p)"

section \<open>What the two requests carry\<close>

text \<open>The body as the prefill worker gets it, and as the decode worker gets it.\<close>

definition prefill_body :: "(string, any) fmap \<Rightarrow> (string, any) fmap" where
  "prefill_body b = fmupd requestFieldMaxCompletionTokens (AInt 1) (fmupd requestFieldMaxTokens (AInt 1)
     (fmdrop requestFieldStreamOptions (fmupd requestFieldStream (ABool False)
       (fmupd requestFieldKVTransferParams prefill_kv_params b))))"

definition decode_body :: "go_map \<Rightarrow> (string, any) fmap \<Rightarrow> (string, any) fmap" where
  "decode_body prefillResponse b = fmupd requestFieldKVTransferParams
     (nil_default (go_map_get prefillResponse requestFieldKVTransferParams)) b"

definition restore :: "string \<Rightarrow> any option \<Rightarrow> (string, any) fmap \<Rightarrow> (string, any) fmap" where
  "restore k old b = (case old of None \<Rightarrow> b | Some v \<Rightarrow> fmupd k v b)"

lemma restored_body:
  "fmupd requestFieldKVTransferParams x
     (restore requestFieldMaxCompletionTokens (fmlookup b requestFieldMaxCompletionTokens)
       (fmdrop requestFieldMaxCompletionTokens
     (restore requestFieldMaxTokens (fmlookup b requestFieldMaxTokens)
       (fmdrop requestFieldMaxTokens
     (restore requestFieldStreamOptions (fmlookup b requestFieldStreamOptions)
     (restore requestFieldStream (fmlookup b requestFieldStream)
       (fmdrop requestFieldStream (prefill_body b)))))))) = fmupd requestFieldKVTransferParams x b"
  by (rule fmap_ext) (simp add: prefill_body_def restore_def field_defs split: option.split)

definition with_body :: "(string, any) fmap \<Rightarrow> orch \<Rightarrow> orch" where
  "with_body b o' = o'\<lparr>o_reqCtx := (o_reqCtx o')\<lparr>rc_Body := Some b\<rparr>\<rparr>"

definition with_id :: "string \<Rightarrow> orch \<Rightarrow> orch" where
  "with_id u o' = o'\<lparr>o_reqCtx := (o_reqCtx o')\<lparr>rc_Headers := fmupd requestHeaderRequestID u (rc_Headers (o_reqCtx o'))\<rparr>\<rparr>"

lemma with_simps [simp]:
  "orch_Body (with_body b o') = Some b" "orch_Body (with_id u o') = orch_Body o'"
  "with_body b (with_body b' o') = with_body b o'"
  "o_tick (with_body b o') = o_tick o'" "o_tick (with_id u o') = o_tick o'"
  "o_req (with_body b o') = o_req o'" "o_req (with_id u o') = o_req o'"
  "o_rw (with_body b o') = o_rw o'" "o_rw (with_id u o') = o_rw o'"
  "o_sent (with_body b o') = o_sent o'" "o_sent (with_id u o') = o_sent o'"
  "rc_Body (o_reqCtx (with_body b o')) = Some b" "rc_Body (o_reqCtx (with_id u o')) = rc_Body (o_reqCtx o')"
  "rc_Headers (o_reqCtx (with_body b o')) = rc_Headers (o_reqCtx o')"
  "rc_Headers (o_reqCtx (with_id u o')) = fmupd requestHeaderRequestID u (rc_Headers (o_reqCtx o'))"
  by (simp_all add: with_body_def with_id_def orch_Body_def)

lemma body_ops:
  assumes "orch_Body o' = Some b"
  shows "body_set k v o' = (Inr (), with_body (fmupd k v b) o')"
    and "body_delete k o' = (Inr (), with_body (fmdrop k b) o')"
    and "restore_field k old o' = (Inr (), with_body (restore k old b) o')"
proof -
  show set: "body_set k v o' = (Inr (), with_body (fmupd k v b) o')" for v
    using assms by (simp add: body_set_def run_simps orch_Body_def with_body_def)
  show "body_delete k o' = (Inr (), with_body (fmdrop k b) o')"
    using assms by (simp add: body_delete_def run_simps orch_Body_def with_body_def)
  have "with_body b o' = o'" using assms by (simp add: with_body_def orch_Body_def)
  then show "restore_field k old o' = (Inr (), with_body (restore k old b) o')"
    by (cases old) (simp_all add: restore_field_def restore_def set go_simps)
qed

lemma set_request_id_eq: "set_request_id u o' = (Inr (), with_id u o')"
  by (simp add: set_request_id_def run_simps with_id_def)

definition prefill_state :: "string \<Rightarrow> (string, any) fmap \<Rightarrow> orch \<Rightarrow> orch" where
  "prefill_state u b o' = with_body (prefill_body b) (with_id u (o'\<lparr>o_tick := Suc (o_tick o')\<rparr>))"

lemma sendPrefillRequest_eq:
  assumes id: "NewUUID E (o_tick o') = Inr u" and body: "orch_Body o' = Some b"
  shows "sendPrefillRequest E pr o' = (case TargetEndpoints pr of
      [] \<Rightarrow> (Inl IndexOutOfRange, prefill_state u b o')
    | target # _ \<Rightarrow> (case SendRequest E target (prefill_state u b o') of
        (Inl panic, o2) \<Rightarrow> (Inl panic, o2)
      | (Inr (Inl err), o2) \<Rightarrow> (Inr (Some (GieError err)), o2)
      | (Inr (Inr (_, m)), o2) \<Rightarrow> (Inr None, with_body (decode_body m b) (with_id u o2))))"
proof -
  let ?o1 = "o'\<lparr>o_tick := Suc (o_tick o')\<rparr>"
  have b1: "orch_Body ?o1 = Some b" using body by (simp add: orch_Body_def)
  have st: "with_body (fmupd requestFieldMaxCompletionTokens (AInt 1)
      (fmupd requestFieldMaxTokens (AInt 1) (fmdrop requestFieldStreamOptions (fmupd requestFieldStream (ABool False)
       (fmupd requestFieldKVTransferParams prefill_kv_params b))))) (with_id u ?o1) = prefill_state u b o'"
    by (simp add: prefill_state_def prefill_body_def)
  note unf = sendPrefillRequest_def next_tick_def id go_simps go_bind_def set_request_id_eq body_ops b1 st Let_def
    go_map_get_def
  show ?thesis
  proof (cases "TargetEndpoints pr")
    case Nil
    then show ?thesis by (simp add: unf)
  next
    case (Cons target ts)
    obtain x o2 where send: "SendRequest E target (prefill_state u b o') = (x, o2)"
      by (cases "SendRequest E target (prefill_state u b o')")
    have kept: "orch_Body o2 = Some (prefill_body b)"
      using go_keepsD [OF SendRequest_keeps_body send] by (simp add: orch_Body_def prefill_state_def)
    show ?thesis
      by (cases x; cases "projr x")
        (auto simp: unf Cons send kept restored_body decode_body_def split: prod.split)
  qed
qed

definition address :: "endpoint \<Rightarrow> string" where
  "address e = JoinHostPort (md_Address (ep_Metadata e)) (md_Port (ep_Metadata e))"

definition reachable_address :: "endpoint \<Rightarrow> bool" where
  "reachable_address e \<longleftrightarrow> url_host (address e) \<noteq> None"

lemma reachable_host: "reachable_address e \<Longrightarrow> url_host (address e) = Some (address e)"
  using url_host_id by (auto simp: reachable_address_def)

text \<open>The state the prefill request is sent from.\<close>

definition prefill_ready :: "env \<Rightarrow> endpoint \<Rightarrow> string \<Rightarrow> (string, any) fmap \<Rightarrow> orch \<Rightarrow> orch" where
  "prefill_ready E target u b o' = targeted E target (prefill_state u b o')"

lemma prefill_ready_simps [simp]:
  "rc_Body (o_reqCtx (prefill_ready E target u b o')) = Some (prefill_body b)"
  "o_sent (prefill_ready E target u b o') = o_sent o'"
  "o_rw (prefill_ready E target u b o') = o_rw o'" "o_req (prefill_ready E target u b o') = o_req o'"
  by (simp_all add: prefill_ready_def prefill_state_def)

lemma sendPrefillRequest_run:
  fixes E target u b o'
  defines "o1 \<equiv> prefill_ready E target u b o'"
  assumes env: "orders_ok E" "network_ok E"
    and id: "NewUUID E (o_tick o') = Inr u"
    and body: "orch_Body o' = Some b"
    and targets: "TargetEndpoints pr = target # ts"
    and addr: "reachable_address target"
    and len: "req_ContentLength (o_req o') \<noteq> 0"
  shows "\<exists>o2. sendPrefillRequest E pr o' =
      (Inr (case decode_reply E (answer E (address target) o1) of Inl err \<Rightarrow> Some (GieError err) | Inr _ \<Rightarrow> None), o2) \<and>
    o_sent o2 = o_sent o' @ [(sent_request E (address target) o1, answer E (address target) o1)] \<and> o_rw o2 = o_rw o' \<and> o_req o2 = o_req o' \<and>
    orch_Body o2 = Some (case decode_reply E (answer E (address target) o1) of
      Inl _ \<Rightarrow> prefill_body b | Inr (_, m) \<Rightarrow> decode_body m b) \<and>
    (\<forall>h m. decode_reply E (answer E (address target) o1) = Inr (h, m) \<longrightarrow>
       fmlookup (orch_Headers o2) requestHeaderRequestID = Some u)"
proof -
  let ?s = "prefill_state u b o'"
  have host: "url_host (TargetEndpoint (o_reqCtx (targeted E target ?s))) = Some (address target)"
    using reachable_host [OF addr] by (simp add: address_def)
  have len': "req_ContentLength (o_req ?s) \<noteq> 0" using len by (simp add: prefill_state_def)
  have ans: "answer_ok (answer E (address target) (targeted E target ?s))"
    using env(2) by (simp add: network_ok_def answer_def)
  define o3 where "o3 = (after_send E (address target) o1)\<lparr>o_tick := Suc (o_tick (after_send E (address target) o1))\<rparr>"
  have send: "SendRequest E target ?s = (Inr (decode_reply E (answer E (address target) o1)), o3)"
    using SendRequest_eq [OF host len' env(1) ans] by (simp add: o1_def prefill_ready_def o3_def)
  have o3: "orch_Body o3 = Some (prefill_body b)" "o_rw o3 = o_rw o'" "o_req o3 = o_req o'"
    "o_sent o3 = o_sent o' @ [(sent_request E (address target) o1, answer E (address target) o1)]"
    by (simp_all add: o3_def orch_Body_def o1_def)
  show ?thesis
    using sendPrefillRequest_eq [OF id body, of pr] targets send o3
    by (cases "decode_reply E (answer E (address target) o1)") (auto simp: orch_Headers_def)
qed

section \<open>The run of the plugin\<close>

text \<open>A request that goes to an endpoint and carries a map as its JSON body.\<close>

definition json_bytes :: "(string, any) fmap \<Rightarrow> string" where
  "json_bytes m = (case json_marshal (AMap m) of None \<Rightarrow> '''' | Some t \<Rightarrow> t)"

definition carries :: "out_request \<Rightarrow> endpoint \<Rightarrow> (string, any) fmap \<Rightarrow> bool" where
  "carries out e m \<longleftrightarrow> out_URLHost out = address e \<and> out_Body out = Some (json_bytes m) \<and>
     out_ContentLength out = int (length (json_bytes m))"

lemma sent_carries:
  "rc_Body (o_reqCtx o1) = Some m \<Longrightarrow> carries (sent_request E (address e) o1) e m"
  by (simp add: carries_def sent_request_simps body_bytes_def marshal_go_map_def json_bytes_def)

definition has_target :: "profile_run_result \<Rightarrow> endpoint \<Rightarrow> bool" where
  "has_target r e \<longleftrightarrow> first (TargetEndpoints r) = Inr e \<and> reachable_address e"

lemma has_targetE:
  assumes "has_target r e"
  obtains es where "TargetEndpoints r = e # es" and "reachable_address e"
  using assms by (cases "TargetEndpoints r") (auto simp: has_target_def)

lemma decode_step:
  assumes work: "workable E o'" and tgt: "has_target dr d" and body: "orch_Body o' = Some m"
  shows "\<exists>out a. carries out d m \<and> o_sent (snd (sendDecodeRequest E dr o')) = o_sent o' @ [(out, a)] \<and>
    o_rw (snd (sendDecodeRequest E dr o')) = client_result a (o_rw o')"
proof -
  from tgt obtain ds where ds: "TargetEndpoints dr = d # ds" and addr: "reachable_address d" by (rule has_targetE)
  let ?o1 = "targeted E d o'"
  have w: "workable E ?o1" using work by (simp add: workable_def)
  have host: "url_host (TargetEndpoint (o_reqCtx ?o1)) = Some (address d)"
    using reachable_host [OF addr] by (simp add: address_def)
  have "sendDecodeRequest E dr o' = forward_to_client E ?o1"
    by (simp add: sendDecodeRequest_def ds SendRequestAndResponse_def go_simps go_bind_def commonSendRequest_eq)
  moreover have "carries (sent_request E (address d) ?o1) d m"
    using body by (intro sent_carries) (simp add: orch_Body_def)
  ultimately show ?thesis using forward_run [OF w host] by fastforce
qed

lemma prefill_step:
  assumes work: "workable E o'" and tgt: "has_target pr q" and body: "orch_Body o' = Some b"
    and id: "NewUUID E (o_tick o') = Inr u"
  shows "\<exists>out a o2. carries out q (prefill_body b) \<and> o_sent o2 = o_sent o' @ [(out, a)] \<and> o_rw o2 = o_rw o' \<and>
    o_req o2 = o_req o' \<and>
    (case decode_reply E a of
       Inl err \<Rightarrow> sendPrefillRequest E pr o' = (Inr (Some (GieError err)), o2)
     | Inr (_, m) \<Rightarrow> sendPrefillRequest E pr o' = (Inr None, o2) \<and> orch_Body o2 = Some (decode_body m b) \<and>
         fmlookup (orch_Headers o2) requestHeaderRequestID = Some u)"
proof -
  note w = workableD [OF work]
  from tgt obtain qs where qs: "TargetEndpoints pr = q # qs" and addr: "reachable_address q" by (rule has_targetE)
  let ?o1 = "prefill_ready E q u b o'"
  have c: "carries (sent_request E (address q) ?o1) q (prefill_body b)" by (intro sent_carries) simp
  show ?thesis
  proof (cases "decode_reply E (answer E (address q) ?o1)")
    case (Inl err)
    then show ?thesis using sendPrefillRequest_run [OF w(1,2) id body qs addr w(4)] c
      by (intro exI [of _ "sent_request E (address q) ?o1"] exI [of _ "answer E (address q) ?o1"]) fastforce
  next
    case (Inr hm)
    then show ?thesis using sendPrefillRequest_run [OF w(1,2) id body qs addr w(4)] c
      by (intro exI [of _ "sent_request E (address q) ?o1"] exI [of _ "answer E (address q) ?o1"])
        (cases hm, fastforce)
  qed
qed

lemma sched_eq:
  assumes "HandleRequestHelper (env_director E) (o_tick o') (o_reqCtx o') names = (ctx, Inr res)"
  shows "DetermineTargets E names o' = (Inr (Inr res), o'\<lparr>o_reqCtx := ctx, o_tick := Suc (o_tick o')\<rparr>)"
  using assms by (simp add: DetermineTargets_def run_simps)

lemma sched_err:
  assumes "HandleRequestHelper (env_director E) (o_tick o') (o_reqCtx o') names = (ctx, Inl err)"
    and "\<forall>t. \<not> client_write_fails E t"
  shows "DetermineTargets E names o' = (Inr (Inl err), o'\<lparr>o_reqCtx := ctx, o_tick := Suc (Suc (o_tick o')),
     o_rw := rw_Write err (rw_WriteHeader 500 (o_rw o'))\<rparr>)"
  using assms by (simp add: DetermineTargets_def sendError_def run_simps)

text \<open>The last step of both modes.\<close>

lemma snd_decode_then: "snd (go_then (sendDecodeRequest E dr) (go_return r) o') = snd (sendDecodeRequest E dr o')"
  by (cases "sendDecodeRequest E dr o'"; cases "fst (sendDecodeRequest E dr o')") (auto simp: go_bind_def go_simps)

definition decodes :: "env \<Rightarrow> endpoint \<Rightarrow> (orch, 'a) go \<Rightarrow> bool" where
  "decodes E d k \<longleftrightarrow> (\<forall>o2 m. workable E o2 \<longrightarrow> orch_Body o2 = Some m \<longrightarrow>
     (\<exists>out a. carries out d m \<and> o_sent (snd (k o2)) = o_sent o2 @ [(out, a)] \<and>
       o_rw (snd (k o2)) = client_result a (o_rw o2)))"

lemma decodes_now: "has_target dr d \<Longrightarrow> decodes E d (go_then (sendDecodeRequest E dr) (go_return r))"
  using decode_step by (simp add: decodes_def snd_decode_then)

text \<open>How a run that starts with a prefill request ends: with the request alone, or with both.\<close>

definition pd_outcome ::
  "env \<Rightarrow> endpoint \<Rightarrow> endpoint \<Rightarrow> (string, any) fmap \<Rightarrow> orch \<Rightarrow> (panic + orch_error option) \<times> orch \<Rightarrow> bool" where
  "pd_outcome E q d b o' run \<longleftrightarrow> (\<exists>out a. carries out q (prefill_body b) \<and>
    (case decode_reply E a of
       Inl err \<Rightarrow> fst run = Inr (Some (GieError err)) \<and> o_sent (snd run) = o_sent o' @ [(out, a)] \<and>
         o_rw (snd run) = o_rw o'
     | Inr (_, m) \<Rightarrow> \<exists>out' a'. carries out' d (decode_body m b) \<and>
         o_sent (snd run) = o_sent o' @ [(out, a), (out', a')] \<and>
         o_rw (snd run) = client_result a' (o_rw o')))"

lemma prefill_phase:
  assumes work: "workable E s" and tgt: "has_target pr q" and body: "orch_Body s = Some b"
    and id: "NewUUID E (o_tick s) = Inr u" and cont: "decodes E d k"
  shows "pd_outcome E q d b s
    (go_bind (prefill_if_any E (Some pr)) (\<lambda>err. case err of Some e \<Rightarrow> go_return (Some e) | None \<Rightarrow> k) s)"
proof -
  obtain out a o2 where c: "carries out q (prefill_body b)" and o2: "o_sent o2 = o_sent s @ [(out, a)]"
    "o_rw o2 = o_rw s" "o_req o2 = o_req s"
    and r: "case decode_reply E a of
       Inl err \<Rightarrow> sendPrefillRequest E pr s = (Inr (Some (GieError err)), o2)
     | Inr (_, m) \<Rightarrow> sendPrefillRequest E pr s = (Inr None, o2) \<and> orch_Body o2 = Some (decode_body m b) \<and>
         fmlookup (orch_Headers o2) requestHeaderRequestID = Some u"
    using prefill_step [OF work tgt body id] by blast
  show ?thesis
  proof (cases "decode_reply E a")
    case (Inl err)
    then show ?thesis using c o2 r
      by (auto simp: pd_outcome_def prefill_if_any_def go_bind_def go_simps intro!: exI [of _ out] exI [of _ a])
  next
    case (Inr hm)
    then obtain h m where hm: "decode_reply E a = Inr (h, m)" by (cases hm) auto
    have "workable E o2" using work o2 by (subst workable_cong [of o2 s]) auto
    moreover have "orch_Body o2 = Some (decode_body m b)" using r hm by simp
    ultimately obtain out' a' where "carries out' d (decode_body m b)"
      "o_sent (snd (k o2)) = o_sent o2 @ [(out', a')]" "o_rw (snd (k o2)) = client_result a' (o_rw o2)"
      using cont unfolding decodes_def by blast
    then show ?thesis using c o2 r hm
      by (auto simp: pd_outcome_def prefill_if_any_def go_bind_def intro!: exI [of _ out] exI [of _ a])
  qed
qed

lemma pd_outcome_cong:
  assumes "o_sent s = o_sent o'" and "o_rw s = o_rw o'"
  shows "pd_outcome E q d b s run = pd_outcome E q d b o' run"
  unfolding pd_outcome_def assms ..

lemma nonDeferred_outcome:
  assumes mode: "\<not> po_deferredDecode p"
    and work: "workable E o'"
    and sched: "HandleRequestHelper (env_director E) (o_tick o') (o_reqCtx o')
                  [po_prefillProfile p, po_decodeProfile p] = (ctx, Inr res)"
    and prefill: "run_result res (po_prefillProfile p) = Some pr" "has_target pr q"
    and decode: "run_result res (po_decodeProfile p) = Some dr" "has_target dr d"
    and body: "rc_Body ctx = Some b"
    and id: "NewUUID E (Suc (o_tick o')) = Inr u"
  shows "pd_outcome E q d b o' (Orchestrate E p o')"
proof -
  let ?s = "o'\<lparr>o_reqCtx := ctx, o_tick := Suc (o_tick o')\<rparr>"
  have "workable E ?s" "orch_Body ?s = Some b" "NewUUID E (o_tick ?s) = Inr u"
    using work body id by (simp_all add: workable_def orch_Body_def)
  note phase = prefill_phase [OF this(1) prefill(2) this(2,3) decodes_now [OF decode(2)], of None]
  have run: "Orchestrate E p o' = go_bind (prefill_if_any E (Some pr)) (\<lambda>err. case err of
      Some e \<Rightarrow> go_return (Some e) | None \<Rightarrow> go_then (sendDecodeRequest E dr) (go_return None)) ?s"
    using mode by (simp add: Orchestrate_def nonDeferredDecodePD_def sched_eq [OF sched] prefill(1) decode(1)
        go_bind_def [of "DetermineTargets E _"])
  show ?thesis
    using phase unfolding run [symmetric]
    by (subst (asm) pd_outcome_cong [of ?s o']) simp_all
qed

lemma deferred_outcome:
  assumes mode: "po_deferredDecode p"
    and work: "workable E o'"
    and sched: "HandleRequestHelper (env_director E) (o_tick o') (o_reqCtx o') [po_prefillProfile p] = (ctx, Inr res)"
    and prefill: "run_result res (po_prefillProfile p) = Some pr" "has_target pr q"
    and sched': "\<forall>t c. \<exists>c' res'. HandleRequestHelper (env_director E) t c [po_decodeProfile p] = (c', Inr res') \<and>
                   rc_Body c' = rc_Body c \<and> run_result res' (po_decodeProfile p) = Some dr"
    and decode: "has_target dr d"
    and body: "rc_Body ctx = Some b"
    and id: "NewUUID E (Suc (o_tick o')) = Inr u"
  shows "pd_outcome E q d b o' (Orchestrate E p o')"
proof -
  let ?s = "o'\<lparr>o_reqCtx := ctx, o_tick := Suc (o_tick o')\<rparr>"
  let ?k = "go_bind (DetermineTargets E [po_decodeProfile p]) (\<lambda>r2. case r2 of
      Inl err \<Rightarrow> go_return (Some (PluginError err))
    | Inr schedResult2 \<Rightarrow> (case run_result schedResult2 (po_decodeProfile p) of
        None \<Rightarrow> go_return (Some no_decode_workers)
      | Some decodeResults \<Rightarrow> go_then (sendDecodeRequest E decodeResults) (go_return None)))"
  have s: "workable E ?s" "orch_Body ?s = Some b" "NewUUID E (o_tick ?s) = Inr u"
    using work body id by (simp_all add: workable_def orch_Body_def)
  have cont: "decodes E d ?k"
    unfolding decodes_def
  proof (intro allI impI)
    fix o2 m
    assume w: "workable E o2" and m: "orch_Body o2 = Some m"
    obtain c' res' where c': "HandleRequestHelper (env_director E) (o_tick o2) (o_reqCtx o2) [po_decodeProfile p] = (c', Inr res')"
      and bc: "rc_Body c' = rc_Body (o_reqCtx o2)" and r: "run_result res' (po_decodeProfile p) = Some dr" using sched' by blast
    let ?o3 = "o2\<lparr>o_reqCtx := c', o_tick := Suc (o_tick o2)\<rparr>"
    have k: "?k o2 = go_then (sendDecodeRequest E dr) (go_return None) ?o3"
      by (simp add: go_bind_def sched_eq [OF c'] r)
    have "workable E ?o3" "orch_Body ?o3 = Some m" using w m bc by (simp_all add: workable_def orch_Body_def)
    from decode_step [OF this(1) decode this(2)]
    show "\<exists>out a. carries out d m \<and> o_sent (snd (?k o2)) = o_sent o2 @ [(out, a)] \<and>
        o_rw (snd (?k o2)) = client_result a (o_rw o2)"
      unfolding k snd_decode_then by simp
  qed
  have run: "Orchestrate E p o' = go_bind (prefill_if_any E (Some pr)) (\<lambda>err. case err of
      Some e \<Rightarrow> go_return (Some e) | None \<Rightarrow> ?k) ?s"
    using mode by (simp add: Orchestrate_def deferredDecodePD_def sched_eq [OF sched] prefill(1)
        go_bind_def [of "DetermineTargets E [po_prefillProfile p]"])
  show ?thesis
    using prefill_phase [OF s(1) prefill(2) s(2,3) cont] unfolding run [symmetric]
    by (subst (asm) pd_outcome_cong [of ?s o']) simp_all
qed

lemma nonDeferred_no_decode:
  assumes "\<not> po_deferredDecode p"
    and "HandleRequestHelper (env_director E) (o_tick o') (o_reqCtx o')
           [po_prefillProfile p, po_decodeProfile p] = (ctx, Inr res)"
    and "run_result res (po_decodeProfile p) = None"
  shows "Orchestrate E p o' = (Inr (Some no_decode_workers), o'\<lparr>o_reqCtx := ctx, o_tick := Suc (o_tick o')\<rparr>)"
  using assms by (simp add: Orchestrate_def nonDeferredDecodePD_def go_bind_def sched_eq go_simps)

section \<open>An example run\<close>

definition example_pd :: "bool \<Rightarrow> PdOrchestration" where
  "example_pd deferred = NewPdOrchestration deferred ''prefill'' ''decode''"

definition example_sched :: "string list \<Rightarrow> string + scheduling_result" where
  "example_sched names = Inr (example_result
     (map (\<lambda>n. (n, example_endpoint (if n = ''prefill'' then ''10.0.0.1'' else ''10.0.0.2''))) names))"

definition example_network :: "string \<Rightarrow> response option" where
  "example_network host = (if host = ''10.0.0.1:8000''
     then Some (example_response 200 (''{'' @ quote ''kv_transfer_params'' @ '':true}''))
     else Some (example_response 200 ''hello''))"

definition pd_env :: env where
  "pd_env = example_env example_sched example_network"

definition pd_orch :: orch where
  "pd_orch = (let o' = NewOrchestration pd_env (example_request fmempty ''x'') ''id'' new_response_writer 0
     in o'\<lparr>o_reqCtx := (o_reqCtx o')\<lparr>rc_Body := Some (fmupd ''max_tokens'' (AInt 50) fmempty)\<rparr>\<rparr>)"

lemma pd_orch_simps [simp]:
  "rc_Body (o_reqCtx pd_orch) = Some (fmupd ''max_tokens'' (AInt 50) fmempty)"
  "o_sent pd_orch = []" "o_rw pd_orch = new_response_writer" "o_tick pd_orch = 0"
  by (simp_all add: pd_orch_def NewOrchestration_def Let_def)

lemma pd_workable: "workable (example_env sched example_network) pd_orch" "workable pd_env pd_orch"
  by (simp_all add: pd_env_def workable_def network_ok_def example_network_def pd_orch_def NewOrchestration_def
      example_request_def new_response_writer_def Let_def)

lemma pd_target:
  "has_target \<lparr>TargetEndpoints = [example_endpoint ''10.0.0.1'']\<rparr> (example_endpoint ''10.0.0.1'')"
  "has_target \<lparr>TargetEndpoints = [example_endpoint ''10.0.0.2'']\<rparr> (example_endpoint ''10.0.0.2'')"
  by code_simp+

lemma pd_sched:
  "HandleRequestHelper (env_director pd_env) t c names = (c, example_sched names)"
  "NewUUID pd_env t = Inr ''uuid''"
  by (simp_all add: pd_env_def)

lemma pd_results:
  "run_result (example_result [(''prefill'', example_endpoint ''10.0.0.1''), (''decode'', e)]) ''prefill'' =
     Some \<lparr>TargetEndpoints = [example_endpoint ''10.0.0.1'']\<rparr>"
  "run_result (example_result [(''prefill'', e), (''decode'', example_endpoint ''10.0.0.2'')]) ''decode'' =
     Some \<lparr>TargetEndpoints = [example_endpoint ''10.0.0.2'']\<rparr>"
  by (simp_all add: run_result_def example_result_def)

lemma sendPrefillRequest_body:
  assumes "sendPrefillRequest E pr o' = (r, o2)"
  shows "orch_Body o' \<noteq> None \<or> (\<exists>p. r = Inl p) \<or> (\<exists>e. r = Inr (Some (UuidError e)))"
  using assms
  by (cases "NewUUID E (o_tick o')"; cases "orch_Body o'")
    (auto simp: sendPrefillRequest_def run_simps Let_def set_request_id_eq body_set_def orch_Body_def with_id_def)

lemma pd_reply: "decode_reply pd_env (answer pd_env (address (example_endpoint ''10.0.0.1'')) o1) =
  Inr (fmupd ''Content-Type'' ''application/json'' fmempty, Some (fmupd ''kv_transfer_params'' (ABool True) fmempty))"
proof -
  have a: "address (example_endpoint ''10.0.0.1'') = ''10.0.0.1:8000''" by code_simp
  have n: "answer pd_env (address (example_endpoint ''10.0.0.1'')) o1 = example_network ''10.0.0.1:8000''"
    by (simp add: answer_def pd_env_def sent_request_simps a)
  have u: "unmarshal_map (reply_body (example_network ''10.0.0.1:8000'')) (Some fmempty) =
     (Some (fmupd ''kv_transfer_params'' (ABool True) fmempty), False)" by code_simp
  have h: "reply_headers (example_network ''10.0.0.1:8000'') = fmupd ''Content-Type'' ''application/json'' fmempty"
    by code_simp
  show ?thesis unfolding n decode_reply_def u h by simp
qed

section \<open>Properties\<close>

text \<open>
  C5: when both workers are found, the plugin sends exactly two requests, in this order.  The
  first goes to the first prefill endpoint with the body of the client's request in which
  streaming is off, the stream options are gone, both token limits are one and the transfer
  parameters ask for a remote decode.  Only if its answer is a readable JSON object is the second sent: to
  the first decode endpoint, with the client's body unchanged but for the transfer
  parameters, which are those of the answer.  The client is given the answer to the
  second request, or a bad gateway.  If the first answer cannot be read, nothing more is
  sent, the error is returned and the client's writer is untouched.
\<close>

theorem prefill_then_decode:
  assumes mode: "\<not> po_deferredDecode p"
    and work: "workable E o'"
    and sched: "HandleRequestHelper (env_director E) (o_tick o') (o_reqCtx o')
                  [po_prefillProfile p, po_decodeProfile p] = (ctx, Inr res)"
    and prefill: "run_result res (po_prefillProfile p) = Some pr" "has_target pr q"
    and decode: "run_result res (po_decodeProfile p) = Some dr" "has_target dr d"
    and body: "rc_Body ctx = Some b"
    and id: "NewUUID E (Suc (o_tick o')) = Inr u"
  shows "\<exists>out a. carries out q (prefill_body b) \<and>
    (case decode_reply E a of
       Inl err \<Rightarrow> fst (Orchestrate E p o') = Inr (Some (GieError err)) \<and>
         o_sent (snd (Orchestrate E p o')) = o_sent o' @ [(out, a)] \<and> o_rw (snd (Orchestrate E p o')) = o_rw o'
     | Inr (_, m) \<Rightarrow> \<exists>out' a'. carries out' d (decode_body m b) \<and>
         o_sent (snd (Orchestrate E p o')) = o_sent o' @ [(out, a), (out', a')] \<and>
         o_rw (snd (Orchestrate E p o')) = client_result a' (o_rw o'))"
  using nonDeferred_outcome [OF assms] unfolding pd_outcome_def .

theorem prefill_then_decode_witness:
  "\<exists>out a. carries out (example_endpoint ''10.0.0.1'') (prefill_body (fmupd ''max_tokens'' (AInt 50) fmempty)) \<and>
    (case decode_reply pd_env a of
       Inl err \<Rightarrow> fst (Orchestrate pd_env (example_pd False) pd_orch) = Inr (Some (GieError err)) \<and>
         o_sent (snd (Orchestrate pd_env (example_pd False) pd_orch)) = o_sent pd_orch @ [(out, a)] \<and>
         o_rw (snd (Orchestrate pd_env (example_pd False) pd_orch)) = o_rw pd_orch
     | Inr (_, m) \<Rightarrow> \<exists>out' a'.
         carries out' (example_endpoint ''10.0.0.2'') (decode_body m (fmupd ''max_tokens'' (AInt 50) fmempty)) \<and>
         o_sent (snd (Orchestrate pd_env (example_pd False) pd_orch)) = o_sent pd_orch @ [(out, a), (out', a')] \<and>
         o_rw (snd (Orchestrate pd_env (example_pd False) pd_orch)) = client_result a' (o_rw pd_orch))"
  by (rule prefill_then_decode [OF _ pd_workable(2) _ _ pd_target(1) _ pd_target(2), where ctx = "o_reqCtx pd_orch" and
        res = "example_result [(''prefill'', example_endpoint ''10.0.0.1''), (''decode'', example_endpoint ''10.0.0.2'')]"])
    (simp_all add: pd_sched example_sched_def pd_results example_pd_def NewPdOrchestration_def)
text \<open>
  C6: in the mode that looks for a decode worker only after the prefill, the same two requests
  are sent in the same order, with the decode worker chosen after the prefill worker's
  answer is in; the second scheduling run may change the request context, except for
  the body.
\<close>

theorem deferred_prefill_then_decode:
  assumes mode: "po_deferredDecode p"
    and work: "workable E o'"
    and sched: "HandleRequestHelper (env_director E) (o_tick o') (o_reqCtx o') [po_prefillProfile p] = (ctx, Inr res)"
    and prefill: "run_result res (po_prefillProfile p) = Some pr" "has_target pr q"
    and sched': "\<forall>t c. \<exists>c'. HandleRequestHelper (env_director E) t c [po_decodeProfile p] = (c', Inr res') \<and>
                   rc_Body c' = rc_Body c"
    and decode: "run_result res' (po_decodeProfile p) = Some dr" "has_target dr d"
    and body: "rc_Body ctx = Some b"
    and id: "NewUUID E (Suc (o_tick o')) = Inr u"
  shows "\<exists>out a. carries out q (prefill_body b) \<and>
    (case decode_reply E a of
       Inl err \<Rightarrow> fst (Orchestrate E p o') = Inr (Some (GieError err)) \<and>
         o_sent (snd (Orchestrate E p o')) = o_sent o' @ [(out, a)] \<and> o_rw (snd (Orchestrate E p o')) = o_rw o'
     | Inr (_, m) \<Rightarrow> \<exists>out' a'. carries out' d (decode_body m b) \<and>
         o_sent (snd (Orchestrate E p o')) = o_sent o' @ [(out, a), (out', a')] \<and>
         o_rw (snd (Orchestrate E p o')) = client_result a' (o_rw o'))"
  using deferred_outcome [OF mode work sched prefill _ decode(2) body id] sched' decode(1)
  unfolding pd_outcome_def by blast

theorem deferred_prefill_then_decode_witness:
  "\<exists>out a. carries out (example_endpoint ''10.0.0.1'') (prefill_body (fmupd ''max_tokens'' (AInt 50) fmempty)) \<and>
    (case decode_reply pd_env a of
       Inl err \<Rightarrow> fst (Orchestrate pd_env (example_pd True) pd_orch) = Inr (Some (GieError err)) \<and>
         o_sent (snd (Orchestrate pd_env (example_pd True) pd_orch)) = o_sent pd_orch @ [(out, a)] \<and>
         o_rw (snd (Orchestrate pd_env (example_pd True) pd_orch)) = o_rw pd_orch
     | Inr (_, m) \<Rightarrow> \<exists>out' a'.
         carries out' (example_endpoint ''10.0.0.2'') (decode_body m (fmupd ''max_tokens'' (AInt 50) fmempty)) \<and>
         o_sent (snd (Orchestrate pd_env (example_pd True) pd_orch)) = o_sent pd_orch @ [(out, a), (out', a')] \<and>
         o_rw (snd (Orchestrate pd_env (example_pd True) pd_orch)) = client_result a' (o_rw pd_orch))"
  by (rule deferred_prefill_then_decode [OF _ pd_workable(2) _ _ pd_target(1) _ _ pd_target(2),
        where ctx = "o_reqCtx pd_orch" and
        res = "example_result [(''prefill'', example_endpoint ''10.0.0.1'')]" and
        res' = "example_result [(''decode'', example_endpoint ''10.0.0.2'')]"])
    (simp_all add: pd_sched example_sched_def example_pd_def NewPdOrchestration_def run_result_def example_result_def)

text \<open>
  C7: whenever the prefill step succeeds, whatever the network, the director and the plugins
  did, every field of the request body is what it was before it, present or absent, except
  for the transfer parameters, which are the ones of the worker's answer or null if it has
  none; and nothing was written to the client.
\<close>

theorem prefill_restores_body:
  assumes "sendPrefillRequest E pr o' = (Inr None, o2)"
  shows "(\<forall>k. k \<noteq> requestFieldKVTransferParams \<longrightarrow> go_map_get (orch_Body o2) k = go_map_get (orch_Body o') k) \<and>
    (\<exists>target o1 h m. first (TargetEndpoints pr) = Inr target \<and>
       fst (SendRequest E target o1) = Inr (Inr (h, m)) \<and>
       go_map_get (orch_Body o2) requestFieldKVTransferParams =
         Some (nil_default (go_map_get m requestFieldKVTransferParams))) \<and>
    o_rw o2 = o_rw o'"
proof -
  have "orch_Body o' \<noteq> None" and "\<And>e. NewUUID E (o_tick o') \<noteq> Inl e"
    using sendPrefillRequest_body [OF assms] assms by (auto simp: sendPrefillRequest_def run_simps)
  then obtain b u where b: "orch_Body o' = Some b" and u: "NewUUID E (o_tick o') = Inr u"
    by (cases "NewUUID E (o_tick o')") auto
  from assms obtain target ts h m o1 where t: "TargetEndpoints pr = target # ts"
    and s: "SendRequest E target (prefill_state u b o') = (Inr (Inr (h, m)), o1)"
    and o2: "o2 = with_body (decode_body m b) (with_id u o1)"
    unfolding sendPrefillRequest_eq [OF u b]
    by (auto split: list.splits prod.splits sum.splits)
  have rw: "o_rw o1 = o_rw o'"
    using go_keepsD [OF SendRequest_keeps_client s] by (simp add: prefill_state_def)
  show ?thesis
    using b t s rw
    by (auto simp: o2 go_map_get_def decode_body_def intro!: exI [of _ "prefill_state u b o'"])
qed

theorem prefill_restores_body_witness:
  "\<exists>o2. sendPrefillRequest pd_env \<lparr>TargetEndpoints = [example_endpoint ''10.0.0.1'']\<rparr> pd_orch = (Inr None, o2) \<and>
     go_map_get (orch_Body o2) ''max_tokens'' = Some (AInt 50) \<and> go_map_get (orch_Body o2) ''stream'' = None \<and>
     o_rw o2 = new_response_writer"
proof -
  note w = workableD [OF pd_workable(2)]
  have b: "orch_Body pd_orch = Some (fmupd ''max_tokens'' (AInt 50) fmempty)" by (simp add: orch_Body_def)
  obtain o2 where o2: "sendPrefillRequest pd_env \<lparr>TargetEndpoints = [example_endpoint ''10.0.0.1'']\<rparr> pd_orch = (Inr None, o2)"
    using sendPrefillRequest_run [OF w(1,2) pd_sched(2) b _ _ w(4),
        of "\<lparr>TargetEndpoints = [example_endpoint ''10.0.0.1'']\<rparr>" "example_endpoint ''10.0.0.1''" "[]"] pd_target(1)
    by (auto simp: pd_reply has_target_def)
  then show ?thesis
    using prefill_restores_body [OF o2] b by (auto simp: field_defs go_map_get_def)
qed

text \<open>
  When the scheduler finds no decode worker, the plugin returns the error and sends
  nothing; but it writes nothing to the client either.
\<close>

theorem no_decode_worker:
  assumes "\<not> po_deferredDecode p"
    and "HandleRequestHelper (env_director E) (o_tick o') (o_reqCtx o')
           [po_prefillProfile p, po_decodeProfile p] = (ctx, Inr res)"
    and "run_result res (po_decodeProfile p) = None"
  shows "fst (Orchestrate E p o') = Inr (Some no_decode_workers) \<and>
    o_sent (snd (Orchestrate E p o')) = o_sent o' \<and> o_rw (snd (Orchestrate E p o')) = o_rw o'"
  using nonDeferred_no_decode [OF assms] by simp

theorem no_decode_worker_witness:
  "fst (Orchestrate (example_env (\<lambda>names. Inr (example_result [])) example_network) (example_pd False) pd_orch) =
     Inr (Some no_decode_workers) \<and>
   client_sees (o_rw (snd (Orchestrate (example_env (\<lambda>names. Inr (example_result [])) example_network)
     (example_pd False) pd_orch))) = (200, '''')"
  using no_decode_worker [of "example_pd False" "example_env (\<lambda>names. Inr (example_result [])) example_network" pd_orch
      "o_reqCtx pd_orch" "example_result []"]
  by (simp add: example_pd_def NewPdOrchestration_def run_result_def example_result_def client_sees_def
      new_response_writer_def StatusOK_def)

text \<open>
  C24: when the scheduling run itself fails, in either mode, the client gets the status 500 with
  the text of the error, no request is sent, and the error is returned.
\<close>

theorem scheduling_error_reported:
  assumes "\<forall>t. \<not> client_write_fails E t" and "rw_Status (o_rw o') = None" and "rw_Body (o_rw o') = ''''"
    and "HandleRequestHelper (env_director E) (o_tick o') (o_reqCtx o')
           (if po_deferredDecode p then [po_prefillProfile p] else [po_prefillProfile p, po_decodeProfile p]) =
         (ctx, Inl err)"
  shows "fst (Orchestrate E p o') = Inr (Some (PluginError err)) \<and>
    client_sees (o_rw (snd (Orchestrate E p o'))) = (500, err) \<and>
    o_sent (snd (Orchestrate E p o')) = o_sent o'"
proof -
  have c: "client_sees (rw_Write err (rw_WriteHeader 500 (o_rw o'))) = (500, err)"
    using assms(2,3) by (simp add: rw_Write_def rw_WriteHeader_def client_sees_def)
  show ?thesis
    using assms(4) c by (cases "po_deferredDecode p") (simp_all add: Orchestrate_def nonDeferredDecodePD_def
        deferredDecodePD_def go_bind_def sched_err [OF _ assms(1)] go_simps)
qed

theorem scheduling_error_reported_witness:
  "client_sees (o_rw (snd (Orchestrate (example_env (\<lambda>names. Inl ''no pods'') example_network) (example_pd True)
     pd_orch))) = (500, ''no pods'')"
  using scheduling_error_reported [of "example_env (\<lambda>names. Inl ''no pods'') example_network" pd_orch "example_pd True"
      "o_reqCtx pd_orch" "''no pods''"]
  by (simp add: example_pd_def NewPdOrchestration_def new_response_writer_def)

text \<open>
  When the scheduler returns a decode worker only, the client's body goes to it as it is,
  in one request, and the client gets its answer.
\<close>

theorem decode_only:
  assumes "\<not> po_deferredDecode p" and "workable E o'"
    and sched: "HandleRequestHelper (env_director E) (o_tick o') (o_reqCtx o')
           [po_prefillProfile p, po_decodeProfile p] = (ctx, Inr res)"
    and "run_result res (po_prefillProfile p) = None"
    and "run_result res (po_decodeProfile p) = Some dr" and "has_target dr d"
    and "rc_Body ctx = Some b"
  shows "\<exists>out a. carries out d b \<and> o_sent (snd (Orchestrate E p o')) = o_sent o' @ [(out, a)] \<and>
    o_rw (snd (Orchestrate E p o')) = client_result a (o_rw o')"
proof -
  let ?s = "o'\<lparr>o_reqCtx := ctx, o_tick := Suc (o_tick o')\<rparr>"
  have s: "workable E ?s" "orch_Body ?s = Some b" using assms(2,7) by (simp_all add: workable_def orch_Body_def)
  have "snd (Orchestrate E p o') = snd (sendDecodeRequest E dr ?s)"
    using assms(1,4,5)
    by (simp add: Orchestrate_def nonDeferredDecodePD_def sched_eq [OF sched] prefill_if_any_def
        go_bind_def go_return_def snd_decode_then)
  then show ?thesis using decode_step [OF s(1) assms(6) s(2)] by simp
qed
theorem decode_only_witness:
  "\<exists>out a. carries out (example_endpoint ''10.0.0.2'') (fmupd ''max_tokens'' (AInt 50) fmempty) \<and>
    o_sent (snd (Orchestrate (example_env (\<lambda>names. Inr (example_result [(''decode'', example_endpoint ''10.0.0.2'')]))
      example_network) (example_pd False) pd_orch)) = o_sent pd_orch @ [(out, a)] \<and>
    o_rw (snd (Orchestrate (example_env (\<lambda>names. Inr (example_result [(''decode'', example_endpoint ''10.0.0.2'')]))
      example_network) (example_pd False) pd_orch)) = client_result a (o_rw pd_orch)"
  by (rule decode_only [OF _ pd_workable(1) _ _ _ pd_target(2), where ctx = "o_reqCtx pd_orch" and
        res = "example_result [(''decode'', example_endpoint ''10.0.0.2'')]"])
    (simp_all add: example_pd_def NewPdOrchestration_def run_result_def example_result_def)

end
