(* ===== verification/Orchestration_Correct.thy ===== *)
theory Orchestration_Correct
  imports Example_Env
begin

text \<open>
  The properties of the orchestration object (pkg/orchestrations): preparing a request,
  rewriting it for a model server, passing a response on, and accounting for it.
\<close>

section \<open>Preparing a request\<close>

text \<open>What the header loop makes of the request context, whatever its order.\<close>

definition header_or :: "http_header \<Rightarrow> string \<Rightarrow> string \<Rightarrow> string" where
  "header_or h k old = (case fmlookup h k of Some (v # _) \<Rightarrow> v | _ \<Rightarrow> old)"

definition copied_ctx :: "env \<Rightarrow> http_header \<Rightarrow> string list \<Rightarrow> reqctx \<Rightarrow> reqctx" where
  "copied_ctx E h ks c =
     c\<lparr>rc_Headers := fold (\<lambda>k. fmupd k (hd (header_values h k))) ks (rc_Headers c),
       FairnessID := (if FlowFairnessIDKey E \<in> set ks then header_or h (FlowFairnessIDKey E) (FairnessID c) else FairnessID c),
       ObjectiveKey := (if ObjectiveKeyHeader E \<in> set ks then header_or h (ObjectiveKeyHeader E) (ObjectiveKey c) else ObjectiveKey c),
       TargetModelName := (if ModelNameRewriteKey E \<in> set ks then header_or h (ModelNameRewriteKey E) (TargetModelName c) else TargetModelName c)\<rparr>"

definition distinct_keys :: "env \<Rightarrow> bool" where
  "distinct_keys E \<longleftrightarrow> distinct [FlowFairnessIDKey E, ObjectiveKeyHeader E, ModelNameRewriteKey E]"

lemma copied_ctx_single:
  assumes keys: "distinct_keys E" and k: "fmlookup h k = Some (v # vs)"
  shows "copied_ctx E h [k] c =
    (if k = FlowFairnessIDKey E then c\<lparr>rc_Headers := fmupd k v (rc_Headers c), FairnessID := v\<rparr>
     else if k = ObjectiveKeyHeader E then c\<lparr>rc_Headers := fmupd k v (rc_Headers c), ObjectiveKey := v\<rparr>
     else if k = ModelNameRewriteKey E then c\<lparr>rc_Headers := fmupd k v (rc_Headers c), TargetModelName := v\<rparr>
     else c\<lparr>rc_Headers := fmupd k v (rc_Headers c)\<rparr>)"
proof -
  have hv: "hd (header_values h k) = v" and ho: "header_or h k old = v" for old
    using k by (simp_all add: header_values_def header_or_def)
  show ?thesis
    using keys hv ho by (cases c) (auto simp: copied_ctx_def distinct_keys_def)
qed

lemma copy_request_headers:
  assumes wire: "wire_header h" and keys: "distinct_keys E"
  shows "set ks \<subseteq> fset (fmdom h) \<Longrightarrow>
    go_foreach (copy_request_header E h) ks o' = (Inr (), o'\<lparr>o_reqCtx := copied_ctx E h ks (o_reqCtx o')\<rparr>)"
proof (induction ks arbitrary: o')
  case Nil
  show ?case by (simp add: copied_ctx_def go_simps)
next
  case (Cons k ks)
  then obtain vs where k: "fmlookup h k = Some vs" by (auto simp: fmlookup_dom_iff)
  with wire obtain v vs' where v: "vs = v # vs'" by (cases vs) (auto simp: wire_header_def)
  have "copy_request_header E h k o' = (Inr (), o'\<lparr>o_reqCtx := copied_ctx E h [k] (o_reqCtx o')\<rparr>)"
    using copied_ctx_single [OF keys k [unfolded v]] by (simp add: copy_request_header_def header_values_def k v run_simps)
  moreover have "copied_ctx E h ks (copied_ctx E h [k] c) = copied_ctx E h (k # ks) c" for c
    using k v by (auto simp: copied_ctx_def header_or_def)
  ultimately show ?case using Cons by (simp add: go_simps go_bind_def)
qed

definition prepared_ctx :: "env \<Rightarrow> http_request \<Rightarrow> reqctx \<Rightarrow> reqctx" where
  "prepared_ctx E req c =
     (let h = req_Header req; fid = header_or h (FlowFairnessIDKey E) (FairnessID c) in
      c\<lparr>rc_Headers := fmupd PathKey (req_Path req) (fmupd MethodKey (req_Method req)
          (fmupd SchemeKey (req_Scheme req) (rc_Headers c ++\<^sub>f fmmap hd h))),
        FairnessID := (if fid = '''' then defaultFairnessID else fid),
        ObjectiveKey := header_or h (ObjectiveKeyHeader E) (ObjectiveKey c),
        TargetModelName := header_or h (ModelNameRewriteKey E) (TargetModelName c)\<rparr>)"

lemma copied_ctx_order:
  assumes "is_order (fmdom h) ks"
  shows "copied_ctx E h ks c = c\<lparr>rc_Headers := rc_Headers c ++\<^sub>f fmmap hd h,
     FairnessID := header_or h (FlowFairnessIDKey E) (FairnessID c),
     ObjectiveKey := header_or h (ObjectiveKeyHeader E) (ObjectiveKey c),
     TargetModelName := header_or h (ModelNameRewriteKey E) (TargetModelName c)\<rparr>"
proof -
  have "fold (\<lambda>k. fmupd k (hd (header_values h k))) ks m = m ++\<^sub>f fmmap hd h" for m
    using assms by (rule fold_header_values)
  moreover have "k \<notin> set ks \<Longrightarrow> header_or h k old = old" for k old
    using assms by (simp add: is_order_def header_or_def fmdom_notD)
  ultimately show ?thesis by (simp add: copied_ctx_def)
qed

lemma PrepareRequest_eq:
  assumes wire: "wire_header (req_Header (o_req o'))" and keys: "distinct_keys E" and ord: "orders_ok E"
  shows "PrepareRequest E o' =
    (let (body, readErr) = req_Body (o_req o');
         c = prepared_ctx E (o_req o') (o_reqCtx o');
         bad = Some \<lparr>err_Code = BadRequest E, err_Msg = ''Error unmarshaling request body''\<rparr>;
         (m, unmarshalErr) = unmarshal_map body (rc_Body c)
     in if readErr then (Inr bad, o'\<lparr>o_reqCtx := c, o_tick := Suc (o_tick o')\<rparr>)
        else if unmarshalErr then (Inr bad, o'\<lparr>o_reqCtx := c\<lparr>rc_Body := m\<rparr>, o_tick := Suc (o_tick o')\<rparr>)
        else (Inr None, o'\<lparr>o_reqCtx := c\<lparr>rc_Body := m, RequestSize := int (length body)\<rparr>, o_tick := Suc (o_tick o')\<rparr>))"
proof -
  let ?h = "req_Header (o_req o')"
  have o: "is_order (fmdom ?h) (range_order E t (fmdom ?h))" for t using ord by (simp add: orders_ok_def)
  then have sub: "set (range_order E t (fmdom ?h)) \<subseteq> fset (fmdom ?h)" for t by (simp add: is_order_def)
  have c: "go_foreach (copy_request_header E ?h) (range_order E t (fmdom ?h)) o1 =
     (Inr (), o1\<lparr>o_reqCtx := copied_ctx E ?h (range_order E t (fmdom ?h)) (o_reqCtx o1)\<rparr>)" for t o1
    by (rule copy_request_headers [OF wire keys sub])
  show ?thesis
    by (auto simp: PrepareRequest_def run_simps c copied_ctx_order [OF o] prepared_ctx_def set_pseudo_headers_def
        Let_def split: prod.split)
qed

text \<open>
  C14: preparing a request whose headers came off the wire never panics, and its outcome does not
  depend on the order in which the loop visits the headers.  It is refused as a bad request
  exactly if the body cannot be read or is not a JSON object or null.  Otherwise the context
  holds the first value of every header, the three pseudo headers, the decoded body and the
  size of the raw one; the flow is the one of the fairness header, or the default.
\<close>

theorem prepare_request:
  assumes "wire_header (req_Header req)" and "distinct_keys E" and "orders_ok E"
    and "req_Body req = (body, readErr)" and "unmarshal_map body (Some fmempty) = (m, unmarshalErr)"
  shows "\<exists>o'. PrepareRequest E (NewOrchestration E req rid w t) =
      (Inr (if readErr \<or> unmarshalErr
            then Some \<lparr>err_Code = BadRequest E, err_Msg = ''Error unmarshaling request body''\<rparr> else None), o') \<and>
    o_sent o' = [] \<and> o_rw o' = w \<and>
    rc_Headers (o_reqCtx o') = fmupd PathKey (req_Path req) (fmupd MethodKey (req_Method req)
      (fmupd SchemeKey (req_Scheme req) (fmupd (RequestIdHeaderKey E) rid fmempty ++\<^sub>f fmmap hd (req_Header req)))) \<and>
    FairnessID (o_reqCtx o') = (case fmlookup (req_Header req) (FlowFairnessIDKey E) of
      Some (v # _) \<Rightarrow> if v = '''' then defaultFairnessID else v | _ \<Rightarrow> defaultFairnessID) \<and>
    (\<not> readErr \<longrightarrow> rc_Body (o_reqCtx o') = m) \<and>
    (\<not> readErr \<and> \<not> unmarshalErr \<longrightarrow> RequestSize (o_reqCtx o') = int (length body))"
proof -
  let ?n = "NewOrchestration E req rid w t"
  have n: "o_req ?n = req" "rc_Body (o_reqCtx ?n) = Some fmempty" "FairnessID (o_reqCtx ?n) = ''''"
    "rc_Headers (o_reqCtx ?n) = fmupd (RequestIdHeaderKey E) rid fmempty" "o_sent ?n = []" "o_rw ?n = w"
    by (simp_all add: NewOrchestration_def)
  have w: "wire_header (req_Header (o_req ?n))" using assms(1) n by simp
  show ?thesis
    using assms(4,5) unfolding PrepareRequest_eq [OF w assms(2,3)]
    by (auto simp: n Let_def prepared_ctx_def header_or_def split: option.split list.split)
qed

lemma example_keys: "distinct_keys (example_env sched network)"
  by (simp add: distinct_keys_def example_env_def)

theorem prepare_request_witness:
  "\<exists>o'. PrepareRequest (example_env (\<lambda>_. Inl '''') (\<lambda>_. None))
      (NewOrchestration (example_env (\<lambda>_. Inl '''') (\<lambda>_. None)) (example_request fmempty ''[]'') ''id'' new_response_writer 0) =
      (Inr (Some \<lparr>err_Code = ''BadRequest'', err_Msg = ''Error unmarshaling request body''\<rparr>), o') \<and>
    FairnessID (o_reqCtx o') = ''default-flow''"
proof -
  let ?E = "example_env (\<lambda>_. Inl '''') (\<lambda>_. None)"
  have u: "unmarshal_map ''[]'' (Some fmempty) = (Some fmempty, True)" by code_simp
  have "BadRequest ?E = ''BadRequest''" by (simp add: example_env_def)
  then show ?thesis
    using prepare_request [OF _ example_keys [of "\<lambda>_. Inl ''''" "\<lambda>_. None"] _ _ u, of "example_request fmempty ''[]''" False
        "''id''" new_response_writer 0]
    by (auto simp: example_request_def defaultFairnessID_def)
qed

text \<open>
  A request that was prepared without an error had a body of at least one byte; so the body that
  the rewrite hook closes is never nil for a request whose content length is that of its body.
\<close>

theorem prepared_has_body:
  assumes "wire_header (req_Header req)" and "distinct_keys E" and "orders_ok E"
    and "fst (PrepareRequest E (NewOrchestration E req rid w t)) = Inr None"
    and "req_ContentLength req = int (length (fst (req_Body req)))"
  shows "out_Body (clone_out req) \<noteq> None"
proof -
  have w: "wire_header (req_Header (o_req (NewOrchestration E req rid w t)))"
    using assms(1) by (simp add: NewOrchestration_def)
  have e: "snd (unmarshal_map [] m)" for m
    by (simp add: unmarshal_map_def json_parse_def skip_ws_def numeral_2_eq_2)
  have "fst (req_Body req) \<noteq> []"
  proof
    assume z: "fst (req_Body req) = []"
    obtain m ue where "unmarshal_map [] (rc_Body (prepared_ctx E req (o_reqCtx (NewOrchestration E req rid w t)))) = (m, ue)"
      by (cases "unmarshal_map [] (rc_Body (prepared_ctx E req (o_reqCtx (NewOrchestration E req rid w t))))")
    moreover from this e have ue by (metis snd_conv)
    moreover have "o_req (NewOrchestration E req rid w t) = req" by (simp add: NewOrchestration_def)
    ultimately show False
      using assms(4) z unfolding PrepareRequest_eq [OF w assms(2,3)]
      by (cases "req_Body req") (auto simp: Let_def split: if_splits)
  qed
  then show ?thesis using assms(5) by (simp add: clone_out_def)
qed

theorem prepared_has_body_witness:
  "out_Body (clone_out (example_request fmempty ''{}'')) \<noteq> None"
proof -
  let ?E = "example_env (\<lambda>_. Inl '''') (\<lambda>_. None)"
  have u: "unmarshal_map ''{}'' (Some fmempty) = (Some fmempty, False)" by code_simp
  have r: "req_Header (example_request fmempty ''{}'') = fmempty" "req_Body (example_request fmempty ''{}'') = (''{}'', False)"
    "req_ContentLength (example_request fmempty ''{}'') = 2" by (simp_all add: example_request_def)
  let ?n = "NewOrchestration ?E (example_request fmempty ''{}'') ''id'' new_response_writer 0"
  have "o_req ?n = example_request fmempty ''{}''" "rc_Body (o_reqCtx ?n) = Some fmempty"
    by (simp_all add: NewOrchestration_def)
  then have p: "fst (PrepareRequest ?E ?n) = Inr None"
    by (subst PrepareRequest_eq) (simp_all add: r u example_keys Let_def prepared_ctx_def)
  show ?thesis by (rule prepared_has_body [OF _ example_keys _ p]) (simp_all add: r)
qed

text \<open>
  C32: the header names the code compares with are written in lower case, while the names of
  incoming headers are canonical; so the fairness, objective and model-rewrite headers of a
  client are never recognised: every request is in the default flow, with no objective and no
  rewritten model.
\<close>

theorem control_headers_ignored:
  assumes "wire_header (req_Header req)" and "distinct_keys E" and "orders_ok E"
    and "\<forall>k \<in> {FlowFairnessIDKey E, ObjectiveKeyHeader E, ModelNameRewriteKey E}. CanonicalHeaderKey k \<noteq> k"
  shows "FairnessID (o_reqCtx (snd (PrepareRequest E (NewOrchestration E req rid w t)))) = defaultFairnessID \<and>
    ObjectiveKey (o_reqCtx (snd (PrepareRequest E (NewOrchestration E req rid w t)))) = '''' \<and>
    TargetModelName (o_reqCtx (snd (PrepareRequest E (NewOrchestration E req rid w t)))) = ''''"
proof -
  let ?n = "NewOrchestration E req rid w t"
  have none: "header_or (req_Header req) k old = old"
    if "k \<in> {FlowFairnessIDKey E, ObjectiveKeyHeader E, ModelNameRewriteKey E}" for k old
  proof -
    have "fmlookup (req_Header req) k = None"
      using assms(1,4) that by (metis not_None_eq wire_header_def)
    then show ?thesis by (simp add: header_or_def)
  qed
  have n: "o_req ?n = req" "FairnessID (o_reqCtx ?n) = ''''" "ObjectiveKey (o_reqCtx ?n) = ''''"
    "TargetModelName (o_reqCtx ?n) = ''''" by (simp_all add: NewOrchestration_def)
  have w: "wire_header (req_Header (o_req ?n))" using assms(1) n by simp
  show ?thesis
    unfolding PrepareRequest_eq [OF w assms(2,3)]
    by (auto simp: Let_def n prepared_ctx_def none split: prod.split)
qed

definition fairness_request :: http_request where
  "fairness_request = example_request (fmupd ''X-Gateway-Inference-Fairness-Id'' [''tenant-a''] fmempty) ''{}''"

theorem control_headers_ignored_witness:
  "header_Get (req_Header fairness_request) (FlowFairnessIDKey (example_env (\<lambda>_. Inl '''') (\<lambda>_. None))) = ''tenant-a'' \<and>
   FairnessID (o_reqCtx (snd (PrepareRequest (example_env (\<lambda>_. Inl '''') (\<lambda>_. None))
     (NewOrchestration (example_env (\<lambda>_. Inl '''') (\<lambda>_. None)) fairness_request ''id'' new_response_writer 0)))) = ''default-flow''"
proof -
  let ?E = "example_env (\<lambda>_. Inl '''') (\<lambda>_. None)"
  have c: "CanonicalHeaderKey ''X-Gateway-Inference-Fairness-Id'' = ''X-Gateway-Inference-Fairness-Id''"
    "CanonicalHeaderKey ''x-gateway-inference-fairness-id'' = ''X-Gateway-Inference-Fairness-Id''"
    "CanonicalHeaderKey ''x-gateway-inference-objective'' \<noteq> ''x-gateway-inference-objective''"
    "CanonicalHeaderKey ''x-gateway-model-name-rewrite'' \<noteq> ''x-gateway-model-name-rewrite''" by code_simp+
  have w: "wire_header (req_Header fairness_request)"
    by (simp add: fairness_request_def example_request_def wire_header_def c)
  have k: "\<forall>k \<in> {FlowFairnessIDKey ?E, ObjectiveKeyHeader ?E, ModelNameRewriteKey ?E}. CanonicalHeaderKey k \<noteq> k"
    using c by (simp add: example_env_def)
  have g: "header_Get (req_Header fairness_request) (FlowFairnessIDKey ?E) = ''tenant-a''"
    by (simp add: header_Get_def fairness_request_def example_request_def example_env_def c)
  show ?thesis using control_headers_ignored [OF w example_keys _ k, of "''id''" new_response_writer 0] g
    by (simp add: defaultFairnessID_def)
qed

section \<open>The outgoing request\<close>

definition dropped_key :: "env \<Rightarrow> string \<Rightarrow> bool" where
  "dropped_key E k \<longleftrightarrow> IsSystemOwnedHeader E k \<or> k \<in> EnvoyHeaders"

lemma update_headers_append:
  "update_headers E hs (ks @ ls) h = update_headers E hs ls (update_headers E hs ks h)"
  by (induction ks arbitrary: h) simp_all

lemma update_headers_other:
  "x \<notin> CanonicalHeaderKey ` set ks \<Longrightarrow> fmlookup (update_headers E hs ks h) x = fmlookup h x"
  by (induction ks arbitrary: h) (auto simp: header_Set_def header_Del_def split: option.split)

lemma update_headers_key:
  assumes "k \<in> set ks" and "inj_on CanonicalHeaderKey (set ks)" and "distinct ks" and "fmlookup hs k = Some v"
  shows "fmlookup (update_headers E hs ks h) (CanonicalHeaderKey k) = (if dropped_key E k then None else Some [v])"
proof -
  obtain xs ys where ks: "ks = xs @ k # ys" using assms(1) by (meson split_list)
  have "CanonicalHeaderKey k \<notin> CanonicalHeaderKey ` set ys"
    using assms(2,3) by (auto simp: ks inj_on_def)
  then show ?thesis
    using assms(4) by (simp add: ks update_headers_append update_headers_other header_Set_def header_Del_def dropped_key_def)
qed

lemma canonical_names:
  "CanonicalHeaderKey ''Content-Length'' = ''Content-Length''"
  "CanonicalHeaderKey ''X-Forwarded-For'' = ''X-Forwarded-For''"
  "CanonicalHeaderKey ''X-Forwarded-Host'' = ''X-Forwarded-Host''"
  "CanonicalHeaderKey ''X-Forwarded-Proto'' = ''X-Forwarded-Proto''"
  "CanonicalHeaderKey ''X-Request-Id'' = ''X-Request-Id''"
  "CanonicalHeaderKey ''x-request-id'' = ''X-Request-Id''"
  by code_simp+

lemma SetXForwarded_lookup:
  "x \<notin> {''X-Forwarded-For'', ''X-Forwarded-Host'', ''X-Forwarded-Proto''} \<Longrightarrow>
   fmlookup (out_Header (SetXForwarded req out)) x = fmlookup (out_Header out) x"
  by (auto simp: SetXForwarded_def Let_def header_Set_def header_Del_def canonical_names split: option.split)

lemma standardRewrite_inv:
  assumes "standardRewrite E req out o' = (Inr out', o2)"
  obtains host where "url_host (TargetEndpoint (o_reqCtx o')) = Some host" and "out_Body out \<noteq> None"
    and "out' = rewritten E req host o' out"
proof -
  from assms obtain host where h: "url_host (TargetEndpoint (o_reqCtx o')) = Some host" and b: "out_Body out \<noteq> None"
    by (auto simp: standardRewrite_def run_simps updateOutgoingRequest_eq split: option.splits if_splits)
  with assms show ?thesis using that standardRewrite_eq [OF h b] by simp
qed

lemma loop_key:
  fixes o' :: orch
  defines "hs \<equiv> rc_Headers (o_reqCtx o')"
  assumes "orders_ok E" and "inj_on CanonicalHeaderKey (fset (fmdom hs))" and "fmlookup hs k = Some v"
  shows "fmlookup (update_headers E hs (range_order E t (fmdom hs)) h) (CanonicalHeaderKey k) =
    (if dropped_key E k then None else Some [v])"
proof (rule update_headers_key)
  have "is_order (fmdom hs) (range_order E t (fmdom hs))" using assms(2) by (simp add: orders_ok_def)
  then have ord: "set (range_order E t (fmdom hs)) = fset (fmdom hs)" and dist: "distinct (range_order E t (fmdom hs))"
    by (simp_all add: is_order_def)
  show "k \<in> set (range_order E t (fmdom hs))" using assms(4) by (simp add: ord fmdomI)
  show "inj_on CanonicalHeaderKey (set (range_order E t (fmdom hs)))" using assms(3) by (simp add: ord)
  show "distinct (range_order E t (fmdom hs))" by (rule dist)
  show "fmlookup hs k = Some v" by (rule assms(4))
qed

text \<open>An example: a context with a trace identifier, a forwarding address and a stale content length.\<close>

definition rewrite_env :: env where
  "rewrite_env = example_env (\<lambda>_. Inl '''') (\<lambda>_. None)"

definition rewrite_orch :: orch where
  "rewrite_orch = (let o' = NewOrchestration rewrite_env (example_request fmempty ''{}'') ''id'' new_response_writer 0
     in o'\<lparr>o_reqCtx := (o_reqCtx o')\<lparr>TargetEndpoint := ''10.0.0.1:8000'',
          rc_Headers := fmap_of_list [(''Traceparent'', ''t1''), (''X-Forwarded-For'', ''1.2.3.4''),
            (''content-length'', ''99'')]\<rparr>\<rparr>)"

definition rewrite_result :: out_request where
  "rewrite_result = rewritten rewrite_env (example_request fmempty ''{}'') ''10.0.0.1:8000'' rewrite_orch
     (clone_out (example_request fmempty ''{}''))"

lemma rewrite_run:
  "standardRewrite rewrite_env (example_request fmempty ''{}'') (clone_out (example_request fmempty ''{}'')) rewrite_orch =
     (Inr rewrite_result, after_update rewrite_orch)"
  unfolding rewrite_result_def
proof (rule standardRewrite_eq)
  have "url_host ''10.0.0.1:8000'' = Some ''10.0.0.1:8000''" by code_simp
  then show "url_host (TargetEndpoint (o_reqCtx rewrite_orch)) = Some ''10.0.0.1:8000''"
    by (simp add: rewrite_orch_def Let_def)
  show "out_Body (clone_out (example_request fmempty ''{}'')) \<noteq> None" by (simp add: clone_out_def example_request_def)
qed

lemma rewrite_orch_headers:
  "rc_Headers (o_reqCtx rewrite_orch) = fmap_of_list [(''Traceparent'', ''t1''), (''X-Forwarded-For'', ''1.2.3.4''),
     (''content-length'', ''99'')]"
  "rc_Body (o_reqCtx rewrite_orch) = Some fmempty"
  by (simp_all add: rewrite_orch_def Let_def NewOrchestration_def)

lemma rewrite_inj: "inj_on CanonicalHeaderKey (fset (fmdom (rc_Headers (o_reqCtx rewrite_orch))))"
proof -
  have "CanonicalHeaderKey ''Traceparent'' = ''Traceparent''" "CanonicalHeaderKey ''content-length'' = ''Content-Length''"
    by code_simp+
  then show ?thesis by (simp add: rewrite_orch_headers canonical_names)
qed

lemma rewrite_ok: "orders_ok rewrite_env"
  by (simp add: rewrite_env_def)

text \<open>
  C11: a request that is sent to a model server goes to the address the scheduler chose, carries the
  current body encoded as JSON, and announces its length truthfully, in the content length
  and in the header alike, whatever the client announced.
\<close>

theorem outgoing_body:
  assumes "standardRewrite E req out o' = (Inr out', o2)"
  shows "out_URLHost out' = TargetEndpoint (o_reqCtx o') \<and>
    out_Body out' = Some (case marshal_go_map (rc_Body (o_reqCtx o')) of None \<Rightarrow> '''' | Some b \<Rightarrow> b) \<and>
    out_ContentLength out' = int (length (the (out_Body out'))) \<and>
    fmlookup (out_Header out') ''Content-Length'' = Some [itoa (int (length (the (out_Body out'))))]"
proof -
  obtain host where h: "url_host (TargetEndpoint (o_reqCtx o')) = Some host"
    and o: "out' = rewritten E req host o' out" using standardRewrite_inv [OF assms] by metis
  have "host = TargetEndpoint (o_reqCtx o')" using h by (rule url_host_id)
  then show ?thesis
    by (simp add: o rewritten_def body_bytes_def SetXForwarded_lookup outgoing_header_def Let_def header_Set_def
        canonical_names)
qed

theorem outgoing_body_witness:
  "out_URLHost rewrite_result = ''10.0.0.1:8000'' \<and> out_Body rewrite_result = Some ''{}'' \<and>
   fmlookup (out_Header rewrite_result) ''Content-Length'' = Some [''2'']"
proof -
  have m: "marshal_go_map (Some fmempty) = Some ''{}''" and i: "itoa 2 = ''2''" by code_simp+
  show ?thesis
    using outgoing_body [OF rewrite_run] by (simp add: rewrite_orch_headers m i) (simp add: rewrite_orch_def Let_def)
qed



text \<open>
  C31: with two names that differ in case only the loop order decides.  After the P/D plugin has set
  \<open>x-request-id\<close>, a context that also holds the client's \<open>X-Request-Id\<close> has both, and there are
  two orders of the loop of which one sends the plugin's identifier and the other one the client's.
\<close>

theorem request_id_order_dependent:
  assumes "fmlookup hs ''X-Request-Id'' = Some client" and "fmlookup hs ''x-request-id'' = Some uuid"
    and "\<not> IsSystemOwnedHeader E ''X-Request-Id''" and "\<not> IsSystemOwnedHeader E ''x-request-id''"
  shows "\<exists>ks ks'. is_order (fmdom hs) ks \<and> is_order (fmdom hs) ks' \<and>
    header_Get (update_headers E hs ks h) ''x-request-id'' = uuid \<and>
    header_Get (update_headers E hs ks' h) ''x-request-id'' = client"
proof -
  let ?a = "''X-Request-Id''" and ?b = "''x-request-id''"
  obtain rest where rest: "set rest = fset (fmdom hs) - {?a, ?b}" "distinct rest"
    using finite_distinct_list [of "fset (fmdom hs) - {?a, ?b}"] by auto
  have mem: "?a \<in> fset (fmdom hs)" "?b \<in> fset (fmdom hs)" using assms(1,2) by (simp_all add: fmdomI)
  have "is_order (fmdom hs) (rest @ [?a, ?b])" "is_order (fmdom hs) (rest @ [?b, ?a])"
    using rest mem by (auto simp: is_order_def)
  moreover have "?a \<notin> EnvoyHeaders" "?b \<notin> EnvoyHeaders"
    by (simp_all add: EnvoyHeaders_def SchemeKey_def MethodKey_def PathKey_def to_lower_def)
  ultimately show ?thesis
    using assms
    by (intro exI [of _ "rest @ [?a, ?b]"] exI [of _ "rest @ [?b, ?a]"])
      (simp add: update_headers_append header_Get_def header_Set_def canonical_names)
qed

theorem request_id_order_dependent_witness:
  "\<exists>ks ks'. is_order (fmdom (fmap_of_list [(''X-Request-Id'', ''client''), (''x-request-id'', ''uuid'')])) ks \<and>
     is_order (fmdom (fmap_of_list [(''X-Request-Id'', ''client''), (''x-request-id'', ''uuid'')])) ks' \<and>
     header_Get (update_headers rewrite_env (fmap_of_list [(''X-Request-Id'', ''client''), (''x-request-id'', ''uuid'')])
       ks fmempty) ''x-request-id'' = ''uuid'' \<and>
     header_Get (update_headers rewrite_env (fmap_of_list [(''X-Request-Id'', ''client''), (''x-request-id'', ''uuid'')])
       ks' fmempty) ''x-request-id'' = ''client''"
  by (rule request_id_order_dependent) (simp_all add: rewrite_env_def example_env_def)

text \<open>
  A forwarding address the client made up reaches the model server: the reverse proxy removes it,
  the header loop puts it back, and the address of the client is then added to it.
\<close>

theorem forwarded_for_spoofed:
  assumes "standardRewrite E req out o' = (Inr out', o2)" and "orders_ok E"
    and "inj_on CanonicalHeaderKey (fset (fmdom (rc_Headers (o_reqCtx o'))))"
    and "fmlookup (rc_Headers (o_reqCtx o')) ''X-Forwarded-For'' = Some v"
    and "\<not> IsSystemOwnedHeader E ''X-Forwarded-For''" and "req_RemoteIP req = Some ip"
  shows "fmlookup (out_Header out') ''X-Forwarded-For'' = Some [v @ '', '' @ ip]"
proof -
  obtain host where o: "out' = rewritten E req host o' out" using standardRewrite_inv [OF assms(1)] by metis
  note loop_key [OF assms(2-4)]
  moreover have "\<not> dropped_key E ''X-Forwarded-For''"
    using assms(5) by (simp add: dropped_key_def EnvoyHeaders_def SchemeKey_def MethodKey_def PathKey_def to_lower_def)
  ultimately show ?thesis
    using assms(6)
    by (simp add: o rewritten_def SetXForwarded_def outgoing_header_def Let_def header_Set_def canonical_names
        header_values_def)
qed

theorem forwarded_for_spoofed_witness:
  "fmlookup (out_Header rewrite_result) ''X-Forwarded-For'' = Some [''1.2.3.4, 10.1.1.1'']"
  using forwarded_for_spoofed [OF rewrite_run rewrite_ok rewrite_inj, of "''1.2.3.4''" "''10.1.1.1''"]
  by (simp add: rewrite_orch_headers rewrite_env_def example_env_def example_request_def)

section \<open>Passing a response on\<close>

lemma standard_run:
  fixes E o' ctx host
  defines "s \<equiv> o'\<lparr>o_tick := Suc (o_tick o'), o_reqCtx := ctx\<rparr>"
  assumes "HandleRequest (env_director E) (o_tick o') (o_reqCtx o') = (ctx, None)"
    and "url_host (TargetEndpoint ctx) = Some host" and "workable E o'"
  shows "o_sent (snd (StandardProcessing E o')) = o_sent o' @ [(sent_request E host s, answer E host s)]"
    and "o_rw (snd (StandardProcessing E o')) = client_result (answer E host s) (o_rw o')"
    and "out_URLHost (sent_request E host s) = TargetEndpoint ctx"
    and "out_Body (sent_request E host s) = Some (case marshal_go_map (rc_Body ctx) of None \<Rightarrow> '''' | Some b \<Rightarrow> b)"
proof -
  have run: "StandardProcessing E o' = forward_to_client E s"
    using assms(2) by (simp add: StandardProcessing_def run_simps s_def)
  have w: "workable E s" using assms(4) by (simp add: workable_def s_def)
  have h: "url_host (TargetEndpoint (o_reqCtx s)) = Some host" using assms(3) by (simp add: s_def)
  have "host = TargetEndpoint ctx" using assms(3) by (rule url_host_id)
  then show "o_sent (snd (StandardProcessing E o')) = o_sent o' @ [(sent_request E host s, answer E host s)]"
    and "o_rw (snd (StandardProcessing E o')) = client_result (answer E host s) (o_rw o')"
    and "out_URLHost (sent_request E host s) = TargetEndpoint ctx"
    and "out_Body (sent_request E host s) = Some (case marshal_go_map (rc_Body ctx) of None \<Rightarrow> '''' | Some b \<Rightarrow> b)"
    using forward_run [OF w h] unfolding run by (simp_all add: s_def sent_request_simps body_bytes_def)
qed

lemma fresh_client_view:
  assumes "rw_Status w = None" and "rw_Body w = ''''"
  shows "client_sees (client_result a w) =
    (case a of None \<Rightarrow> (StatusBadGateway, '''') | Some r \<Rightarrow> (resp_Status r, concat (resp_Chunks r)))"
  using assms
  by (cases a) (simp_all add: client_result_def deliver_fresh, simp add: rw_WriteHeader_def client_sees_def)


definition standard_env :: env where
  "standard_env = example_env (\<lambda>_. Inl '''') (\<lambda>_. Some (example_response 200 ''ok''))"


text \<open>
  C25: a request the director refuses is answered with the status 500 and the text of its
  error, and nothing is sent.
\<close>

theorem standard_processing_error:
  assumes "HandleRequest (env_director E) (o_tick o') (o_reqCtx o') = (ctx, Some err)"
    and "\<forall>t. \<not> client_write_fails E t" and "rw_Status (o_rw o') = None" and "rw_Body (o_rw o') = ''''"
  shows "fst (StandardProcessing E o') = Inr () \<and>
    client_sees (o_rw (snd (StandardProcessing E o'))) = (500, err) \<and>
    o_sent (snd (StandardProcessing E o')) = o_sent o'"
  using assms by (simp add: StandardProcessing_def sendError_def run_simps rw_Write_def rw_WriteHeader_def client_sees_def)

definition refusing_env :: env where
  "refusing_env = rewrite_env\<lparr>env_director := (example_director (\<lambda>_. Inl ''''))\<lparr>HandleRequest := (\<lambda>t c. (c, Some ''no capacity''))\<rparr>\<rparr>"

theorem standard_processing_error_witness:
  "client_sees (o_rw (snd (StandardProcessing refusing_env rewrite_orch))) = (500, ''no capacity'')"
proof -
  have rw: "o_rw rewrite_orch = new_response_writer" by (simp add: rewrite_orch_def Let_def NewOrchestration_def)
  show ?thesis
    using standard_processing_error [of refusing_env rewrite_orch "o_reqCtx rewrite_orch" "''no capacity''"]
    by (simp add: refusing_env_def rewrite_env_def rw new_response_writer_def)
qed

text \<open>
  C15: the tee is faithful: when a body has been copied through it without an error, the copy kept for
  the accounting has grown by exactly the bytes of the chunks, in their order, and so has what was written
  to the client.
\<close>

theorem tee_same_bytes:
  assumes "\<not> isStreaming w" and "\<forall>t. \<not> client_write_fails E t"
    and "copy_chunks (copying_ops (client_ops E) (standardResponseHeaderHandler E) (standardStreamingHandler E)) cs
           (o', w) = (Inr False, (o2, w2))"
  shows "CopyingResponseWriter_Body w2 = CopyingResponseWriter_Body w @ concat cs \<and>
    rw_Body (o_rw o2) = rw_Body (o_rw o') @ concat cs \<and> \<not> isStreaming w2"
  using assms kept.copy_collects [OF _ assms(3)] passed_on.copy_collects [OF _ assms(3)] kept.copy_ready [OF _ assms(3)]
  by (simp add: CopyingResponseWriter_Body_def)

theorem tee_same_bytes_witness:
  "\<exists>o2 w2. copy_chunks (copying_ops (client_ops rewrite_env) (standardResponseHeaderHandler rewrite_env)
       (standardStreamingHandler rewrite_env)) [''ab'', ''c''] (rewrite_orch, NewCopyingResponseWriter) = (Inr False, (o2, w2)) \<and>
     CopyingResponseWriter_Body w2 = ''abc'' \<and> rw_Body (o_rw o2) = ''abc''"
proof -
  have s: "\<not> isStreaming NewCopyingResponseWriter" by (simp add: NewCopyingResponseWriter_def)
  have f: "\<forall>t. \<not> client_write_fails rewrite_env t" by (simp add: rewrite_env_def)
  have b: "rw_Body (o_rw rewrite_orch) = ''''" "CopyingResponseWriter_Body NewCopyingResponseWriter = ''''"
    by (simp_all add: rewrite_orch_def Let_def NewOrchestration_def new_response_writer_def
        CopyingResponseWriter_Body_def NewCopyingResponseWriter_def)
  show ?thesis
    using tee_same_bytes [OF s f tee_copy [OF s f, of "[''ab'', ''c'']" rewrite_orch]] tee_copy [OF s f, of "[''ab'', ''c'']" rewrite_orch]
    by (simp add: b)
qed

text \<open>
  C33: a streaming response is never noticed: the header names of a response are canonical, the code
  looks for \<open>content-type\<close>, so an event stream leaves the streaming flag as it was (unless the director
  itself changes it).
\<close>

theorem streaming_never_detected:
  assumes "wire_header h" and "orders_ok E"
    and "\<forall>t c. ModelServerStreaming (fst (HandleResponseReceived (env_director E) t c)) = ModelServerStreaming c"
  shows "fst (standardResponseHeaderHandler E status h o') = Inr () \<and>
    ModelServerStreaming (o_reqCtx (snd (standardResponseHeaderHandler E status h o'))) =
      ModelServerStreaming (o_reqCtx o')"
  using assms by (simp add: header_handler_eq record_response_def)

theorem streaming_never_detected_witness:
  "\<not> ModelServerStreaming (o_reqCtx (snd (standardResponseHeaderHandler rewrite_env 200
     (fmupd ''Content-Type'' [''text/event-stream''] fmempty) rewrite_orch)))"
proof -
  have c: "CanonicalHeaderKey ''Content-Type'' = ''Content-Type''" by code_simp
  have w: "wire_header (fmupd ''Content-Type'' [''text/event-stream''] fmempty)" by (simp add: wire_header_def c)
  have s: "\<not> ModelServerStreaming (o_reqCtx rewrite_orch)" by (simp add: rewrite_orch_def Let_def NewOrchestration_def)
  show ?thesis
    using streaming_never_detected [OF w rewrite_ok] s by (simp add: rewrite_env_def example_director_def)
qed

section \<open>Accounting\<close>

definition response_usage :: "go_map \<Rightarrow> usage \<Rightarrow> panic + usage" where
  "response_usage m old =
     (if is_nil (go_map_get m ''usage'') then Inr old
      else case assert_map (go_map_get m ''usage'') of Inl p \<Rightarrow> Inl p | Inr usg \<Rightarrow> parse_usage usg)"

lemma HandleResponseBody_eq:
  assumes "marshal_go_map m = Some bytes"
  shows "HandleResponseBody E m o' = (case response_usage m (rc_Usage (o_reqCtx o')) of
      Inl p \<Rightarrow> (Inl p, o')
    | Inr u \<Rightarrow> (case HandleResponseBodyComplete (env_director E) (o_tick o') ((o_reqCtx o')\<lparr>rc_Usage := u,
                    ResponseSize := int (length bytes), ResponseComplete := True\<rparr>) of
        (c, err) \<Rightarrow> (Inr (err \<noteq> None), o'\<lparr>o_reqCtx := c, o_tick := Suc (o_tick o')\<rparr>)))"
  by (cases "assert_map (go_map_get m ''usage'')"; cases "parse_usage (projr (assert_map (go_map_get m ''usage'')))")
    (simp_all add: HandleResponseBody_def response_usage_def assms run_simps split: prod.split)

lemma parse_usage_ok:
  assumes "fmlookup u ''prompt_tokens'' = Some (AFloat p)" and "fmlookup u ''completion_tokens'' = Some (AFloat c)"
    and "fmlookup u ''total_tokens'' = Some (AFloat t)" and "is_nil (fmlookup u ''prompt_token_details'')"
  shows "parse_usage u = Inr \<lparr>PromptTokens = int_of_float p, CompletionTokens = int_of_float c,
    TotalTokens = int_of_float t, PromptTokenDetails = None\<rparr>"
  using assms by (simp add: parse_usage_def Let_def)

text \<open>
  At the end of a response that is not streamed and whose usage can be read, the metrics are recorded
  with the values of the response, but the latency is recorded twice.
\<close>

theorem latency_recorded_twice:
  assumes "\<not> ModelServerStreaming (o_reqCtx o')" and "marshal_go_map (fst (unmarshal_map body None)) = Some bytes"
    and "response_usage (fst (unmarshal_map body None)) (rc_Usage (o_reqCtx o')) = Inr u"
    and "HandleResponseBodyComplete (env_director E) (o_tick o') ((o_reqCtx o')\<lparr>rc_Usage := u,
           ResponseSize := int (length bytes), ResponseComplete := True\<rparr>) = (c, None)"
    and "ResponseComplete c"
  shows "\<exists>o2. handleEndOfResponse E body o' = (Inr (), o2) \<and>
    (let m = IncomingModelName c; t = TargetModelName c;
         lat = RecordRequestLatencies m t (RequestReceivedTimestamp c) (time_Now E (Suc (o_tick o')))
     in o_metrics o2 = o_metrics o' @ [lat, RecordInputTokens m t (PromptTokens (rc_Usage c)),
          RecordOutputTokens m t (CompletionTokens (rc_Usage c)), RecordPromptCachedTokens m t (cached_tokens c),
          lat, RecordResponseSizes m t (ResponseSize c)])"
  using assms
  by (simp add: handleEndOfResponse_def run_simps HandleResponseBody_eq set_complete_timestamp_def record_latencies_def
      record_token_metrics_def cached_tokens_def Let_def)

theorem latency_recorded_twice_witness:
  "\<exists>o2. handleEndOfResponse rewrite_env ''{}'' rewrite_orch = (Inr (), o2) \<and>
     o_metrics o2 = [RecordRequestLatencies '''' '''' 0 1, RecordInputTokens '''' '''' 0, RecordOutputTokens '''' '''' 0,
       RecordPromptCachedTokens '''' '''' 0, RecordRequestLatencies '''' '''' 0 1, RecordResponseSizes '''' '''' 2]"
proof -
  have u: "unmarshal_map ''{}'' None = (Some fmempty, False)" and m: "marshal_go_map (Some fmempty) = Some ''{}''"
    by code_simp+
  have c: "\<not> ModelServerStreaming (o_reqCtx rewrite_orch)" "rc_Usage (o_reqCtx rewrite_orch) = zero_usage"
    "IncomingModelName (o_reqCtx rewrite_orch) = ''''" "TargetModelName (o_reqCtx rewrite_orch) = ''''"
    "RequestReceivedTimestamp (o_reqCtx rewrite_orch) = 0" "o_metrics rewrite_orch = []" "o_tick rewrite_orch = 0"
    by (simp_all add: rewrite_orch_def Let_def NewOrchestration_def)
  have r: "response_usage (Some fmempty) zero_usage = Inr zero_usage"
    by (simp add: response_usage_def is_nil_def go_map_get_def)
  have b: "marshal_go_map (fst (unmarshal_map ''{}'' None)) = Some ''{}''" by (simp add: u m)
  have v: "response_usage (fst (unmarshal_map ''{}'' None)) (rc_Usage (o_reqCtx rewrite_orch)) = Inr zero_usage"
    by (simp add: u c r)
  have d: "HandleResponseBodyComplete (env_director rewrite_env) t x = (x, None)" and n: "time_Now rewrite_env = int" for t x
    by (simp_all add: rewrite_env_def example_env_def example_director_def)
  show ?thesis
    using latency_recorded_twice [OF c(1) b v d] by (simp add: c n Let_def cached_tokens_def zero_usage_def)
qed


definition zero_count_usage :: "(string, any) fmap" where
  "zero_count_usage = fmap_of_list [(''prompt_tokens'', AFloat (Fin False 0)), (''completion_tokens'', AFloat (Fin False 0)),
     (''total_tokens'', AFloat (Fin False 0))]"


text \<open>
  C29: a usage of another shape panics: when the usage of the response is not an object, or one of its three
  counts is missing or is not a number, handling the response ends in a failed type assertion.
\<close>

theorem malformed_usage_panics:
  assumes "marshal_go_map (Some m) = Some bytes" and "fmlookup m ''usage'' = Some v" and "v \<noteq> ANil"
    and "\<forall>u. v = AMap u \<longrightarrow> (\<exists>f \<in> {''prompt_tokens'', ''completion_tokens'', ''total_tokens''}.
           \<forall>x. fmlookup u f \<noteq> Some (AFloat x))"
  shows "HandleResponseBody E (Some m) o' = (Inl BadTypeAssertion, o')"
proof -
  have af: "(\<forall>x. a \<noteq> Some (AFloat x)) \<Longrightarrow> assert_float a = Inl BadTypeAssertion" for a
    by (cases a rule: assert_float.cases) auto
  have afs: "assert_float a = Inl BadTypeAssertion \<or> (\<exists>i. assert_float a = Inr i)" for a
    by (cases a rule: assert_float.cases) auto
  have "response_usage (Some m) old = Inl BadTypeAssertion" for old
  proof (cases v)
    case (AMap u)
    with assms(4) obtain f where f: "f \<in> {''prompt_tokens'', ''completion_tokens'', ''total_tokens''}"
      "assert_float (fmlookup u f) = Inl BadTypeAssertion" using af by blast
    then have "parse_usage u = Inl BadTypeAssertion"
      using afs [of "fmlookup u ''prompt_tokens''"] afs [of "fmlookup u ''completion_tokens''"]
      by (auto simp: parse_usage_def)
    with AMap assms(2) show ?thesis by (simp add: response_usage_def go_map_get_def is_nil_def)
  qed (use assms(2,3) in \<open>simp_all add: response_usage_def go_map_get_def is_nil_def\<close>)
  then show ?thesis by (simp add: HandleResponseBody_eq [OF assms(1)])
qed

theorem malformed_usage_panics_witness:
  "fst (HandleResponseBody rewrite_env (Some (fmupd ''usage'' (AString ''n/a'') fmempty)) rewrite_orch) = Inl BadTypeAssertion"
proof -
  have m: "marshal_go_map (Some (fmupd ''usage'' (AString ''n/a'') fmempty)) \<noteq> None" by code_simp
  then obtain b where b: "marshal_go_map (Some (fmupd ''usage'' (AString ''n/a'') fmempty)) = Some b" by auto
  show ?thesis using malformed_usage_panics [OF b, of "AString ''n/a''" rewrite_env rewrite_orch] by simp
qed

end
