(* ===== verification/Proxy_Handler.thy ===== *)
theory Proxy_Handler
  imports PD_Orchestration Orchestration_Correct
begin

text \<open>
  The HTTP handler (pkg/handlers/proxy.go): it names the request, prepares it and hands it
  to the orchestration plugin, or to the standard processing when there is none.
\<close>

record inferenceProxy =
  ip_orchestrator :: "PdOrchestration option"

definition NewProxy :: "PdOrchestration option \<Rightarrow> inferenceProxy" where
  "NewProxy orchestrator = \<lparr>ip_orchestrator = orchestrator\<rparr>"

definition request_id :: "env \<Rightarrow> http_request \<Rightarrow> nat \<Rightarrow> string \<times> nat" where
  "request_id E req t =
     (let requestID = header_Get (req_Header req) (RequestIdHeaderKey E)
      in if length requestID = 0 then (NewString E t, Suc t) else (requestID, t))"

text \<open>\<open>sendError\<close> of the handlers package, a copy of the one of the orchestrations package.\<close>

definition handlers_sendError :: "env \<Rightarrow> string \<Rightarrow> (orch, unit) go" where
  "handlers_sendError E err =
     go_then (client_WriteHeader 500) (go_then (client_Write E err) (go_return ()))"

lemma handlers_sendError_eq [simp]: "handlers_sendError = sendError"
  by (intro ext) (simp add: handlers_sendError_def sendError_def)

text \<open>
  \<open>ServeHTTP\<close> of one request, from the client's writer to the final state.  The error that
  \<open>Orchestrate\<close> returns is not used.
\<close>

definition serve_body :: "env \<Rightarrow> inferenceProxy \<Rightarrow> (orch, unit) go" where
  "serve_body E ip =
     go_bind (PrepareRequest E) (\<lambda>err. case err of
       Some e \<Rightarrow> handlers_sendError E (Error_text E e)
     | None \<Rightarrow>
         (case ip_orchestrator ip of
            None \<Rightarrow> StandardProcessing E
          | Some orchestrator \<Rightarrow> go_then (Orchestrate E orchestrator) (go_return ())))"

definition ServeHTTP :: "env \<Rightarrow> inferenceProxy \<Rightarrow> response_writer \<Rightarrow> http_request \<Rightarrow> (panic + unit) \<times> orch" where
  "ServeHTTP E ip rw origReq =
     (let (requestID, t) = request_id E origReq 0
      in serve_body E ip (NewOrchestration E origReq requestID rw t))"

section \<open>A request that is prepared\<close>

lemma prepared_ok:
  assumes "wire_header (req_Header req)" and "distinct_keys E" and "orders_ok E"
    and "req_Body req = (body, False)" and "unmarshal_map body (Some fmempty) = (m, False)"
  obtains o2 where "PrepareRequest E (NewOrchestration E req rid w t) = (Inr None, o2)"
    and "o_req o2 = req" and "o_rw o2 = w" and "o_sent o2 = []" and "rc_Body (o_reqCtx o2) = m"
proof -
  let ?n = "NewOrchestration E req rid w t"
  have n: "o_req ?n = req" "rc_Body (o_reqCtx ?n) = Some fmempty" "o_sent ?n = []" "o_rw ?n = w"
    by (simp_all add: NewOrchestration_def)
  have w: "wire_header (req_Header (o_req ?n))" using assms(1) n by simp
  show ?thesis
    using assms(4,5) that unfolding PrepareRequest_eq [OF w assms(2,3)]
    by (auto simp: n Let_def prepared_ctx_def)
qed

lemma prepared_bad:
  assumes "wire_header (req_Header req)" and "distinct_keys E" and "orders_ok E"
    and "snd (req_Body req) \<or> snd (unmarshal_map (fst (req_Body req)) (Some fmempty))"
  obtains o2 where "PrepareRequest E (NewOrchestration E req rid w t) =
      (Inr (Some \<lparr>err_Code = BadRequest E, err_Msg = ''Error unmarshaling request body''\<rparr>), o2)"
    and "o_rw o2 = w" and "o_sent o2 = []"
proof -
  let ?n = "NewOrchestration E req rid w t"
  have n: "o_req ?n = req" "rc_Body (o_reqCtx ?n) = Some fmempty" "o_sent ?n = []" "o_rw ?n = w"
    by (simp_all add: NewOrchestration_def)
  have w: "wire_header (req_Header (o_req ?n))" using assms(1) n by simp
  obtain body re where b: "req_Body req = (body, re)" by (cases "req_Body req")
  obtain m ue where u: "unmarshal_map body (Some fmempty) = (m, ue)" by (cases "unmarshal_map body (Some fmempty)")
  show ?thesis
    using assms(4) that unfolding PrepareRequest_eq [OF w assms(2,3)]
    by (cases re; cases ue) (auto simp: n b u Let_def prepared_ctx_def)
qed

section \<open>Properties\<close>

text \<open>
  C26: a request whose body cannot be read or is not a JSON object or null is answered with the
  status 500 and the text of the bad-request error; no model server sees it.
\<close>

theorem bad_body_answered:
  assumes "wire_header (req_Header req)" and "distinct_keys E" and "orders_ok E"
    and "snd (req_Body req) \<or> snd (unmarshal_map (fst (req_Body req)) (Some fmempty))"
    and "\<forall>t. \<not> client_write_fails E t"
  shows "fst (ServeHTTP E ip new_response_writer req) = Inr () \<and>
    client_sees (o_rw (snd (ServeHTTP E ip new_response_writer req))) =
      (500, Error_text E \<lparr>err_Code = BadRequest E, err_Msg = ''Error unmarshaling request body''\<rparr>) \<and>
    o_sent (snd (ServeHTTP E ip new_response_writer req)) = []"
proof -
  obtain rid t where r: "request_id E req 0 = (rid, t)" by (cases "request_id E req 0")
  obtain o2 where "PrepareRequest E (NewOrchestration E req rid new_response_writer t) =
      (Inr (Some \<lparr>err_Code = BadRequest E, err_Msg = ''Error unmarshaling request body''\<rparr>), o2)"
    and "o_rw o2 = new_response_writer" and "o_sent o2 = []"
    using prepared_bad [OF assms(1-4)] by metis
  then show ?thesis
    using assms(5)
    by (simp add: ServeHTTP_def r serve_body_def go_bind_def sendError_def run_simps new_response_writer_def rw_Write_def
        rw_WriteHeader_def client_sees_def)
qed

theorem bad_body_answered_witness:
  "client_sees (o_rw (snd (ServeHTTP pd_env (NewProxy None) new_response_writer (example_request fmempty ''[]'')))) =
     (500, ''Error unmarshaling request body'')"
proof -
  have u: "snd (unmarshal_map ''[]'' (Some fmempty))" by code_simp
  have e: "Error_text pd_env = err_Msg" by (simp add: pd_env_def example_env_def)
  show ?thesis
    using bad_body_answered [of "example_request fmempty ''[]''" pd_env "NewProxy None"] u
    by (simp add: example_request_def pd_env_def example_keys e [unfolded pd_env_def])
qed

text \<open>
  C30: the error the plugin returns is dropped by the handler: when no decode worker is available
  the client gets an empty response with the status 200, and no model server sees the request.
\<close>

theorem no_decode_worker_looks_like_success:
  assumes "wire_header (req_Header req)" and "distinct_keys E" and "orders_ok E"
    and "req_Body req = (body, False)" and "unmarshal_map body (Some fmempty) = (m, False)"
    and "\<not> po_deferredDecode p"
    and "\<forall>t c. \<exists>c'. HandleRequestHelper (env_director E) t c [po_prefillProfile p, po_decodeProfile p] = (c', Inr res)"
    and "run_result res (po_decodeProfile p) = None"
  shows "fst (ServeHTTP E (NewProxy (Some p)) new_response_writer req) = Inr () \<and>
    client_sees (o_rw (snd (ServeHTTP E (NewProxy (Some p)) new_response_writer req))) = (200, '''') \<and>
    o_sent (snd (ServeHTTP E (NewProxy (Some p)) new_response_writer req)) = []"
proof -
  obtain rid t where r: "request_id E req 0 = (rid, t)" by (cases "request_id E req 0")
  obtain o2 where o2: "PrepareRequest E (NewOrchestration E req rid new_response_writer t) = (Inr None, o2)"
    "o_rw o2 = new_response_writer" "o_sent o2 = []" using prepared_ok [OF assms(1-5)] by metis
  obtain c' where c: "HandleRequestHelper (env_director E) (o_tick o2) (o_reqCtx o2)
      [po_prefillProfile p, po_decodeProfile p] = (c', Inr res)" using assms(7) by blast
  show ?thesis
    using o2
    by (simp add: ServeHTTP_def r serve_body_def go_bind_def NewProxy_def go_simps
        nonDeferred_no_decode [OF assms(6) c assms(8)] client_sees_def new_response_writer_def StatusOK_def)
qed

theorem no_decode_worker_looks_like_success_witness:
  "client_sees (o_rw (snd (ServeHTTP (example_env (\<lambda>_. Inr (example_result [])) example_network)
     (NewProxy (Some (example_pd False))) new_response_writer (example_request fmempty ''{}'')))) = (200, '''')"
proof -
  have u: "unmarshal_map ''{}'' (Some fmempty) = (Some fmempty, False)" by code_simp
  show ?thesis
    using no_decode_worker_looks_like_success [OF _ example_keys _ _ u, of "example_request fmempty ''{}''"
        "\<lambda>_. Inr (example_result [])" example_network "example_pd False" "example_result []"]
    by (simp add: example_request_def example_pd_def NewPdOrchestration_def run_result_def example_result_def)
qed



end
