(* ===== verification/Pre_Request.thy ===== *)
theory Pre_Request
  imports Profile_Handlers
begin

text \<open>
  The pre-request plugin that tells a routing sidecar which worker does the prefill
  (pkg/plugins/pre-request/pd\_prerequest.go).
\<close>

definition PrefillHeaderHandlerType :: string where
  "PrefillHeaderHandlerType = ''prefill-header-handler''"

record prefillHeaderHandlerParameters =
  phhp_PrefillProfile :: string

record PrefillHeaderHandler =
  phh_typedName :: typed_name
  phh_prefillProfile :: string

definition NewPrefillHeaderHandler :: "string \<Rightarrow> PrefillHeaderHandler" where
  "NewPrefillHeaderHandler prefillProfile =
     \<lparr>phh_typedName = \<lparr>tn_Type = PrefillHeaderHandlerType, tn_Name = ''''\<rparr>,
      phh_prefillProfile = prefillProfile\<rparr>"

definition PrefillHeaderHandler_TypedName :: "PrefillHeaderHandler \<Rightarrow> typed_name" where
  "PrefillHeaderHandler_TypedName p = phh_typedName p"

definition PrefillHeaderHandler_WithName :: "string \<Rightarrow> PrefillHeaderHandler \<Rightarrow> PrefillHeaderHandler" where
  "PrefillHeaderHandler_WithName name p = p\<lparr>phh_typedName := (phh_typedName p)\<lparr>tn_Name := name\<rparr>\<rparr>"

interpretation phh_name: named_plugin PrefillHeaderHandler_TypedName PrefillHeaderHandler_WithName
    phh_prefillProfile
  by unfold_locales (simp_all add: PrefillHeaderHandler_TypedName_def PrefillHeaderHandler_WithName_def)

definition prefillHeaderHandler_fields :: "prefillHeaderHandlerParameters field_decoder list" where
  "prefillHeaderHandler_fields =
     [(''prefillProfile'', \<lambda>v p. map_option (\<lambda>s. p\<lparr>phhp_PrefillProfile := s\<rparr>) (json_string v))]"

definition PrefillHeaderHandlerFactory ::
  "string \<Rightarrow> string option \<Rightarrow> config_error + PrefillHeaderHandler" where
  "PrefillHeaderHandlerFactory name rawParameters =
     (let parameters0 = \<lparr>phhp_PrefillProfile = defaultPrefillProfile\<rparr>
      in case (case rawParameters of None \<Rightarrow> Some parameters0
               | Some raw \<Rightarrow> unmarshal_struct prefillHeaderHandler_fields raw parameters0) of
           None \<Rightarrow> Inl (ParseFailed PrefillHeaderHandlerType)
         | Some parameters \<Rightarrow>
             Inr (PrefillHeaderHandler_WithName name
                    (NewPrefillHeaderHandler (phhp_PrefillProfile parameters))))"

text \<open>
  \<open>PreRequest\<close>, with the headers of the request as its state.  An entry that is present
  but nil is dereferenced.
\<close>

definition PreRequest :: "PrefillHeaderHandler \<Rightarrow> scheduling_result \<Rightarrow> ((string, string) fmap, unit) go" where
  "PreRequest p schedulingResult =
     go_then (go_modify (\<lambda>hs. if fmlookup hs PrefillPodHeader \<noteq> None
                              then fmupd PrefillPodHeader '''' hs else hs))
       (case fmlookup (ProfileResults schedulingResult) (phh_prefillProfile p) of
          None \<Rightarrow> go_return ()
        | Some None \<Rightarrow> go_panic NilDeref
        | Some (Some r) \<Rightarrow>
            go_bind (go_lift (first (TargetEndpoints r))) (\<lambda>e.
              go_modify (fmupd PrefillPodHeader
                (JoinHostPort (md_Address (ep_Metadata e)) (md_Port (ep_Metadata e))))))"

section \<open>Properties\<close>

text \<open>
  C22: the prefill header never carries a value of the client: afterwards it is the address of the first
  endpoint of the prefill run if there was one, empty if there was none and the client had
  sent the header, and absent otherwise; all other headers are as before.
\<close>

theorem prefill_header:
  assumes "\<forall>r. fmlookup (ProfileResults res) (phh_prefillProfile p) = Some r \<longrightarrow>
             (\<exists>e es. r = Some \<lparr>TargetEndpoints = e # es\<rparr>)"
  shows "\<exists>hs'. PreRequest p res hs = (Inr (), hs') \<and>
    fmlookup hs' PrefillPodHeader = (case fmlookup (ProfileResults res) (phh_prefillProfile p) of
        Some (Some r) \<Rightarrow> (case first (TargetEndpoints r) of
            Inr e \<Rightarrow> Some (JoinHostPort (md_Address (ep_Metadata e)) (md_Port (ep_Metadata e)))
          | Inl _ \<Rightarrow> None)
      | _ \<Rightarrow> if fmlookup hs PrefillPodHeader = None then None else Some '''') \<and>
    (\<forall>k. k \<noteq> PrefillPodHeader \<longrightarrow> fmlookup hs' k = fmlookup hs k)"
proof (cases "fmlookup (ProfileResults res) (phh_prefillProfile p)")
  case None
  then show ?thesis by (simp add: PreRequest_def go_simps go_bind_def)
next
  case (Some r)
  then obtain e es where "r = Some \<lparr>TargetEndpoints = e # es\<rparr>" using assms by blast
  with Some show ?thesis by (simp add: PreRequest_def go_simps go_bind_def)
qed

definition prefill_only_result :: scheduling_result where
  "prefill_only_result = \<lparr>ProfileResults = fmupd ''prefill'' (Some \<lparr>TargetEndpoints = [\<lparr>ep_Metadata =
     \<lparr>md_NamespacedName = (''ns'', ''p0''), md_PodName = ''p0'', md_Address = ''fd00::1'', md_Port = ''8000'',
      md_Labels = fmempty\<rparr>, ep_Metrics = 0, ep_Attributes = None\<rparr>]\<rparr>) fmempty, PrimaryProfileName = ''decode''\<rparr>"

theorem prefill_header_witness:
  "\<exists>hs'. PreRequest (NewPrefillHeaderHandler ''prefill'') prefill_only_result (fmupd PrefillPodHeader ''evil:1'' fmempty) =
      (Inr (), hs') \<and> fmlookup hs' PrefillPodHeader = Some ''[fd00::1]:8000''"
proof -
  have j: "JoinHostPort ''fd00::1'' ''8000'' = ''[fd00::1]:8000''" by code_simp
  show ?thesis
    using prefill_header [of prefill_only_result "NewPrefillHeaderHandler ''prefill''" "fmupd PrefillPodHeader ''evil:1'' fmempty"] j
    by (auto simp: prefill_only_result_def NewPrefillHeaderHandler_def)
qed

text \<open>
  C23: on a result of the P/D profile handler the plugin never panics, provided runs that succeed have an
  endpoint: a prefill run that failed, or was not made, has no entry in the result.
\<close>

theorem prefill_header_after_pd:
  assumes "PdProfileHandler_ProcessResults h results hs = (Inr (Inr res), hs')"
    and "\<forall>k r. fmlookup results k = Some (Some r) \<longrightarrow> TargetEndpoints r \<noteq> []"
  shows "fst (PreRequest p res hs2) = Inr ()"
proof -
  have ok: "\<exists>r e. x = Some r \<and> first (TargetEndpoints r) = Inr e"
    if "fmlookup (ProfileResults res) k = Some x" for k x
  proof -
    obtain d where d: "fmlookup results (ph_decodeProfile h) = Some (Some d)"
      using assms(1) by (auto simp: PdProfileHandler_ProcessResults_def go_simps split: option.splits)
    then have "TargetEndpoints d \<noteq> []" using assms(2) by blast
    then obtain e es where "TargetEndpoints d = e # es" by (cases "TargetEndpoints d") auto
    with d that assms show ?thesis
      by (cases "fmlookup results (ph_prefillProfile h)"; cases "the (fmlookup results (ph_prefillProfile h))";
          cases "TargetEndpoints (the (the (fmlookup results (ph_prefillProfile h))))")
        (auto simp: PdProfileHandler_ProcessResults_def go_simps go_bind_def Let_def split: if_splits)
  qed
  show ?thesis
  proof (cases "fmlookup (ProfileResults res) (phh_prefillProfile p)")
    case None
    then show ?thesis by (simp add: PreRequest_def go_simps go_bind_def)
  next
    case (Some x)
    then obtain r e where "x = Some r" "first (TargetEndpoints r) = Inr e" using ok by blast
    with Some show ?thesis by (simp add: PreRequest_def go_simps go_bind_def)
  qed
qed

theorem prefill_header_after_pd_witness:
  "\<exists>res. PdProfileHandler_ProcessResults (example_handler 5) (fmupd ''prefill'' None example_decode_result) fmempty =
      (Inr (Inr res), fmempty) \<and> fst (PreRequest (NewPrefillHeaderHandler ''prefill'') res fmempty) = Inr ()"
proof -
  let ?rs = "fmupd ''prefill'' None example_decode_result"
  obtain res where r: "PdProfileHandler_ProcessResults (example_handler 5) ?rs fmempty = (Inr (Inr res), fmempty)"
    by (simp add: PdProfileHandler_ProcessResults_def example_decode_result_def go_simps go_bind_def Let_def
        example_handler_def NewPdProfileHandler_def)
  have "\<forall>k r. fmlookup ?rs k = Some (Some r) \<longrightarrow> TargetEndpoints r \<noteq> []"
    by (auto simp: example_decode_result_def split: if_splits)
  then show ?thesis using prefill_header_after_pd [OF r] r by blast
qed

text \<open>
  The profile handler used with orchestrations copies a failed run into the result as a nil entry; on such
  a result the plugin dereferences nil, although its comment counts a failed prefill run
  among the cases in which it does nothing.
\<close>

theorem prefill_header_panics_on_failed_run:
  assumes "OrchestrationProfileHandler_ProcessResults o' results = Inr res"
    and "fmlookup results (phh_prefillProfile p) = Some None"
  shows "fst (PreRequest p res hs) = Inl NilDeref"
  using assms by (auto simp: OrchestrationProfileHandler_ProcessResults_def PreRequest_def go_simps go_bind_def)

theorem prefill_header_panics_on_failed_run_witness:
  "fst (PreRequest (NewPrefillHeaderHandler ''prefill'')
     \<lparr>ProfileResults = fmupd ''prefill'' None fmempty, PrimaryProfileName = ''''\<rparr> fmempty) = Inl NilDeref"
  by (rule prefill_header_panics_on_failed_run [of NewOrchestrationProfileHandler "fmupd ''prefill'' None fmempty"])
    (simp_all add: OrchestrationProfileHandler_ProcessResults_def NewPrefillHeaderHandler_def)

end
