(* ===== verification/Server.thy ===== *)
theory Server
  imports Prelude
begin

text \<open>
  The server (pkg/server): leader election wrappers (leader\_election.go), the self-signed
  certificate (tls.go), the choice of the TLS configuration and the life cycle of the HTTP
  server (runserver.go).

  Cryptography, key files and the network are parameters.  The life cycle is a step
  relation, because the goroutine that waits for the end of the context runs beside the
  serving loop.
\<close>

section \<open>Leader election\<close>

record 'r leaderElection =
  le_Runnable :: 'r
  le_needsLeaderElection :: bool

definition LeaderElection :: "'r \<Rightarrow> bool \<Rightarrow> 'r leaderElection" where
  "LeaderElection runnable needsLeaderElection =
     \<lparr>le_Runnable = runnable, le_needsLeaderElection = needsLeaderElection\<rparr>"

definition RequireLeaderElection :: "'r \<Rightarrow> 'r leaderElection" where
  "RequireLeaderElection runnable = LeaderElection runnable True"

definition NoLeaderElection :: "'r \<Rightarrow> 'r leaderElection" where
  "NoLeaderElection runnable = LeaderElection runnable False"

definition NeedLeaderElection :: "'r leaderElection \<Rightarrow> bool" where
  "NeedLeaderElection r = le_needsLeaderElection r"

section \<open>The self-signed certificate\<close>

text \<open>Times are nanoseconds; a duration is a 64-bit number of them.\<close>

definition time_Hour :: int where "time_Hour = 3600 * 10 ^ 9"

datatype key_usage = KeyEncipherment | DigitalSignature
datatype ext_key_usage = ServerAuth

record x509_template =
  SerialNumber :: int
  Organization :: "string list"
  NotBefore :: int
  NotAfter :: int
  KeyUsage :: "key_usage set"
  ExtKeyUsage :: "ext_key_usage list"
  BasicConstraintsValid :: bool

record ('key, 'cert) crypto =
  rand_Int :: "int \<Rightarrow> string + int"
  crypto_Now :: int
  rsa_GenerateKey :: "nat \<Rightarrow> string + 'key"
  x509_CreateCertificate :: "x509_template \<Rightarrow> x509_template \<Rightarrow> 'key \<Rightarrow> string + string"
  x509_MarshalPKCS8PrivateKey :: "'key \<Rightarrow> string + string"
  pem_EncodeToMemory :: "string \<Rightarrow> string \<Rightarrow> string"
  tls_X509KeyPair :: "string \<Rightarrow> string \<Rightarrow> string + 'cert"

datatype cert_error =
    SerialError string
  | KeyError string
  | CreateError string
  | MarshalError string
  | KeyPairError string

definition serialNumberLimit :: int where
  "serialNumberLimit = 2 ^ 128"

definition cert_template :: "int \<Rightarrow> int \<Rightarrow> x509_template" where
  "cert_template serialNumber now =
     \<lparr>SerialNumber = serialNumber, Organization = [''Inference Ext''], NotBefore = now,
      NotAfter = now + wrap64 (wrap64 (wrap64 (time_Hour * 24) * 365) * 10),
      KeyUsage = {KeyEncipherment, DigitalSignature}, ExtKeyUsage = [ServerAuth],
      BasicConstraintsValid = True\<rparr>"

definition CreateSelfSignedTLSCertificate :: "('key, 'cert) crypto \<Rightarrow> cert_error + 'cert" where
  "CreateSelfSignedTLSCertificate K = (case rand_Int K serialNumberLimit of
     Inl e \<Rightarrow> Inl (SerialError e)
   | Inr serialNumber \<Rightarrow>
       let tmpl = cert_template serialNumber (crypto_Now K)
       in case rsa_GenerateKey K 4096 of
            Inl e \<Rightarrow> Inl (KeyError e)
          | Inr priv \<Rightarrow> (case x509_CreateCertificate K tmpl tmpl priv of
              Inl e \<Rightarrow> Inl (CreateError e)
            | Inr derBytes \<Rightarrow>
                let certBytes = pem_EncodeToMemory K ''CERTIFICATE'' derBytes
                in case x509_MarshalPKCS8PrivateKey K priv of
                     Inl e \<Rightarrow> Inl (MarshalError e)
                   | Inr privBytes \<Rightarrow>
                       let keyBytes = pem_EncodeToMemory K ''PRIVATE KEY'' privBytes
                       in case tls_X509KeyPair K certBytes keyBytes of
                            Inl e \<Rightarrow> Inl (KeyPairError e)
                          | Inr cert \<Rightarrow> Inr cert))"

lemma cert_validity: "NotAfter (cert_template n now) = NotBefore (cert_template n now) + 3650 * 24 * time_Hour"
  by (simp add: cert_template_def time_Hour_def wrap64_def)

section \<open>The TLS configuration\<close>

record HttpServerRunner =
  hsr_GrpcPort :: int
  hsr_SecureServing :: bool
  hsr_HealthChecking :: bool
  hsr_CertPath :: string
  hsr_EnableCertReload :: bool
  hsr_UseExperimentalDatalayerV2 :: bool

datatype ('cert, 'rel) tls_config = Certificates "'cert list" | GetCertificate 'rel

datatype run_error =
    SelfSignedFailed
  | ReloaderFailed string
  | ListenFailed string
  | ServeFailed string

text \<open>
  The TLS part of \<open>AsRunnable\<close>: no configuration when serving is not secure, otherwise the
  key pair of the certificate path, reloaded on change if asked for, or a self-signed
  certificate when there is no path.
\<close>

definition tls_setup ::
  "('key, 'cert) crypto \<Rightarrow> (string \<Rightarrow> string \<Rightarrow> string + 'cert) \<Rightarrow> (string \<Rightarrow> 'cert \<Rightarrow> string + 'rel) \<Rightarrow>
   HttpServerRunner \<Rightarrow> run_error + ('cert, 'rel) tls_config option" where
  "tls_setup K LoadX509KeyPair NewCertReloader r =
     (if \<not> hsr_SecureServing r then Inr None
      else
        case (if hsr_CertPath r \<noteq> ''''
              then (case LoadX509KeyPair (hsr_CertPath r @ ''/tls.crt'') (hsr_CertPath r @ ''/tls.key'') of
                      Inl _ \<Rightarrow> None | Inr c \<Rightarrow> Some c)
              else (case CreateSelfSignedTLSCertificate K of Inl _ \<Rightarrow> None | Inr c \<Rightarrow> Some c)) of
          None \<Rightarrow> Inl SelfSignedFailed
        | Some cert \<Rightarrow>
            if hsr_CertPath r \<noteq> '''' \<and> hsr_EnableCertReload r then
              (case NewCertReloader (hsr_CertPath r) cert of
                 Inl e \<Rightarrow> Inl (ReloaderFailed e)
               | Inr reloader \<Rightarrow> Inr (Some (GetCertificate reloader)))
            else Inr (Some (Certificates [cert])))"

text \<open>
  The server \<open>AsRunnable\<close> starts, or the error it returns before there is one: the TLS
  configuration, the handler, the port and whether it serves with \<open>ServeTLS\<close>.
\<close>

record ('cert, 'rel, 'h) http_server =
  srv_TLSConfig :: "('cert, 'rel) tls_config option"
  srv_Handler :: 'h
  srv_Port :: int
  srv_UsingTLS :: bool

definition runnable_start ::
  "('key, 'cert) crypto \<Rightarrow> (string \<Rightarrow> string \<Rightarrow> string + 'cert) \<Rightarrow> (string \<Rightarrow> 'cert \<Rightarrow> string + 'rel) \<Rightarrow>
   HttpServerRunner \<Rightarrow> 'h \<Rightarrow> run_error + ('cert, 'rel, 'h) http_server" where
  "runnable_start K LoadX509KeyPair NewCertReloader r handler =
     (case tls_setup K LoadX509KeyPair NewCertReloader r of
        Inl err \<Rightarrow> Inl err
      | Inr tlsConfig \<Rightarrow> Inr \<lparr>srv_TLSConfig = tlsConfig, srv_Handler = handler, srv_Port = hsr_GrpcPort r,
          srv_UsingTLS = hsr_SecureServing r\<rparr>)"

lemma tls_setup_cases:
  "case tls_setup K L N r of Inl _ \<Rightarrow> hsr_SecureServing r | Inr cfg \<Rightarrow> (cfg \<noteq> None) = hsr_SecureServing r"
  by (auto simp: tls_setup_def split: option.splits sum.splits)

section \<open>The life cycle of the HTTP server\<close>

text \<open>
  \<open>HttpServer(...)\<close>: the main part listens, serves and returns; the goroutine it starts
  waits for the context or for the closing of \<open>doneCh\<close>.  \<open>Serve\<close> returns \<open>ErrServerClosed\<close> as soon
  as \<open>Shutdown\<close> has been called; \<open>Shutdown\<close> itself returns once no connection is left.
\<close>

datatype main_phase = Starting | Serving | Returned "run_error option"
datatype go_phase = NotStarted | Selecting | InShutdown | Exited

record server_state =
  ss_main :: main_phase
  ss_go :: go_phase
  ss_ctxDone :: bool
  ss_doneClosed :: bool
  ss_closed :: bool
  ss_conns :: nat

definition server_init :: server_state where
  "server_init = \<lparr>ss_main = Starting, ss_go = NotStarted, ss_ctxDone = False,
     ss_doneClosed = False, ss_closed = False, ss_conns = 0\<rparr>"

inductive server_step :: "server_state \<Rightarrow> server_state \<Rightarrow> bool" where
  listen_fails: "ss_main s = Starting \<Longrightarrow>
     server_step s (s\<lparr>ss_main := Returned (Some (ListenFailed e))\<rparr>)"
| listens: "ss_main s = Starting \<Longrightarrow>
     server_step s (s\<lparr>ss_main := Serving, ss_go := Selecting\<rparr>)"
| accepts: "ss_main s = Serving \<Longrightarrow> \<not> ss_closed s \<Longrightarrow>
     server_step s (s\<lparr>ss_conns := Suc (ss_conns s)\<rparr>)"
| conn_ends: "0 < ss_conns s \<Longrightarrow> server_step s (s\<lparr>ss_conns := ss_conns s - 1\<rparr>)"
| ctx_ends: "server_step s (s\<lparr>ss_ctxDone := True\<rparr>)"
| starts_shutdown: "ss_go s = Selecting \<Longrightarrow> ss_ctxDone s \<Longrightarrow>
     server_step s (s\<lparr>ss_go := InShutdown, ss_closed := True\<rparr>)"
| sees_done: "ss_go s = Selecting \<Longrightarrow> ss_doneClosed s \<Longrightarrow>
     server_step s (s\<lparr>ss_go := Exited\<rparr>)"
| shutdown_ends: "ss_go s = InShutdown \<Longrightarrow> ss_conns s = 0 \<Longrightarrow>
     server_step s (s\<lparr>ss_go := Exited\<rparr>)"
| serve_closed: "ss_main s = Serving \<Longrightarrow> ss_closed s \<Longrightarrow>
     server_step s (s\<lparr>ss_main := Returned None, ss_doneClosed := True\<rparr>)"
| serve_fails: "ss_main s = Serving \<Longrightarrow>
     server_step s (s\<lparr>ss_main := Returned (Some (ServeFailed e)), ss_doneClosed := True\<rparr>)"

inductive server_reachable :: "server_state \<Rightarrow> bool" where
  server_start: "server_reachable server_init"
| server_next: "server_reachable s \<Longrightarrow> server_step s t \<Longrightarrow> server_reachable t"

definition server_inv :: "server_state \<Rightarrow> bool" where
  "server_inv s \<longleftrightarrow>
     (ss_main s = Starting \<longrightarrow> ss_go s = NotStarted \<and> \<not> ss_doneClosed s) \<and>
     (ss_main s = Serving \<longrightarrow> ss_go s \<noteq> NotStarted \<and> \<not> ss_doneClosed s) \<and>
     (ss_go s = Exited \<longrightarrow> ss_closed s \<or> ss_doneClosed s) \<and>
     (ss_go s = InShutdown \<longrightarrow> ss_closed s) \<and>
     (ss_closed s \<longrightarrow> ss_ctxDone s) \<and>
     (ss_main s = Returned None \<longrightarrow> ss_closed s) \<and>
     (case ss_main s of Returned (Some (ListenFailed _)) \<Rightarrow> ss_go s = NotStarted
      | Returned _ \<Rightarrow> ss_doneClosed s \<and> ss_go s \<noteq> NotStarted | _ \<Rightarrow> True)"

lemma server_inv_init: "server_inv server_init"
  by (simp add: server_inv_def server_init_def)

lemma server_step_inv:
  assumes "server_step s t" and "server_inv s"
  shows "server_inv t"
  using assms
  by (induction rule: server_step.induct)
    (auto simp: server_inv_def split: main_phase.splits option.splits run_error.splits)

lemma server_reachable_inv: "server_reachable s \<Longrightarrow> server_inv s"
  by (induction rule: server_reachable.induct) (auto intro: server_inv_init server_step_inv)

text \<open>The server is closed only by the goroutine, which then is in the shutdown or past it.\<close>

lemma server_closed_inv: "server_reachable s \<Longrightarrow> ss_closed s \<longrightarrow> ss_go s \<in> {InShutdown, Exited}"
proof (induction rule: server_reachable.induct)
  case server_start
  then show ?case by (simp add: server_init_def)
next
  case (server_next s t)
  have "server_inv s" by (rule server_reachable_inv [OF server_next.hyps(1)])
  with server_next.hyps(2) server_next.IH show ?case
    by (induction rule: server_step.induct) (auto simp: server_inv_def)
qed

text \<open>Open connections can all end, whatever else goes on.\<close>

lemma connections_drain: "server_step\<^sup>*\<^sup>* u (u\<lparr>ss_conns := 0\<rparr>)"
proof (induction "ss_conns u" arbitrary: u)
  case 0
  then have "u\<lparr>ss_conns := 0\<rparr> = u" by (cases u) simp
  then show ?case by simp
next
  case (Suc n)
  have "server_step u (u\<lparr>ss_conns := n\<rparr>)" using server_step.conn_ends [of u] Suc.hyps(2) by (metis Suc_eq_plus1 add_diff_cancel_right' zero_less_Suc)
  moreover have "server_step\<^sup>*\<^sup>* (u\<lparr>ss_conns := n\<rparr>) (u\<lparr>ss_conns := 0\<rparr>)" using Suc.hyps(1) [of "u\<lparr>ss_conns := n\<rparr>"] by simp
  ultimately show ?case by (rule converse_rtranclp_into_rtranclp)
qed

section \<open>Properties\<close>

text \<open>
  C16: the server returns without an error only after its context has ended and its shutdown has begun; a
  failure to listen or to serve is always returned as an error.
\<close>

theorem clean_return_after_shutdown:
  assumes "server_reachable s" and "ss_main s = Returned None"
  shows "ss_ctxDone s \<and> ss_closed s \<and> ss_go s \<in> {InShutdown, Exited}"
  using server_reachable_inv [OF assms(1)] server_closed_inv [OF assms(1)] assms(2)
  by (auto simp: server_inv_def)

definition shut_down_state :: server_state where
  "shut_down_state = \<lparr>ss_main = Returned None, ss_go = InShutdown, ss_ctxDone = True, ss_doneClosed = True,
     ss_closed = True, ss_conns = 1\<rparr>"

lemma shut_down_reachable: "server_reachable shut_down_state"
proof -
  have "server_reachable (server_init\<lparr>ss_main := Serving, ss_go := Selecting\<rparr>)"
    by (rule server_next [OF server_start]) (rule server_step.listens, simp add: server_init_def)
  then have "server_reachable (server_init\<lparr>ss_main := Serving, ss_go := Selecting, ss_conns := 1\<rparr>)"
    by (rule server_next) (use server_step.accepts [of "server_init\<lparr>ss_main := Serving, ss_go := Selecting\<rparr>"]
        in \<open>simp add: server_init_def\<close>)
  then have "server_reachable (server_init\<lparr>ss_main := Serving, ss_go := Selecting, ss_conns := 1, ss_ctxDone := True\<rparr>)"
    by (rule server_next) (use server_step.ctx_ends [of "server_init\<lparr>ss_main := Serving, ss_go := Selecting, ss_conns := 1\<rparr>"]
        in \<open>simp add: server_init_def\<close>)
  then have "server_reachable (server_init\<lparr>ss_main := Serving, ss_go := InShutdown, ss_conns := 1, ss_ctxDone := True,
      ss_closed := True\<rparr>)"
    by (rule server_next) (use server_step.starts_shutdown
        [of "server_init\<lparr>ss_main := Serving, ss_go := Selecting, ss_conns := 1, ss_ctxDone := True\<rparr>"]
        in \<open>simp add: server_init_def\<close>)
  then show ?thesis
    by (rule server_next) (use server_step.serve_closed
        [of "server_init\<lparr>ss_main := Serving, ss_go := InShutdown, ss_conns := 1, ss_ctxDone := True, ss_closed := True\<rparr>"]
        in \<open>simp add: server_init_def shut_down_state_def\<close>)
qed

theorem clean_return_after_shutdown_witness:
  "server_reachable shut_down_state \<and> ss_ctxDone shut_down_state \<and> ss_closed shut_down_state"
  using clean_return_after_shutdown [OF shut_down_reachable] shut_down_reachable by (simp add: shut_down_state_def)

text \<open>
  C17: the goroutine that waits for the end of the context does not leak: whenever the server has returned,
  it never started, has ended, or can end once the open connections have.
\<close>

theorem goroutine_ends:
  assumes "server_reachable s" and "ss_main s = Returned r"
  shows "ss_go s = NotStarted \<or> (\<exists>t. server_step\<^sup>*\<^sup>* s t \<and> ss_go t = Exited \<and> ss_main t = Returned r)"
proof (cases "ss_go s")
  case NotStarted
  then show ?thesis by simp
next
  case Exited
  then show ?thesis using assms(2) by blast
next
  case Selecting
  have "ss_doneClosed s"
    using server_reachable_inv [OF assms(1)] Selecting assms(2)
    by (auto simp: server_inv_def split: option.splits run_error.splits)
  then have "server_step s (s\<lparr>ss_go := Exited\<rparr>)" using Selecting by (intro server_step.sees_done) auto
  then show ?thesis using assms(2) by (intro disjI2 exI [of _ "s\<lparr>ss_go := Exited\<rparr>"]) auto
next
  case InShutdown
  have "server_step (s\<lparr>ss_conns := 0\<rparr>) (s\<lparr>ss_conns := 0, ss_go := Exited\<rparr>)"
    using server_step.shutdown_ends [of "s\<lparr>ss_conns := 0\<rparr>"] InShutdown by simp
  with connections_drain [of s] have "server_step\<^sup>*\<^sup>* s (s\<lparr>ss_conns := 0, ss_go := Exited\<rparr>)" by (rule rtranclp.rtrancl_into_rtrancl)
  then show ?thesis using assms(2) by (intro disjI2 exI [of _ "s\<lparr>ss_conns := 0, ss_go := Exited\<rparr>"]) auto
qed

theorem goroutine_ends_witness:
  "\<exists>t. server_step\<^sup>*\<^sup>* shut_down_state t \<and> ss_go t = Exited \<and> ss_main t = Returned None"
  using goroutine_ends [OF shut_down_reachable, of None] by (simp add: shut_down_state_def)

text \<open>
  The server does not wait for its own shutdown: it can return without an error while connections are still
  open and \<open>Shutdown\<close> is still waiting for them, so requests in flight can be cut off.
\<close>

theorem returns_with_open_connections:
  "\<exists>s. server_reachable s \<and> ss_main s = Returned None \<and> ss_go s = InShutdown \<and> 0 < ss_conns s"
  using shut_down_reachable by (intro exI [of _ shut_down_state]) (simp add: shut_down_state_def)

text \<open>
  C34: secure serving never falls back to plain serving: the TLS set-up either returns an error or a
  configuration with the certificate that was loaded, or made when no path is given, or a
  reloader for it; and a self-signed certificate is valid for ten years of 365 days from now.
\<close>

theorem secure_serving_has_certificate:
  assumes "hsr_SecureServing r" and "tls_setup K Load NewReloader r = Inr cfg"
  shows "\<exists>cert. (if hsr_CertPath r \<noteq> '''' then Load (hsr_CertPath r @ ''/tls.crt'') (hsr_CertPath r @ ''/tls.key'') = Inr cert
                 else CreateSelfSignedTLSCertificate K = Inr cert) \<and>
    (cfg = Some (Certificates [cert]) \<or>
     (\<exists>rel. hsr_EnableCertReload r \<and> NewReloader (hsr_CertPath r) cert = Inr rel \<and> cfg = Some (GetCertificate rel))) \<and>
    NotAfter (cert_template n now) - NotBefore (cert_template n now) = 10 * 365 * 24 * time_Hour"
  using assms by (auto simp: tls_setup_def cert_validity split: if_splits sum.splits option.splits)

definition example_crypto :: "(nat, string) crypto" where
  "example_crypto = \<lparr>rand_Int = (\<lambda>_. Inr 7), crypto_Now = 0, rsa_GenerateKey = Inr,
     x509_CreateCertificate = (\<lambda>_ _ _. Inr ''der''), x509_MarshalPKCS8PrivateKey = (\<lambda>_. Inr ''key''),
     pem_EncodeToMemory = (\<lambda>_ b. b), tls_X509KeyPair = (\<lambda>c _. Inr c)\<rparr>"

definition example_runner :: HttpServerRunner where
  "example_runner = \<lparr>hsr_GrpcPort = 9002, hsr_SecureServing = True, hsr_HealthChecking = False, hsr_CertPath = '''',
     hsr_EnableCertReload = False, hsr_UseExperimentalDatalayerV2 = False\<rparr>"

theorem secure_serving_has_certificate_witness:
  "NotAfter (cert_template 7 0) - NotBefore (cert_template 7 0) = 10 * 365 * 24 * time_Hour \<and>
   tls_setup example_crypto (\<lambda>_ _. Inl ''none'') (\<lambda>_ _. Inl ''none'' :: string + unit) example_runner = Inr (Some (Certificates [''der'']))"
proof -
  have t: "tls_setup example_crypto (\<lambda>_ _. Inl ''none'') (\<lambda>_ _. Inl ''none'' :: string + unit) example_runner =
      Inr (Some (Certificates [''der'']))"
    by (simp add: tls_setup_def example_runner_def CreateSelfSignedTLSCertificate_def example_crypto_def Let_def)
  show ?thesis using secure_serving_has_certificate [OF _ t, of 7 0] t by (simp add: example_runner_def)
qed

end
