(* ===== verification/Startup.thy ===== *)
theory Startup
  imports Proxy_Handler Pre_Request Server
begin

text \<open>
  Start-up: the registration of the plugin factories (pkg/plugins/register.go), the helper
  that the runner of the extension module calls back (cmd/proxy/runner/helper.go) and the
  main program (cmd/proxy/main.go).
\<close>

section \<open>The plugin registry\<close>

datatype 'cs plugin =
    PluginByLabel ByLabel
  | PluginByLabelSelector "'cs ByLabelSelector"
  | PluginPrefillHeaderHandler PrefillHeaderHandler
  | PluginPdProfileHandler PdProfileHandler
  | PluginOrchestrationProfileHandler OrchestrationProfileHandler
  | PluginPdOrchestration PdOrchestration
  | PluginOther typed_name

type_synonym 'cs factory = "string \<Rightarrow> string option \<Rightarrow> config_error + 'cs plugin"

text \<open>What the factories take from the modules the repository builds on.\<close>

record ('sel, 'cs) module_api =
  im_LabelSelectorAsSelector :: "'sel \<Rightarrow> 'cs option"
  im_empty_selector :: 'sel
  im_unmarshal_selector :: "string \<Rightarrow> 'sel option"
  im_PrefixCachePluginType :: string
  im_DefaultBlockSizeTokens :: int

definition plugin_Register ::
  "string \<Rightarrow> 'cs factory \<Rightarrow> (string, 'cs factory) fmap \<Rightarrow> (string, 'cs factory) fmap" where
  "plugin_Register t f registry = fmupd t f registry"

definition RegisterAllPlugins ::
  "('sel, 'cs) module_api \<Rightarrow> (string, 'cs factory) fmap \<Rightarrow> (string, 'cs factory) fmap" where
  "RegisterAllPlugins M registry =
     plugin_Register OrchestrationProfileHandlerType
       (\<lambda>n _. map_sum id PluginOrchestrationProfileHandler (OrchestrationProfileHandlerFactory n))
    (plugin_Register PdOrchestrationType
       (\<lambda>n raw. map_sum id PluginPdOrchestration (PdOrchestrationFactory n raw))
    (plugin_Register PdProfileHandlerType
       (\<lambda>n raw. map_sum id PluginPdProfileHandler
          (PdProfileHandlerFactory (im_PrefixCachePluginType M) (im_DefaultBlockSizeTokens M) n raw))
    (plugin_Register PrefillHeaderHandlerType
       (\<lambda>n raw. map_sum id PluginPrefillHeaderHandler (PrefillHeaderHandlerFactory n raw))
    (plugin_Register PrefillRoleType
       (\<lambda>n _. map_sum id PluginByLabel (PrefillRoleFactory n))
    (plugin_Register DecodeRoleType
       (\<lambda>n _. map_sum id PluginByLabel (DecodeRoleFactory n))
    (plugin_Register ByLabelSelectorType
       (\<lambda>n raw. map_sum id PluginByLabelSelector
          (ByLabelSelectorFactory (im_LabelSelectorAsSelector M) (im_empty_selector M)
             (im_unmarshal_selector M) n raw))
    (plugin_Register ByLabelType
       (\<lambda>n raw. map_sum id PluginByLabel (ByLabelFactory n raw)) registry)))))))"

section \<open>The runner helper\<close>

record ProxyRunnerHelper =
  prh_orchestrator :: "PdOrchestration option"

definition AddPlugins :: "'cs plugin list \<Rightarrow> ProxyRunnerHelper \<Rightarrow> ProxyRunnerHelper" where
  "AddPlugins pluginObjects h = foldl (\<lambda>h plugin. case plugin of
       PluginPdOrchestration p \<Rightarrow> h\<lparr>prh_orchestrator := Some p\<rparr>
     | _ \<Rightarrow> h) h pluginObjects"

record runserver_Options =
  opt_GRPCPort :: int
  opt_SecureServing :: bool
  opt_HealthChecking :: bool
  opt_CertPath :: string
  opt_EnableCertReload :: bool

text \<open>
  What the manager is given to run: the runnable starts the metrics logger of the extension module, which
  is not modelled, then the server with the proxy as its handler.
\<close>

type_synonym ('cert, 'rel) runnable = "(run_error + ('cert, 'rel, inferenceProxy) http_server) leaderElection"

definition AsRunnable ::
  "('key, 'cert) crypto \<Rightarrow> (string \<Rightarrow> string \<Rightarrow> string + 'cert) \<Rightarrow> (string \<Rightarrow> 'cert \<Rightarrow> string + 'rel) \<Rightarrow>
   HttpServerRunner \<Rightarrow> PdOrchestration option \<Rightarrow> ('cert, 'rel) runnable" where
  "AsRunnable K LoadX509KeyPair NewCertReloader r orchestrator =
     NoLeaderElection (runnable_start K LoadX509KeyPair NewCertReloader r (NewProxy orchestrator))"

definition CreateAndRegisterServer ::
  "('key, 'cert) crypto \<Rightarrow> (string \<Rightarrow> string \<Rightarrow> string + 'cert) \<Rightarrow> (string \<Rightarrow> 'cert \<Rightarrow> string + 'rel) \<Rightarrow>
   (('cert, 'rel) runnable \<Rightarrow> string option) \<Rightarrow> runserver_Options \<Rightarrow> bool \<Rightarrow>
   ProxyRunnerHelper \<Rightarrow> string option" where
  "CreateAndRegisterServer K LoadX509KeyPair NewCertReloader mgr_Add opts useExperimentalDatalayerV2 h =
     (let serverRunner = \<lparr>hsr_GrpcPort = opt_GRPCPort opts, hsr_SecureServing = opt_SecureServing opts,
            hsr_HealthChecking = opt_HealthChecking opts, hsr_CertPath = opt_CertPath opts,
            hsr_EnableCertReload = opt_EnableCertReload opts,
            hsr_UseExperimentalDatalayerV2 = useExperimentalDatalayerV2\<rparr>
      in case mgr_Add (AsRunnable K LoadX509KeyPair NewCertReloader serverRunner (prh_orchestrator h)) of
           Some err \<Rightarrow> Some err
         | None \<Rightarrow> None)"

definition RegisterHealthServer :: "ProxyRunnerHelper \<Rightarrow> int \<Rightarrow> string option" where
  "RegisterHealthServer h port = None"

text \<open>The exit code of the program, given what the runner of the extension module returns.\<close>

definition main ::
  "('sel, 'cs) module_api \<Rightarrow> ((string, 'cs factory) fmap \<Rightarrow> ProxyRunnerHelper \<Rightarrow> string option) \<Rightarrow>
   (string, 'cs factory) fmap \<Rightarrow> nat" where
  "main M Run registry =
     (case Run (RegisterAllPlugins M registry) \<lparr>prh_orchestrator = None\<rparr> of None \<Rightarrow> 0 | Some _ \<Rightarrow> 1)"

section \<open>Properties\<close>

text \<open>The \<open>TypedName\<close> method of a plugin, whatever its type.\<close>

fun plugin_TypedName :: "'cs plugin \<Rightarrow> typed_name" where
  "plugin_TypedName (PluginByLabel p) = ByLabel_TypedName p"
| "plugin_TypedName (PluginByLabelSelector p) = ByLabelSelector_TypedName p"
| "plugin_TypedName (PluginPrefillHeaderHandler p) = PrefillHeaderHandler_TypedName p"
| "plugin_TypedName (PluginPdProfileHandler p) = PdProfileHandler_TypedName p"
| "plugin_TypedName (PluginOrchestrationProfileHandler p) = OrchestrationProfileHandler_TypedName p"
| "plugin_TypedName (PluginPdOrchestration p) = PdOrchestration_TypedName p"
| "plugin_TypedName (PluginOther n) = n"

lemma factory_names:
  "ByLabelFactory name raw = Inr f \<Longrightarrow> ByLabel_TypedName f = \<lparr>tn_Type = ByLabelType, tn_Name = name\<rparr>"
  "ByLabelSelectorFactory L emp u name raw = Inr g \<Longrightarrow>
     ByLabelSelector_TypedName g = \<lparr>tn_Type = ByLabelSelectorType, tn_Name = name\<rparr>"
  "PrefillHeaderHandlerFactory name raw = Inr p \<Longrightarrow>
     PrefillHeaderHandler_TypedName p = \<lparr>tn_Type = PrefillHeaderHandlerType, tn_Name = name\<rparr>"
  "PdProfileHandlerFactory t b name raw = Inr h \<Longrightarrow>
     PdProfileHandler_TypedName h = \<lparr>tn_Type = PdProfileHandlerType, tn_Name = name\<rparr>"
  "PdOrchestrationFactory name raw = Inr q \<Longrightarrow> PdOrchestration_TypedName q = \<lparr>tn_Type = '''', tn_Name = name\<rparr>"
  by (auto simp: ByLabelFactory_def NewByLabel_def ByLabel_TypedName_def ByLabelSelectorFactory_def NewByLabelSelector_def
      ByLabelSelector_TypedName_def PrefillHeaderHandlerFactory_def PrefillHeaderHandler_WithName_def NewPrefillHeaderHandler_def
      PrefillHeaderHandler_TypedName_def PdProfileHandlerFactory_def PdProfileHandler_WithName_def NewPdProfileHandler_def
      PdProfileHandler_TypedName_def PdOrchestrationFactory_def PdOrchestration_WithName_def NewPdOrchestration_def
      PdOrchestration_TypedName_def zero_typed_name_def Let_def split: option.splits if_splits)

lemma role_names:
  "PrefillRoleFactory name = Inr f \<Longrightarrow> ByLabel_TypedName f = \<lparr>tn_Type = ByLabelType, tn_Name = name\<rparr>"
  "DecodeRoleFactory name = Inr f \<Longrightarrow> ByLabel_TypedName f = \<lparr>tn_Type = ByLabelType, tn_Name = name\<rparr>"
  "OrchestrationProfileHandlerFactory name = Inr g \<Longrightarrow>
     OrchestrationProfileHandler_TypedName g = \<lparr>tn_Type = '''', tn_Name = name\<rparr>"
  by (auto simp: PrefillRoleFactory_def DecodeRoleFactory_def OrchestrationProfileHandlerFactory_def NewPrefillRole_def
      NewDecodeRole_def NewByLabel_def ByLabel_TypedName_def ByLabel_WithName_def OrchestrationProfileHandler_TypedName_def
      OrchestrationProfileHandler_WithName_def NewOrchestrationProfileHandler_def zero_typed_name_def)

lemma plugin_types_distinct:
  "distinct [ByLabelType, ByLabelSelectorType, DecodeRoleType, PrefillRoleType, PrefillHeaderHandlerType,
     PdProfileHandlerType, PdOrchestrationType, OrchestrationProfileHandlerType]"
  "distinct [OrchestrationProfileHandlerType, PdOrchestrationType, PdProfileHandlerType, PrefillHeaderHandlerType,
     PrefillRoleType, DecodeRoleType, ByLabelSelectorType, ByLabelType]"
  by (simp_all add: ByLabelType_def ByLabelSelectorType_def DecodeRoleType_def PrefillRoleType_def
      PrefillHeaderHandlerType_def PdProfileHandlerType_def PdOrchestrationType_def OrchestrationProfileHandlerType_def)

lemmas plugin_types_ne = plugin_types_distinct [simplified]

lemma map_sum_Inr: "map_sum id g x = Inr y \<longleftrightarrow> (\<exists>z. x = Inr z \<and> y = g z)"
  by (cases x) auto

lemma registered_factory:
  "fmlookup (RegisterAllPlugins M registry) ByLabelType = Some (\<lambda>n raw. map_sum id PluginByLabel (ByLabelFactory n raw))"
  "fmlookup (RegisterAllPlugins M registry) ByLabelSelectorType = Some (\<lambda>n raw. map_sum id PluginByLabelSelector
     (ByLabelSelectorFactory (im_LabelSelectorAsSelector M) (im_empty_selector M) (im_unmarshal_selector M) n raw))"
  "fmlookup (RegisterAllPlugins M registry) PrefillHeaderHandlerType =
     Some (\<lambda>n raw. map_sum id PluginPrefillHeaderHandler (PrefillHeaderHandlerFactory n raw))"
  "fmlookup (RegisterAllPlugins M registry) PdProfileHandlerType = Some (\<lambda>n raw. map_sum id PluginPdProfileHandler
     (PdProfileHandlerFactory (im_PrefixCachePluginType M) (im_DefaultBlockSizeTokens M) n raw))"
  "fmlookup (RegisterAllPlugins M registry) DecodeRoleType = Some (\<lambda>n _. map_sum id PluginByLabel (DecodeRoleFactory n))"
  "fmlookup (RegisterAllPlugins M registry) PrefillRoleType = Some (\<lambda>n _. map_sum id PluginByLabel (PrefillRoleFactory n))"
  "fmlookup (RegisterAllPlugins M registry) PdOrchestrationType =
     Some (\<lambda>n raw. map_sum id PluginPdOrchestration (PdOrchestrationFactory n raw))"
  "fmlookup (RegisterAllPlugins M registry) OrchestrationProfileHandlerType =
     Some (\<lambda>n _. map_sum id PluginOrchestrationProfileHandler (OrchestrationProfileHandlerFactory n))"
  by (simp_all add: RegisterAllPlugins_def plugin_Register_def plugin_types_ne)

lemma registered_other:
  "t \<notin> {ByLabelType, ByLabelSelectorType, PrefillHeaderHandlerType, PdProfileHandlerType, DecodeRoleType,
     PrefillRoleType, PdOrchestrationType, OrchestrationProfileHandlerType} \<Longrightarrow>
   fmlookup (RegisterAllPlugins M registry) t = fmlookup registry t"
  by (simp add: RegisterAllPlugins_def plugin_Register_def eq_commute [of _ t])

text \<open>
  C40: a plugin made by the factory that is registered for a label filter, a selector filter, the prefill header or the
  P/D profile handler reports the type it was registered under and the name it was configured with; the registry keeps
  every entry for a type that is not one of the eight of the repository.
\<close>

theorem registered_types:
  assumes "fmlookup (RegisterAllPlugins M registry) t = Some f"
  shows "(t \<in> {ByLabelType, ByLabelSelectorType, PrefillHeaderHandlerType, PdProfileHandlerType} \<longrightarrow>
      (\<forall>name raw p. f name raw = Inr p \<longrightarrow> plugin_TypedName p = \<lparr>tn_Type = t, tn_Name = name\<rparr>)) \<and>
    (t \<notin> {ByLabelType, ByLabelSelectorType, PrefillHeaderHandlerType, PdProfileHandlerType, DecodeRoleType,
           PrefillRoleType, PdOrchestrationType, OrchestrationProfileHandlerType} \<longrightarrow> fmlookup registry t = Some f)"
proof (intro conjI impI allI)
  fix name raw p
  assume "t \<in> {ByLabelType, ByLabelSelectorType, PrefillHeaderHandlerType, PdProfileHandlerType}" and p: "f name raw = Inr p"
  then consider "t = ByLabelType" | "t = ByLabelSelectorType" | "t = PrefillHeaderHandlerType" | "t = PdProfileHandlerType"
    by blast
  then show "plugin_TypedName p = \<lparr>tn_Type = t, tn_Name = name\<rparr>"
    by cases (use assms p in \<open>auto simp: registered_factory map_sum_Inr factory_names\<close>)
qed (rule trans [OF registered_other [symmetric] assms])

definition example_module :: "(string, string) module_api" where
  "example_module = \<lparr>im_LabelSelectorAsSelector = Some, im_empty_selector = '''', im_unmarshal_selector = Some,
     im_PrefixCachePluginType = ''prefix-cache-scorer'', im_DefaultBlockSizeTokens = 16\<rparr>"

theorem registered_types_witness:
  "plugin_TypedName (PluginPrefillHeaderHandler (PrefillHeaderHandler_WithName ''p''
       (NewPrefillHeaderHandler defaultPrefillProfile)) :: string plugin) =
     \<lparr>tn_Type = PrefillHeaderHandlerType, tn_Name = ''p''\<rparr>"
proof -
  have "map_sum id PluginPrefillHeaderHandler (PrefillHeaderHandlerFactory ''p'' None) =
      Inr (PluginPrefillHeaderHandler (PrefillHeaderHandler_WithName ''p'' (NewPrefillHeaderHandler defaultPrefillProfile)) :: string plugin)"
    by (simp add: PrefillHeaderHandlerFactory_def)
  with registered_types [OF registered_factory(3) [of example_module fmempty]] show ?thesis by blast
qed

text \<open>
  The plugins made for the role filters, the P/D orchestration and the orchestration profile handler do not report
  the type they are registered under: the former report the type of label filters, the latter an empty one.
\<close>

theorem misreported_types:
  assumes "fmlookup (RegisterAllPlugins M registry) t = Some f" and "f name raw = Inr p"
  shows "(t \<in> {DecodeRoleType, PrefillRoleType} \<longrightarrow> plugin_TypedName p = \<lparr>tn_Type = ByLabelType, tn_Name = name\<rparr>) \<and>
    (t \<in> {PdOrchestrationType, OrchestrationProfileHandlerType} \<longrightarrow> plugin_TypedName p = \<lparr>tn_Type = '''', tn_Name = name\<rparr>)"
  using assms
  by (auto simp: registered_factory map_sum_Inr role_names factory_names)

theorem misreported_types_witness:
  "plugin_TypedName (PluginByLabel (ByLabel_WithName ''d'' NewDecodeRole) :: string plugin) =
     \<lparr>tn_Type = ByLabelType, tn_Name = ''d''\<rparr>"
  using misreported_types [OF registered_factory(5) [of example_module fmempty], where name = "''d''"
      and p = "PluginByLabel (ByLabel_WithName ''d'' NewDecodeRole)"]
  by (simp add: DecodeRoleFactory_def)

fun orchestrators :: "'cs plugin list \<Rightarrow> PdOrchestration list" where
  "orchestrators [] = []"
| "orchestrators (PluginPdOrchestration p # ps) = p # orchestrators ps"
| "orchestrators (_ # ps) = orchestrators ps"

lemma last_orchestrator:
  "prh_orchestrator (AddPlugins ps h) =
     (if orchestrators ps = [] then prh_orchestrator h else Some (last (orchestrators ps)))"
  by (induction ps arbitrary: h rule: orchestrators.induct) (simp_all add: AddPlugins_def)

text \<open>
  C39: the server that is registered with the manager does not wait for a leader, listens on the configured port,
  and serves over TLS, with a TLS configuration, exactly if secure serving is asked for; only then can its start
  fail before it listens.  Its requests go to the last of the configured P/D orchestrations, or to the standard
  processing when there is none; and the result of the registration is the manager's.
\<close>

theorem registered_server:
  "\<exists>R. (\<forall>mgr_Add. CreateAndRegisterServer K L N mgr_Add opts v2 (AddPlugins ps \<lparr>prh_orchestrator = None\<rparr>) = mgr_Add R) \<and>
     \<not> NeedLeaderElection R \<and>
     (case le_Runnable R of
        Inl _ \<Rightarrow> opt_SecureServing opts
      | Inr srv \<Rightarrow> srv_Port srv = opt_GRPCPort opts \<and> srv_UsingTLS srv = opt_SecureServing opts \<and>
          (srv_TLSConfig srv \<noteq> None) = opt_SecureServing opts \<and>
          ip_orchestrator (srv_Handler srv) = (if orchestrators ps = [] then None else Some (last (orchestrators ps))))"
proof -
  let ?r = "\<lparr>hsr_GrpcPort = opt_GRPCPort opts, hsr_SecureServing = opt_SecureServing opts,
    hsr_HealthChecking = opt_HealthChecking opts, hsr_CertPath = opt_CertPath opts,
    hsr_EnableCertReload = opt_EnableCertReload opts, hsr_UseExperimentalDatalayerV2 = v2\<rparr>"
  let ?R = "AsRunnable K L N ?r (prh_orchestrator (AddPlugins ps \<lparr>prh_orchestrator = None\<rparr>))"
  have "CreateAndRegisterServer K L N mgr_Add opts v2 (AddPlugins ps \<lparr>prh_orchestrator = None\<rparr>) = mgr_Add ?R" for mgr_Add
    by (simp add: CreateAndRegisterServer_def split: option.split)
  then show ?thesis
    using tls_setup_cases [where K = K and L = L and N = N and r = "?r"]
    by (intro exI [of _ ?R]) (auto simp: AsRunnable_def runnable_start_def NoLeaderElection_def LeaderElection_def
        NeedLeaderElection_def NewProxy_def last_orchestrator split: sum.splits)
qed

end
