(* ===== verification/Destinations.thy ===== *)
theory Destinations
  imports Proxy_Handler
begin

text \<open>
  Which servers a client request reaches.  \<open>contacts ws m\<close> bounds the requests that the action \<open>m\<close>
  sends, whatever state it starts in and also when it panics: they can be matched, in their
  order, with some of the places in \<open>ws\<close>, each place a predicate on the host of the request.  So \<open>m\<close>
  sends no more requests than \<open>ws\<close> has places, and none to another host.

  The section on the plugin interface (pkg/orchestrations/plugin.go) states what the handler relies on
  in any orchestration plugin, and shows that the P/D plugin provides it.
\<close>

section \<open>The requests of an action\<close>

type_synonym place = "string \<Rightarrow> bool"

text \<open>The hosts match places of the list, in its order.\<close>

fun visits :: "place list \<Rightarrow> string list \<Rightarrow> bool" where
  "visits [] hs \<longleftrightarrow> hs = []"
| "visits (w # ws) [] \<longleftrightarrow> True"
| "visits (w # ws) (h # hs) \<longleftrightarrow> (w h \<and> visits ws hs) \<or> visits ws (h # hs)"

lemma visits_Nil [simp]: "visits ws []"
  by (cases ws) simp_all

lemma visits_skip: "visits ws hs \<Longrightarrow> visits (w # ws) hs"
  by (cases hs) simp_all

lemma visits_skips: "visits ws hs \<Longrightarrow> visits (vs @ ws) hs"
  by (induction vs) (simp_all add: visits_skip)

lemma visits_append: "visits ws hs \<Longrightarrow> visits vs gs \<Longrightarrow> visits (ws @ vs) (hs @ gs)"
proof (induction ws hs rule: visits.induct)
  case (2 w ws)
  then show ?case using visits_skips [of vs gs "w # ws"] by simp
qed (auto intro: visits_skip)

lemma visits_length: "visits ws hs \<Longrightarrow> length hs \<le> length ws"
  by (induction ws hs rule: visits.induct) auto

lemma visits_only: "visits ws hs \<Longrightarrow> h \<in> set hs \<Longrightarrow> \<exists>w \<in> set ws. w h"
  by (induction ws hs rule: visits.induct) auto

lemma visits_single: "visits [w] hs \<Longrightarrow> hs = [] \<or> (\<exists>h. hs = [h] \<and> w h)"
  by (cases hs) auto

definition hosts :: "(out_request \<times> response option) list \<Rightarrow> string list" where
  "hosts = map (\<lambda>x. out_URLHost (fst x))"

definition log_grows :: "place list \<Rightarrow> orch \<Rightarrow> orch \<Rightarrow> bool" where
  "log_grows ws o1 o2 \<longleftrightarrow> (\<exists>xs. o_sent o2 = o_sent o1 @ xs \<and> visits ws (hosts xs))"

definition contacts :: "place list \<Rightarrow> (orch, 'a) go \<Rightarrow> bool" where
  "contacts ws m \<longleftrightarrow> (\<forall>s. log_grows ws s (snd (m s)))"

lemma log_grows_same: "o_sent o2 = o_sent o1 \<Longrightarrow> log_grows ws o1 o2"
  by (simp add: log_grows_def hosts_def)

lemma log_grows_one: "o_sent o2 = o_sent o1 @ [x] \<Longrightarrow> w (out_URLHost (fst x)) \<Longrightarrow> log_grows [w] o1 o2"
  by (simp add: log_grows_def hosts_def)

lemma log_grows_cong: "o_sent s = o_sent s' \<Longrightarrow> o_sent t = o_sent t' \<Longrightarrow> log_grows ws s t = log_grows ws s' t'"
  by (simp add: log_grows_def)

lemma log_grows_trans: "log_grows ws o1 o2 \<Longrightarrow> log_grows vs o2 o3 \<Longrightarrow> log_grows (ws @ vs) o1 o3"
  unfolding log_grows_def hosts_def by (metis append.assoc map_append visits_append)

lemma log_grows_more: "log_grows ws o1 o2 \<Longrightarrow> log_grows (ws @ vs) o1 o2"
  by (rule log_grows_trans [OF _ log_grows_same]) simp_all

lemma silent: "go_keeps o_sent m \<Longrightarrow> contacts ws m"
  by (simp add: contacts_def go_keeps_def log_grows_same)

lemma contacts_bind:
  assumes m: "contacts ws m" and k: "\<And>x s s'. m s = (Inr x, s') \<Longrightarrow> contacts vs (k x)"
  shows "contacts (ws @ vs) (go_bind m k)"
  unfolding contacts_def
proof
  fix s
  obtain r s1 where run: "m s = (r, s1)" by (cases "m s")
  then have 1: "log_grows ws s s1" using m unfolding contacts_def by (metis snd_conv)
  show "log_grows (ws @ vs) s (snd (go_bind m k s))"
  proof (cases r)
    case (Inl p)
    with run 1 show ?thesis by (simp add: go_bind_def log_grows_more)
  next
    case (Inr x)
    with k run have "log_grows vs s1 (snd (k x s1))" unfolding contacts_def by blast
    with run 1 Inr show ?thesis by (simp add: go_bind_def log_grows_trans)
  qed
qed

lemma contacts_then: "contacts ws m \<Longrightarrow> contacts vs k \<Longrightarrow> contacts (ws @ vs) (go_then m k)"
  unfolding go_then_def by (rule contacts_bind)

text \<open>An action that sends nothing, before or after one that may.\<close>

lemma silent_bind:
  assumes "go_keeps o_sent m" and "\<And>x s s'. m s = (Inr x, s') \<Longrightarrow> contacts ws (k x)"
  shows "contacts ws (go_bind m k)"
  using contacts_bind [OF silent [OF assms(1), of "[]"] assms(2)] by simp

lemma silent_then: "go_keeps o_sent m \<Longrightarrow> contacts ws k \<Longrightarrow> contacts ws (go_then m k)"
  unfolding go_then_def by (rule silent_bind)

lemma contacts_silent: "contacts ws m \<Longrightarrow> (\<And>x. go_keeps o_sent (k x)) \<Longrightarrow> contacts ws (go_bind m k)"
  using contacts_bind [of ws m "[]" k] silent by auto

lemma contacts_sum:
  "(\<And>x. contacts ws (a x)) \<Longrightarrow> (\<And>x. contacts ws (b x)) \<Longrightarrow> contacts ws (case v of Inl x \<Rightarrow> a x | Inr x \<Rightarrow> b x)"
  by (cases v) simp_all

section \<open>What sends nothing\<close>

lemma silent_tick: "go_keeps o_sent next_tick"
  by (intro go_rules) simp

lemma silent_state [go_rules]:
  "go_keeps o_sent (client_WriteHeader c)" "go_keeps o_sent (client_Write E d)"
  by (auto simp: client_WriteHeader_def client_Write_def intro!: go_rules)

lemma silent_errors [go_rules]: "go_keeps o_sent (sendError E e)"
  unfolding sendError_def by (intro go_rules)

lemma silent_scheduling [go_rules]: "go_keeps o_sent (DetermineTargets E names)"
  unfolding DetermineTargets_def by (intro go_rules) simp_all

lemma silent_body [go_rules]:
  "go_keeps o_sent (set_request_id u)" "go_keeps o_sent (body_set k v)" "go_keeps o_sent (body_delete k)"
  "go_keeps o_sent (restore_field k old)"
  unfolding set_request_id_def body_set_def body_delete_def restore_field_def
  by (intro go_rules; simp)+

lemma silent_prepare: "go_keeps o_sent (PrepareRequest E)"
  unfolding PrepareRequest_def copy_request_header_def Let_def by (intro go_rules | simp split: prod.split)+

lemma silent_handlers:
  "go_keeps o_sent (standardResponseHeaderHandler E c h)" "go_keeps o_sent (standardStreamingHandler E d)"
  unfolding standardResponseHeaderHandler_def copy_response_header_def standardStreamingHandler_def
    HandleResponseBodyModelStreaming_def record_token_metrics_def Let_def
  by (intro go_rules | simp)+

lemma silent_tee:
  "go_keeps (\<lambda>st. o_sent (fst st)) (rwo_WriteHeader (tee_ops E) c)"
  "go_keeps (\<lambda>st. o_sent (fst st)) (rwo_Write (tee_ops E) d)"
  "o_sent (fst (rwo_SetHeader (tee_ops E) h st)) = o_sent (fst st)"
  by (auto simp: copying_ops_def CopyingResponseWriter_WriteHeader_def CopyingResponseWriter_Write_def client_ops_def
      split: prod.split intro!: go_rules keeps_on_fst silent_handlers)

text \<open>A writer that sends nothing leaves the reverse proxy with the one request of its round trip.\<close>

lemma silent_send_response:
  assumes "\<And>c. go_keeps (\<lambda>st. f (fst st)) (rwo_WriteHeader ops c)"
    and "\<And>d. go_keeps (\<lambda>st. f (fst st)) (rwo_Write ops d)"
    and "\<And>h st. f (fst (rwo_SetHeader ops h st)) = f (fst st)"
  shows "go_keeps (\<lambda>st. f (fst st)) (send_response ops r)"
proof -
  have "go_keeps (\<lambda>st. f (fst st)) (copy_chunks ops cs)" for cs
    by (induction cs) (auto intro!: go_rules assms)
  then show ?thesis unfolding send_response_def by (intro go_rules assms)
qed

section \<open>The two ways of sending a request\<close>

definition target_host :: "orch \<Rightarrow> place" where
  "target_host s h \<longleftrightarrow> url_host (TargetEndpoint (o_reqCtx s)) = Some h"

lemma proxy_grows:
  assumes "\<And>c. go_keeps (\<lambda>st. o_sent (fst st)) (rwo_WriteHeader ops c)"
    and "\<And>d. go_keeps (\<lambda>st. o_sent (fst st)) (rwo_Write ops d)"
    and "\<And>h st. o_sent (fst (rwo_SetHeader ops h st)) = o_sent (fst st)"
  shows "log_grows [target_host s] s (fst (snd (reverse_proxy ops (\<lambda>i out. go_on_fst (standardRewrite E i out))
    (\<lambda>out. go_on_fst (round_trip E out)) (o_req s) (s, w))))"
proof (cases "url_host (TargetEndpoint (o_reqCtx s))")
  case None
  then show ?thesis
    by (simp add: reverse_proxy_def go_bind_def go_on_fst_def standardRewrite_def get_ctx_def go_simps log_grows_same)
next
  case (Some host)
  show ?thesis
  proof (cases "req_ContentLength (o_req s) = 0")
    case True
    with Some show ?thesis
      by (simp add: reverse_proxy_def go_bind_def go_on_fst_def standardRewrite_def get_ctx_def go_simps
          updateOutgoingRequest_eq clone_out_def log_grows_same)
  next
    case False
    have "o_sent (fst (snd ((case answer E host s of None \<Rightarrow> rwo_WriteHeader ops StatusBadGateway
        | Some r \<Rightarrow> send_response ops r) (after_send E host s, w)))) = o_sent (after_send E host s)"
      using assms(1) silent_send_response [of o_sent, OF assms]
      by (cases "answer E host s") (simp_all add: go_keeps_def)
    then show ?thesis
      unfolding proxy_round_trip [OF Some False]
      by (intro log_grows_one [where x = "(sent_request E host s, answer E host s)"])
        (simp_all add: sent_request_simps target_host_def Some)
  qed
qed

lemma read_bind: "go_bind (go_read f) k s = k (f s) s"
  by (simp add: go_bind_def go_simps)

lemma local_state: "snd (go_local t m s) = fst (snd (m (s, t)))"
  by (simp add: go_local_def split: prod.split sum.split)

text \<open>What comes after the exchange sends nothing.\<close>

lemma grows_bind:
  assumes "log_grows ws s (snd (m s))" and "\<And>x. go_keeps o_sent (k x)"
  shows "log_grows ws s (snd (go_bind m k s))"
proof -
  have "o_sent (snd (go_bind m k s)) = o_sent (snd (m s))"
    using assms(2) by (auto simp: go_bind_def go_keeps_def split: prod.split sum.split)
  with assms(1) show ?thesis by (simp add: log_grows_def)
qed

lemma silent_end: "go_keeps o_sent (handleEndOfResponse E body)"
  by (simp add: go_keeps_def end_of_response_frame)

lemma forward_grows: "log_grows [target_host s] s (snd (forward_to_client E s))"
proof -
  have p: "log_grows [target_host s] s (fst (snd (reverse_proxy (tee_ops E) (\<lambda>i out. go_on_fst (standardRewrite E i out))
      (\<lambda>out. go_on_fst (round_trip E out)) (o_req s) (s, NewCopyingResponseWriter))))"
    by (rule proxy_grows) (rule silent_tee)+
  show ?thesis
    unfolding forward_to_client_def read_bind
    by (rule grows_bind) (auto simp only: local_state p split: prod.split intro!: silent_end)
qed

lemma collect_grows: "log_grows [target_host s] s
  (snd (go_local NewCollectingResponseWriter (reverse_proxy collecting_ops (\<lambda>i out. go_on_fst (standardRewrite E i out))
    (\<lambda>out. go_on_fst (round_trip E out)) (o_req s)) s))"
  unfolding local_state by (rule proxy_grows) (rule collecting_keeps)+

lemma send_contacts:
  assumes "\<And>h. url_host (address target) = Some h \<Longrightarrow> w h"
  shows "contacts [w] (SendRequest E target)" and "contacts [w] (SendRequestAndResponse E target)"
proof -
  have t: "log_grows [w] s (snd (go_then (commonSendRequest E target) k s))"
    if "\<And>s. log_grows [target_host s] s (snd (k s))" for k :: "(orch, 'a) go" and s
  proof -
    have "log_grows [w] (targeted E target s) (snd (k (targeted E target s)))"
      using that [of "targeted E target s"] assms
      by (auto simp: log_grows_def target_host_def address_def hosts_def dest!: visits_single)
    then show ?thesis by (simp add: go_simps go_bind_def commonSendRequest_eq log_grows_def)
  qed
  show "contacts [w] (SendRequestAndResponse E target)"
    unfolding contacts_def SendRequestAndResponse_def by (intro allI t forward_grows)
  show "contacts [w] (SendRequest E target)"
    unfolding contacts_def SendRequest_def
  proof (intro allI t)
    fix s
    show "log_grows [target_host s] s (snd (go_bind (go_read o_req) (\<lambda>req.
      go_bind (go_local NewCollectingResponseWriter (reverse_proxy collecting_ops (\<lambda>i out. go_on_fst (standardRewrite E i out))
          (\<lambda>out. go_on_fst (round_trip E out)) req)) (\<lambda>(_, responseWriter).
      go_bind next_tick (\<lambda>t. let (r, headers) = go_foreach (collect_header (col_headers responseWriter))
            (range_order E t (fmdom (col_headers responseWriter))) fmempty
        in go_then (go_lift r) (let (body, unmarshalErr) = unmarshal_map (col_body responseWriter) (Some fmempty)
          in if unmarshalErr
             then go_return (Inl \<lparr>err_Code = BadRequest E, err_Msg = ''Error unmarshaling respone body''\<rparr>)
             else go_return (Inr (headers, body)))))) s))"
      unfolding read_bind Let_def by (rule grows_bind [OF collect_grows]) (auto intro!: go_rules split: prod.split)
  qed
qed

section \<open>The plugin interface\<close>

text \<open>
  The interface type of an orchestration plugin: a plugin, which has a typed name, with an operation that
  takes over a prepared request.  \<open>pd_plugin_ops\<close> is the one implementation the repository has.
\<close>

record 'p OrchestrationPlugin =
  plug_TypedName :: "'p \<Rightarrow> typed_name"
  plug_Orchestrate :: "env \<Rightarrow> 'p \<Rightarrow> (orch, orch_error option) go"

definition pd_plugin_ops :: "PdOrchestration OrchestrationPlugin" where
  "pd_plugin_ops = \<lparr>plug_TypedName = PdOrchestration_TypedName, plug_Orchestrate = Orchestrate\<rparr>"

text \<open>
  What the handler relies on in such a plugin: it is named like any plugin, and its \<open>Orchestrate\<close>
  sends requests to its workers only, each place of its list at most once and in this order.
\<close>

locale orchestration_plugin = named_plugin "plug_TypedName ops" WithName behaviour
  for ops :: "'p OrchestrationPlugin" and WithName :: "string \<Rightarrow> 'p \<Rightarrow> 'p" and behaviour :: "'p \<Rightarrow> 'b" +
  fixes workers :: "env \<Rightarrow> 'p \<Rightarrow> place list"
  assumes contacts_workers: "contacts (workers E p) (plug_Orchestrate ops E p)"
begin

text \<open>The handler's part around the plugin adds no request, whatever comes before and after.\<close>

lemma handled:
  assumes "go_keeps o_sent prepare" and "\<And>e. go_keeps o_sent (refuse e)"
  shows "contacts (workers E p) (go_bind prepare (\<lambda>err. case err of
    Some e \<Rightarrow> refuse e | None \<Rightarrow> go_then (plug_Orchestrate ops E p) (go_return ())))"
proof -
  have "contacts (workers E p) (go_then (plug_Orchestrate ops E p) (go_return ()))"
    unfolding go_then_def by (intro contacts_silent contacts_workers go_rules)
  then show ?thesis using assms(2) by (intro silent_bind [OF assms(1)]) (auto intro: silent split: option.split)
qed

end

text \<open>
  \<open>scheduled E names name h\<close>: asked for the profiles \<open>names\<close>, the director can answer with a result in which \<open>h\<close>
  is the host of the first endpoint of the profile \<open>name\<close>.
\<close>

definition scheduled :: "env \<Rightarrow> string list \<Rightarrow> string \<Rightarrow> place" where
  "scheduled E names name h \<longleftrightarrow> (\<exists>t c c' res r e. HandleRequestHelper (env_director E) t c names = (c', Inr res) \<and>
     run_result res name = Some r \<and> first (TargetEndpoints r) = Inr e \<and> url_host (address e) = Some h)"

definition pd_workers :: "env \<Rightarrow> PdOrchestration \<Rightarrow> place list" where
  "pd_workers E p = (let q = po_prefillProfile p; d = po_decodeProfile p in
     if po_deferredDecode p then [scheduled E [q] q, scheduled E [d] d]
     else [scheduled E [q, d] q, scheduled E [q, d] d])"

lemma DetermineTargets_result:
  assumes "DetermineTargets E names s = (Inr (Inr res), s')"
  obtains t c c' where "HandleRequestHelper (env_director E) t c names = (c', Inr res)"
  using assms
  by (cases "HandleRequestHelper (env_director E) (o_tick s) (o_reqCtx s) names")
    (auto simp: DetermineTargets_def run_simps sendError_def split: sum.splits if_splits)

lemma first_host:
  assumes "HandleRequestHelper (env_director E) t c names = (c', Inr res)" and "run_result res name = Some r"
    and "first (TargetEndpoints r) = Inr e" and "url_host (address e) = Some h"
  shows "scheduled E names name h"
  using assms unfolding scheduled_def by blast

lemma lifted: "go_lift r s = (Inr x, s') \<Longrightarrow> r = Inr x"
  by (cases r) (auto simp: go_simps)

lemma prefill_contacts:
  assumes "\<And>e h. first (TargetEndpoints r) = Inr e \<Longrightarrow> url_host (address e) = Some h \<Longrightarrow> w h"
  shows "contacts [w] (sendPrefillRequest E r)" and "contacts [w] (sendDecodeRequest E r)"
proof -
  have send: "contacts [w] (go_bind (go_lift (first (TargetEndpoints r))) k)"
    if "\<And>e. first (TargetEndpoints r) = Inr e \<Longrightarrow> contacts [w] (k e)" for k :: "endpoint \<Rightarrow> (orch, 'a) go"
    by (rule silent_bind [OF keeps_basic(4)]) (auto dest: lifted intro: that)
  show "contacts [w] (sendDecodeRequest E r)"
    unfolding sendDecodeRequest_def by (intro send send_contacts(2)) (rule assms)
  show "contacts [w] (sendPrefillRequest E r)"
    unfolding sendPrefillRequest_def Let_def
    by (rule silent_bind [OF silent_tick], rule contacts_sum, rule silent, rule keeps_basic,
        rule silent_then, rule silent_body, rule silent_bind [OF keeps_basic(3)],
        (rule silent_then, rule silent_body)+, rule send, rule contacts_silent, rule send_contacts(1),
        erule (1) assms, intro go_rules)
qed

lemma prefill_if_any_contacts:
  assumes "HandleRequestHelper (env_director E) t c names = (c', Inr res)"
  shows "contacts [scheduled E names q] (prefill_if_any E (run_result res q))"
  unfolding prefill_if_any_def
  by (cases "run_result res q") (auto intro!: silent go_rules prefill_contacts(1) first_host [OF assms])

lemma decode_contacts:
  assumes "HandleRequestHelper (env_director E) t c names = (c', Inr res)"
  shows "contacts [scheduled E names d] (case run_result res d of None \<Rightarrow> go_return (Some no_decode_workers)
    | Some r \<Rightarrow> go_then (sendDecodeRequest E r) (go_return None))"
proof (cases "run_result res d")
  case None
  then show ?thesis by (simp add: silent keeps_basic)
next
  case (Some r)
  have "contacts [scheduled E names d] (sendDecodeRequest E r)"
    by (rule prefill_contacts(2)) (rule first_host [OF assms Some])
  with Some show ?thesis by (simp add: go_then_def contacts_silent keeps_basic)
qed

text \<open>A scheduling run, and what is done with its result.\<close>

lemma scheduling_contacts:
  assumes "\<And>t c c' res. HandleRequestHelper (env_director E) t c names = (c', Inr res) \<Longrightarrow> contacts ws (k res)"
  shows "contacts ws (go_bind (DetermineTargets E names) (\<lambda>r. case r of
    Inl err \<Rightarrow> go_return (Some (PluginError err)) | Inr res \<Rightarrow> k res))"
proof (rule silent_bind [OF silent_scheduling])
  fix r s s'
  assume "DetermineTargets E names s = (Inr r, s')"
  then show "contacts ws (case r of Inl err \<Rightarrow> go_return (Some (PluginError err)) | Inr res \<Rightarrow> k res)"
    by (cases r) (auto intro: silent keeps_basic elim: DetermineTargets_result assms)
qed

lemma then_if_ok:
  assumes "contacts ws m" and "contacts vs k"
  shows "contacts (ws @ vs) (go_bind m (\<lambda>err. case err of Some e \<Rightarrow> go_return (Some e) | None \<Rightarrow> k))"
  using assms by (intro contacts_bind) (auto intro: silent keeps_basic split: option.split)

interpretation pd_plugin: orchestration_plugin pd_plugin_ops PdOrchestration_WithName
    "\<lambda>p. (po_deferredDecode p, po_decodeProfile p, po_prefillProfile p)" pd_workers
proof unfold_locales
  show "plug_TypedName pd_plugin_ops (PdOrchestration_WithName n p) = plug_TypedName pd_plugin_ops p\<lparr>tn_Name := n\<rparr>" for n p
    by (simp add: pd_plugin_ops_def po_name.name_set)
  show "(po_deferredDecode (PdOrchestration_WithName n p), po_decodeProfile (PdOrchestration_WithName n p),
      po_prefillProfile (PdOrchestration_WithName n p)) = (po_deferredDecode p, po_decodeProfile p, po_prefillProfile p)" for n p
    by (rule po_name.behaviour_kept)
  fix E :: env and p :: PdOrchestration
  let ?q = "po_prefillProfile p" and ?d = "po_decodeProfile p"
  have "contacts (pd_workers E p) (Orchestrate E p)"
  proof (cases "po_deferredDecode p")
    case True
    have "contacts ([scheduled E [?q] ?q] @ [scheduled E [?d] ?d]) (deferredDecodePD E p)"
      unfolding deferredDecodePD_def
      by (intro scheduling_contacts then_if_ok prefill_if_any_contacts decode_contacts)
    with True show ?thesis by (simp add: pd_workers_def Orchestrate_def Let_def)
  next
    case False
    have both: "contacts ([scheduled E [?q, ?d] ?q] @ [scheduled E [?q, ?d] ?d]) (case run_result res ?d of
        None \<Rightarrow> go_return (Some no_decode_workers)
      | Some r \<Rightarrow> go_bind (prefill_if_any E (run_result res ?q)) (\<lambda>err. case err of
          Some e \<Rightarrow> go_return (Some e) | None \<Rightarrow> go_then (sendDecodeRequest E r) (go_return None)))"
      if "HandleRequestHelper (env_director E) t c [?q, ?d] = (c', Inr res)" for t c c' res
    proof (cases "run_result res ?d")
      case None
      then show ?thesis by (simp add: silent keeps_basic)
    next
      case (Some r)
      have "contacts [scheduled E [?q, ?d] ?d] (go_then (sendDecodeRequest E r) (go_return (None :: orch_error option)))"
        using decode_contacts [OF that, of ?d] Some by simp
      from then_if_ok [OF prefill_if_any_contacts [OF that, of ?q] this] Some show ?thesis by simp
    qed
    have "contacts ([scheduled E [?q, ?d] ?q] @ [scheduled E [?q, ?d] ?d]) (nonDeferredDecodePD E p)"
      unfolding nonDeferredDecodePD_def by (rule scheduling_contacts) (erule both)
    with False show ?thesis by (simp add: pd_workers_def Orchestrate_def Let_def)
  qed
  then show "contacts (pd_workers E p) (plug_Orchestrate pd_plugin_ops E p)" by (simp add: pd_plugin_ops_def)
qed

section \<open>The handler\<close>

text \<open>The server the director sends a request to when there is no plugin.\<close>

definition routed :: "env \<Rightarrow> place" where
  "routed E h \<longleftrightarrow> (\<exists>t c c'. HandleRequest (env_director E) t c = (c', None) \<and> url_host (TargetEndpoint c') = Some h)"

lemma standard_contacts: "contacts [routed E] (StandardProcessing E)"
  unfolding contacts_def
proof
  fix s :: orch
  obtain c e where run: "HandleRequest (env_director E) (o_tick s) (o_reqCtx s) = (c, e)" by fastforce
  let ?s = "s\<lparr>o_tick := Suc (o_tick s), o_reqCtx := c\<rparr>"
  show "log_grows [routed E] s (snd (StandardProcessing E s))"
  proof (cases e)
    case None
    have "log_grows [target_host ?s] ?s (snd (forward_to_client E ?s))" by (rule forward_grows)
    moreover have "target_host ?s h \<Longrightarrow> routed E h" for h
      using run None unfolding target_host_def routed_def by auto
    ultimately have "log_grows [routed E] s (snd (forward_to_client E ?s))"
      by (auto simp: log_grows_def hosts_def dest!: visits_single)
    with run None show ?thesis by (simp add: StandardProcessing_def run_simps)
  next
    case (Some err)
    have "o_sent (snd (sendError E err ?s)) = o_sent ?s"
      using silent_errors [of E err] by (simp add: go_keeps_def)
    with run Some show ?thesis by (simp add: StandardProcessing_def run_simps log_grows_same)
  qed
qed

definition handler_workers :: "env \<Rightarrow> inferenceProxy \<Rightarrow> place list" where
  "handler_workers E ip = (case ip_orchestrator ip of None \<Rightarrow> [routed E] | Some p \<Rightarrow> pd_workers E p)"

lemma serve_contacts: "contacts (handler_workers E ip) (serve_body E ip)"
proof (cases "ip_orchestrator ip")
  case None
  have "contacts [routed E] (go_bind (PrepareRequest E) (\<lambda>err. case err of
      Some e \<Rightarrow> sendError E (Error_text E e) | None \<Rightarrow> StandardProcessing E))"
    by (rule silent_bind [OF silent_prepare]) (auto intro: silent silent_errors standard_contacts split: option.split)
  with None show ?thesis by (simp add: serve_body_def handler_workers_def cong: option.case_cong)
next
  case (Some p)
  with pd_plugin.handled [of "PrepareRequest E" "\<lambda>e. sendError E (Error_text E e)" E p, OF silent_prepare silent_errors]
  show ?thesis by (simp add: serve_body_def handler_workers_def pd_plugin_ops_def cong: option.case_cong)
qed

lemma served_hosts: "visits (handler_workers E ip) (hosts (o_sent (snd (ServeHTTP E ip rw req))))"
proof -
  obtain rid t where r: "request_id E req 0 = (rid, t)" by (cases "request_id E req 0")
  have "log_grows (handler_workers E ip) (NewOrchestration E req rid rw t) (snd (ServeHTTP E ip rw req))"
    using serve_contacts [of E ip] by (simp add: ServeHTTP_def r contacts_def)
  then show ?thesis by (simp add: log_grows_def NewOrchestration_def)
qed

text \<open>
  C3: whatever the network, the director and the client's connection do, and also when the handler panics,
  a client request causes no request to a model server but these.  With the P/D plugin: first at most one to
  the first endpoint that the director names for the prefill profile, then at most one to the first
  endpoint that it names for the decode profile.  Without a plugin: at most one, to the target of a
  request context that the director returned without an error.
\<close>

theorem only_scheduled_workers:
  "visits (handler_workers E ip) (hosts (o_sent (snd (ServeHTTP E ip rw req)))) \<and>
   length (o_sent (snd (ServeHTTP E ip rw req))) \<le> (if ip_orchestrator ip = None then 1 else 2)"
proof -
  have "length (handler_workers E ip) = (if ip_orchestrator ip = None then 1 else 2)"
    by (auto simp: handler_workers_def pd_workers_def Let_def)
  then show ?thesis
    using served_hosts [of E ip rw req] visits_length [OF served_hosts, of E ip rw req] by (simp only: hosts_def length_map)
qed

end
