(* ===== verification/Json_Text.thy ===== *)
theory Json_Text
  imports Go_Json
begin

text \<open>
  String literals of JSON: what the scanner reads is valid UTF-8, and a valid string comes
  back unchanged from its literal.  The scanner consumes its input, and the fuel it is
  started with is never used up: a run with more fuel has the same result.
\<close>

section \<open>Valid UTF-8\<close>

function utf8_ok :: "string \<Rightarrow> bool" where
  "utf8_ok [] \<longleftrightarrow> True"
| "utf8_ok (c # cs) \<longleftrightarrow>
     (if (of_char c :: nat) < 128 then utf8_ok cs
      else if rune_len (c # cs) = 0 then False
      else utf8_ok (drop (rune_len (c # cs)) (c # cs)))"
  by pat_completeness auto
termination
  by (relation "measure length") (auto simp: less_Suc_eq_le)

lemma rune_len_take:
  assumes "rune_len s \<noteq> 0"
  shows "rune_len (take (rune_len s) s) = rune_len s" and "rune_len s \<le> length s" and "2 \<le> rune_len s"
    and "rune_len (s @ t) = rune_len s"
proof -
  have "rune_len (take (rune_len s) s) = rune_len s \<and> rune_len s \<le> length s \<and> 2 \<le> rune_len s \<and> rune_len (s @ t) = rune_len s"
  proof (cases s rule: rune_len.cases)
    case (1 a b c d rest)
    with assms show ?thesis
      by (auto simp: byte_in_def numeral_2_eq_2 numeral_3_eq_3 eval_nat_numeral split: if_splits)
  next
    case (2 a b c)
    with assms show ?thesis
      by (cases t) (auto simp: byte_in_def numeral_2_eq_2 numeral_3_eq_3 split: if_splits)
  next
    case (3 a b)
    with assms show ?thesis
      by (cases t; cases "tl t") (auto simp: byte_in_def numeral_2_eq_2 split: if_splits)
  qed (use assms in simp_all)
  then show "rune_len (take (rune_len s) s) = rune_len s" and "rune_len s \<le> length s" and "2 \<le> rune_len s"
    and "rune_len (s @ t) = rune_len s" by simp_all
qed

lemma utf8_ok_drop:
  "rune_len s \<noteq> 0 \<Longrightarrow> \<not> (of_char (hd s) :: nat) < 128 \<Longrightarrow> utf8_ok s \<longleftrightarrow> utf8_ok (drop (rune_len s) s)"
  by (cases s) (simp_all del: drop_Cons' rune_len.simps)

lemma utf8_ok_append: "utf8_ok a \<Longrightarrow> utf8_ok b \<Longrightarrow> utf8_ok (a @ b)"
proof (induction a rule: utf8_ok.induct)
  case 1
  then show ?case by simp
next
  case (2 c cs)
  show ?case
  proof (cases "(of_char c :: nat) < 128")
    case True
    with 2 show ?thesis by simp
  next
    case False
    with "2.prems" have r: "rune_len (c # cs) \<noteq> 0" and u: "utf8_ok (drop (rune_len (c # cs)) (c # cs))"
      by (simp_all split: if_splits del: drop_Cons' rune_len.simps)
    have d: "drop (rune_len (c # cs)) ((c # cs) @ b) = drop (rune_len (c # cs)) (c # cs) @ b"
      unfolding drop_append using rune_len_take(2) [OF r] by (simp del: drop_Cons' rune_len.simps)
    have "utf8_ok (drop (rune_len (c # cs)) ((c # cs) @ b))"
      unfolding d by (rule "2.IH"(2) [OF False r u "2.prems"(2)])
    then show ?thesis
      using utf8_ok_drop [of "(c # cs) @ b"] rune_len_take(4) [OF r, of b] r False
      by (simp del: drop_Cons' rune_len.simps)
  qed
qed

lemma utf8_ok_rune:
  assumes "rune_len s \<noteq> 0" and "s = c # cs" and "128 \<le> (of_char c :: nat)"
  shows "utf8_ok (take (rune_len s) s)"
proof -
  let ?k = "rune_len s"
  obtain x where x: "take ?k s = c # x" using assms(2) rune_len_take(3) [OF assms(1)] by (cases ?k) auto
  have "drop ?k (take ?k s) = []" by simp
  with x rune_len_take(1) [OF assms(1)] assms show ?thesis by (metis not_less utf8_ok.simps)
qed

lemma rune_split:
  fixes r :: nat
  obtains a b c where "r = 64 * (b + 64 * a) + c" and "b < 64" and "c < 64"
    and "r mod 64 = c" and "r div 64 mod 64 = b" and "r div 4096 = a"
proof
  have "r div 4096 = r div 64 div 64" by (simp add: div_mult2_eq [symmetric])
  then show "r = 64 * (r div 64 mod 64 + 64 * (r div 4096)) + r mod 64" by simp
qed simp_all

lemma encode_rune_ok:
  assumes "r < 1114112" and "\<not> (55296 \<le> r \<and> r < 57344)"
  shows "utf8_ok (encode_rune r)"
proof -
  consider "r < 128" | "128 \<le> r" "r < 2048" | "2048 \<le> r" "r < 65536" | "65536 \<le> r" by linarith
  then show ?thesis
  proof cases
    case 1
    then show ?thesis by (simp add: encode_rune_def)
  next
    case 2
    then have "2 \<le> r div 64" "r div 64 < 32" "r mod 64 < 64" by (auto simp: less_mult_imp_div_less)
    with 2 show ?thesis by (simp add: encode_rune_def byte_in_def is_cont_def)
  next
    case 3
    obtain a b c where r: "r = 64 * (b + 64 * a) + c" "b < 64" "c < 64"
      and d: "r mod 64 = c" "r div 64 mod 64 = b" "r div 4096 = a" by (rule rune_split)
    have "a < 16" using r(1) 3(2) by simp
    moreover have "a = 0 \<longrightarrow> 32 \<le> b" using r 3 by auto
    moreover have "a = 13 \<longrightarrow> b < 32" using r assms(2) by auto
    ultimately show ?thesis
      using 3 r(2,3) by (auto simp: encode_rune_def d byte_in_def is_cont_def)
  next
    case 4
    obtain q b c where r: "r = 64 * (b + 64 * q) + c" "b < 64" "c < 64"
      and d: "r mod 64 = c" "r div 64 mod 64 = b" "r div 4096 = q" by (rule rune_split)
    have "r div 262144 = q div 64" by (simp only: d(3) [symmetric] div_mult2_eq [symmetric]) simp
    moreover obtain e f where q: "q = 64 * e + f" "f < 64" using div_mult_mod_eq [of q 64] by (metis mod_less_divisor mult.commute zero_less_numeral)
    ultimately have e: "r div 262144 = e" "q mod 64 = f" by simp_all
    have "e < 5" using r(1) q(1) assms(1) by simp
    moreover have "e = 0 \<longrightarrow> 16 \<le> f" using r q 4 by auto
    moreover have "e = 4 \<longrightarrow> f < 16" using r q assms(1) by auto
    ultimately show ?thesis
      using 4 r(2,3) q(2) by (auto simp: encode_rune_def d e byte_in_def is_cont_def)
  qed
qed

section \<open>What the scanner reads\<close>

lemma hex_val_less: "hex_val c = Some n \<Longrightarrow> n < 16"
  by (auto simp: hex_val_def byte_in_def Let_def split: if_splits)

lemma hex4_less: "hex4 s = Some r \<Longrightarrow> r < 65536"
  by (cases s rule: hex4.cases) (fastforce dest!: hex_val_less split: option.splits)+

lemma unescape_u_valid:
  "unescape_u s = Some (r, k) \<Longrightarrow> r < 1114112 \<and> \<not> (55296 \<le> r \<and> r < 57344)"
  by (auto simp: unescape_u_def dest!: hex4_less split: option.splits list.splits if_splits)

lemma unescape_ascii: "unescape e = Some x \<Longrightarrow> (of_char x :: nat) < 128"
  by (auto simp: unescape_def ch_quote_def ch_back_def split: if_splits)

text \<open>One step of the scanner: it ends, or reads some valid bytes and goes on behind them.\<close>

lemma scan_string_step:
  assumes "scan_string (c # cs) = Some (v, t)"
  obtains "c = ch_quote" and "v = []" and "t = cs"
  | bs v' s' where "v = bs @ v'" and "utf8_ok bs" and "length s' \<le> length cs" and "scan_string s' = Some (v', t)"
proof -
  consider "c = ch_quote" | "c \<noteq> ch_quote" "c = ch_back" | "c \<noteq> ch_quote" "c \<noteq> ch_back" "32 \<le> (of_char c :: nat)"
    using assms by (auto split: if_splits)
  then show ?thesis
  proof cases
    case 1
    with assms that(1) show ?thesis by simp
  next
    case 2
    with assms obtain e r where cs: "cs = e # r" by (auto split: list.splits)
    show ?thesis
    proof (cases "e = CHR ''u''")
      case True
      with assms 2 cs obtain rn k v' where u: "unescape_u r = Some (rn, k)"
        and s: "scan_string (drop k r) = Some (v', t)" "v = encode_rune rn @ v'"
        by (auto split: option.splits)
      have "utf8_ok (encode_rune rn)" using unescape_u_valid [OF u] by (intro encode_rune_ok) auto
      then show ?thesis using that(2) [OF s(2) _ _ s(1)] cs by simp
    next
      case False
      with assms 2 cs obtain x v' where x: "unescape e = Some x" and s: "scan_string r = Some (v', t)" "v = [x] @ v'"
        by (auto split: option.splits)
      show ?thesis using that(2) [OF s(2) _ _ s(1)] unescape_ascii [OF x] cs by simp
    qed
  next
    case 3
    show ?thesis
    proof (cases "(of_char c :: nat) < 128")
      case True
      with assms 3 obtain v' where s: "scan_string cs = Some (v', t)" "v = [c] @ v'" by auto
      show ?thesis using that(2) [OF s(2) _ _ s(1)] True by simp
    next
      case False
      note big = this
      show ?thesis
      proof (cases "rune_len (c # cs) = 0")
        case True
        with assms 3 big obtain v' where s: "scan_string cs = Some (v', t)" "v = replacement_bytes @ v'"
          by (auto simp del: rune_len.simps)
        have "utf8_ok replacement_bytes" unfolding replacement_bytes_def by (rule encode_rune_ok) simp_all
        then show ?thesis using that(2) [OF s(2) _ _ s(1)] by simp
      next
        case False
        with assms 3 big obtain v' where s: "scan_string (drop (rune_len (c # cs)) (c # cs)) = Some (v', t)"
          "v = take (rune_len (c # cs)) (c # cs) @ v'"
          by (auto simp del: rune_len.simps drop_Cons' take_Cons')
        have "utf8_ok (take (rune_len (c # cs)) (c # cs))" using big by (intro utf8_ok_rune [OF False]) auto
        moreover have "length (drop (rune_len (c # cs)) (c # cs)) \<le> length cs"
          using False by (simp del: rune_len.simps drop_Cons')
        ultimately show ?thesis using that(2) [OF s(2) _ _ s(1)] by blast
      qed
    qed
  qed
qed

lemma scan_string_reads: "scan_string s = Some (v, t) \<Longrightarrow> utf8_ok v \<and> length t < length s"
proof (induction s arbitrary: v rule: length_induct)
  case (1 s)
  then obtain c cs where s: "s = c # cs" by (cases s) auto
  with "1.prems" have "scan_string (c # cs) = Some (v, t)" by simp
  then show ?case
  proof (cases rule: scan_string_step)
    case 1
    with s show ?thesis by simp
  next
    case (2 bs v' s')
    have "length s' < length s" using 2 s by simp
    with "1.IH" 2 have "utf8_ok v' \<and> length t < length s'" by blast
    with 2 s show ?thesis by (auto intro: utf8_ok_append)
  qed
qed

section \<open>Literals read back\<close>

lemma hex_val_digit: "n < 16 \<Longrightarrow> hex_val (hex_digit n) = Some n"
  by (simp add: hex_val_def hex_digit_def byte_in_def Let_def)

lemma scan_escape: "scan_string (ch_back # e # r) =
  (if e = CHR ''u'' then (case unescape_u r of None \<Rightarrow> None
     | Some (rn, k) \<Rightarrow> map_option (\<lambda>(v, t). (encode_rune rn @ v, t)) (scan_string (drop k r)))
   else (case unescape e of None \<Rightarrow> None | Some x \<Rightarrow> map_option (\<lambda>(v, t). (x # v, t)) (scan_string r)))"
  by (simp add: ch_back_def ch_quote_def)

lemma ch_codes: "ch_quote = CHR 0x22" "ch_back = CHR 0x5C"
  by code_simp+

lemma char_codes:
  "char_of (34 :: nat) = CHR 0x22" "char_of (92 :: nat) = CHR 0x5C" "char_of (8 :: nat) = CHR 0x08"
  "char_of (12 :: nat) = CHR 0x0C" "char_of (10 :: nat) = CHR 0x0A" "char_of (13 :: nat) = CHR 0x0D"
  "char_of (9 :: nat) = CHR 0x09"
  by code_simp+

lemma drop4: "drop 4 (a # b # c # d # r) = r"
  by (simp add: eval_nat_numeral)

lemma scan_esc_ascii:
  assumes "(of_char c :: nat) < 128"
  shows "scan_string (esc_ascii c @ r) = map_option (\<lambda>(v, t). (c # v, t)) (scan_string r)"
proof -
  let ?n = "of_char c :: nat"
  have c: "c = char_of ?n" by simp
  consider "html_safe c" | "\<not> html_safe c" "?n \<in> {34, 92, 8, 12, 10, 13, 9}"
    | "\<not> html_safe c" "?n \<notin> {34, 92, 8, 12, 10, 13, 9}" by blast
  then show ?thesis
  proof cases
    case 1
    then have "c \<noteq> ch_quote" "c \<noteq> ch_back" "\<not> ?n < 32" by (auto simp: html_safe_def byte_in_def ch_quote_def ch_back_def)
    with 1 assms show ?thesis by (simp add: esc_ascii_def)
  next
    case 2
    then have "c \<in> char_of ` {34, 92, 8, 12, 10, 13, 9 :: nat}" by (metis char_of_char imageI)
    then show ?thesis
      by (elim imageE insertE emptyE)
        (simp_all add: esc_ascii_def html_safe_def byte_in_def scan_escape [unfolded ch_codes] unescape_def ch_codes
          char_codes del: scan_string.simps)
  next
    case 3
    then have e: "esc_ascii c = [ch_back, CHR ''u'', CHR ''0'', CHR ''0'', hex_digit (?n div 16), hex_digit (?n mod 16)]"
      by (simp add: esc_ascii_def Let_def)
    have z: "hex_val CHR ''0'' = Some 0" by (simp add: hex_val_def byte_in_def)
    have "?n div 16 < 16" "?n mod 16 < 16" using assms by auto
    then have "unescape_u (CHR ''0'' # CHR ''0'' # hex_digit (?n div 16) # hex_digit (?n mod 16) # r) = Some (?n, 4)"
      using assms by (simp add: unescape_u_def hex_val_digit z)
    then show ?thesis using assms by (simp add: e scan_escape encode_rune_def drop4 del: scan_string.simps)
  qed
qed

lemma scan_esc_rune:
  assumes "rune_len s \<noteq> 0" and "bs = take (rune_len s) s" and "128 \<le> (of_char (hd s) :: nat)"
  shows "scan_string (esc_rune bs @ r) = map_option (\<lambda>(v, t). (bs @ v, t)) (scan_string r)"
proof -
  consider "bs = encode_rune 8232" | "bs = encode_rune 8233" "bs \<noteq> encode_rune 8232" | "bs \<noteq> encode_rune 8232" "bs \<noteq> encode_rune 8233" by blast
  then show ?thesis
  proof cases
    case 1
    have "unescape_u (''2028'' @ r) = Some (8232, 4)" by (simp add: unescape_u_def hex_val_def byte_in_def)
    then show ?thesis using 1 by (simp add: esc_rune_def scan_escape drop4 del: scan_string.simps)
  next
    case 2
    have "unescape_u (''2029'' @ r) = Some (8233, 4)" by (simp add: unescape_u_def hex_val_def byte_in_def)
    then show ?thesis using 2 by (simp add: esc_rune_def scan_escape drop4 del: scan_string.simps)
  next
    case 3
    note t = rune_len_take [OF assms(1)]
    obtain c x where bs: "bs = c # x" and c: "c = hd s"
      using t(2,3) assms(1,2) by (cases s; cases "rune_len s") auto
    have k: "rune_len bs = rune_len s" "length bs = rune_len s" using t assms(2) by simp_all
    then have "rune_len (bs @ r) = length bs" using rune_len_take(4) [of bs r] assms(1) by simp
    moreover have "c \<noteq> ch_quote" "c \<noteq> ch_back" "\<not> (of_char c :: nat) < 32" "\<not> (of_char c :: nat) < 128"
      using assms(3) c by (auto simp: ch_quote_def ch_back_def)
    moreover have "esc_rune bs = bs" using 3 by (simp add: esc_rune_def)
    ultimately show ?thesis using bs k(1) assms(1) by (simp add: k(2) [symmetric] del: rune_len.simps)
  qed
qed

lemma scan_quoted: "utf8_ok s \<Longrightarrow> scan_string (quote_body s @ ch_quote # r) = Some (s, r)"
proof (induction s rule: quote_body.induct)
  case 1
  show ?case by simp
next
  case (2 c cs)
  show ?case
  proof (cases "(of_char c :: nat) < 128")
    case True
    with 2 show ?thesis by (simp add: scan_esc_ascii del: scan_string.simps)
  next
    case False
    let ?s = "c # cs"
    from False "2.prems" have k: "rune_len ?s \<noteq> 0" and u: "utf8_ok (drop (rune_len ?s) ?s)"
      by (simp_all split: if_splits del: drop_Cons' rune_len.simps)
    have "quote_body ?s = esc_rune (take (rune_len ?s) ?s) @ quote_body (drop (rune_len ?s) ?s)"
      using False k by (simp del: drop_Cons' take_Cons' rune_len.simps)
    moreover have "scan_string (esc_rune (take (rune_len ?s) ?s) @ r') =
        map_option (\<lambda>(v, t). (take (rune_len ?s) ?s @ v, t)) (scan_string r')" for r'
      using False by (intro scan_esc_rune [OF k refl]) simp
    ultimately show ?thesis
      using "2.IH"(3) [OF False k u] by (simp del: drop_Cons' take_Cons' rune_len.simps scan_string.simps quote_body.simps)
  qed
qed

section \<open>Fuel\<close>

lemma skip_ws_Cons: "skip_ws s = c # r \<Longrightarrow> length r < length s"
  using length_dropWhile_le [of is_ws s] by (simp add: skip_ws_def)

lemma scan_digits_length: "scan_digits s = (ds, t) \<Longrightarrow> length s = length ds + length t"
  by (metis length_append takeWhile_dropWhile_id scan_digits_def prod.inject)

lemma scan_int_part_length: "scan_int_part s = Some (ds, t) \<Longrightarrow> length t < length s"
  by (auto simp: scan_int_part_def scan_digits_def less_Suc_eq_le length_dropWhile_le split: list.splits if_splits)

lemma scan_frac_length: "scan_frac s = Some (f, t) \<Longrightarrow> length t \<le> length s"
  by (auto simp: scan_frac_def dest!: scan_digits_length split: list.splits if_splits prod.splits)

lemma scan_exp_length: "scan_exp s = Some (e, t) \<Longrightarrow> length t \<le> length s"
  by (auto simp: scan_exp_def Let_def dest!: scan_digits_length split: list.splits if_splits prod.splits)

lemma scan_number_length: "scan_number s = Some (l, t) \<Longrightarrow> length t < length s"
  by (fastforce simp: scan_number_def dest!: scan_int_part_length scan_frac_length scan_exp_length
      split: list.splits if_splits option.splits prod.splits)

lemma scan_lit_length: "scan_lit w v s = Some (j, t) \<Longrightarrow> w \<noteq> [] \<Longrightarrow> s \<noteq> [] \<Longrightarrow> length t < length s"
  by (auto simp: scan_lit_def split: if_splits)

lemmas scan_lengths = scan_number_length scan_lit_length scan_string_reads skip_ws_Cons

lemma parse_length:
  "parse_value n d s = Some (j, t) \<Longrightarrow> length t < length s"
  "parse_elems n d s = Some (js, t) \<Longrightarrow> length t < length s"
  "parse_members n d s = Some (ms, t) \<Longrightarrow> length t < length s"
proof (induction n d s and n d s and n d s arbitrary: j t and js t and ms t
    rule: parse_value_parse_elems_parse_members.induct)
  case (2 n d s)
  then obtain c r where s: "skip_ws s = c # r" by (auto split: list.splits)
  have r: "length r < length s" by (rule skip_ws_Cons [OF s])
  consider (obj) "c = CHR ''{''" | (arr) "c = CHR ''[''" | (str) "c = ch_quote" "c \<noteq> CHR ''{''" "c \<noteq> CHR ''[''"
    | (other) "c \<noteq> CHR ''{''" "c \<noteq> CHR ''[''" "c \<noteq> ch_quote" by blast
  then have "length t < length (c # r)"
  proof cases
    case obj
    from "2.prems" s obj obtain x r' where x: "skip_ws r = x # r'" by (auto split: if_splits list.splits)
    with "2.prems" s obj "2.IH"(1) [OF s _ _ x] skip_ws_Cons [OF x] show ?thesis
      by (fastforce split: if_splits)
  next
    case arr
    from "2.prems" s arr obtain x r' where x: "skip_ws r = x # r'" by (auto split: if_splits list.splits)
    with "2.prems" s arr "2.IH"(2) [OF s _ _ _ x] skip_ws_Cons [OF x] show ?thesis
      by (fastforce split: if_splits)
  next
    case str
    with "2.prems" s show ?thesis by (fastforce dest: scan_string_reads)
  next
    case other
    with "2.prems" s show ?thesis by (auto dest!: scan_number_length scan_lit_length split: if_splits)
  qed
  with skip_ws_Cons [OF s] show ?case by simp
next
  case (4 n d s)
  from "4.prems" obtain v u where v: "parse_value n d s = Some (v, u)" by (auto split: option.splits)
  with "4.prems" obtain c r where c: "skip_ws u = c # r" by (auto split: list.splits)
  have "length r < length s" using "4.IH"(1) [OF v] skip_ws_Cons [OF c] by simp
  with "4.prems" v c "4.IH"(2) [OF v refl c] show ?case by (fastforce split: if_splits)
next
  case (6 n d s)
  from "6.prems" obtain q r0 where q: "skip_ws s = q # r0" "q = ch_quote" by (auto split: list.splits if_splits)
  with "6.prems" obtain k t0 where k: "scan_string r0 = Some (k, t0)" by (auto split: option.splits)
  with "6.prems" q obtain p r1 where p: "skip_ws t0 = p # r1" "p = CHR '':''" by (auto split: list.splits if_splits)
  with "6.prems" q k obtain v u where v: "parse_value n d r1 = Some (v, u)" by (auto split: option.splits)
  with "6.prems" q k p obtain c r where c: "skip_ws u = c # r" by (auto split: list.splits)
  have "length r < length s"
    using "6.IH"(1) [OF q(1) _ k refl p(1) _ v] q p scan_string_reads [OF k] skip_ws_Cons [OF c] skip_ws_Cons [OF q(1)] skip_ws_Cons [OF p(1)]
    by simp
  with "6.prems" q k p v c "6.IH"(2) [OF q(1) _ k refl p(1) _ v refl c] show ?case by (fastforce split: if_splits)
qed simp_all

text \<open>
  A value of a text of length \<open>l\<close> needs at most \<open>2 * l + 1\<close> units of fuel, the elements or
  members of a container one more.
\<close>

lemma parse_fuel_Suc:
  "(2 * length s < n \<longrightarrow> parse_value (Suc n) d s = parse_value n d s) \<and>
   (2 * length s + 1 < n \<longrightarrow> parse_elems (Suc n) d s = parse_elems n d s) \<and>
   (2 * length s + 1 < n \<longrightarrow> parse_members (Suc n) d s = parse_members n d s)"
proof (induction n arbitrary: d s)
  case 0
  then show ?case by simp
next
  case (Suc n)
  have V: "parse_value (Suc n) d' x = parse_value n d' x" if "2 * length x < n" for d' x
    using Suc.IH that by blast
  have L: "parse_elems (Suc n) d' x = parse_elems n d' x" if "2 * length x + 1 < n" for d' x
    using Suc.IH that by blast
  have M: "parse_members (Suc n) d' x = parse_members n d' x" if "2 * length x + 1 < n" for d' x
    using Suc.IH that by blast
  show ?case
  proof (intro conjI impI)
    assume n: "2 * length s < Suc n"
    have "parse_elems (Suc n) (Suc d) r = parse_elems n (Suc d) r \<and> parse_members (Suc n) (Suc d) r = parse_members n (Suc d) r"
      if "skip_ws s = c # r" for c r
      using skip_ws_Cons [OF that] n by (simp only: L M)
    then show "parse_value (Suc (Suc n)) d s = parse_value (Suc n) d s"
      unfolding parse_value.simps by (auto split: list.splits)
  next
    assume n: "2 * length s + 1 < Suc n"
    have v: "parse_value (Suc n) d s = parse_value n d s" using n by (intro V) simp
    have "parse_elems (Suc n) d r = parse_elems n d r" if "parse_value n d s = Some (j, t)" "skip_ws t = c # r" for j t c r
      using parse_length(1) [OF that(1)] skip_ws_Cons [OF that(2)] n by (intro L) simp
    then show "parse_elems (Suc (Suc n)) d s = parse_elems (Suc n) d s"
      unfolding parse_elems.simps v by (auto split: list.splits option.splits)
  next
    assume n: "2 * length s + 1 < Suc n"
    note [simp del] = parse_value.simps parse_elems.simps parse_members.simps
    show "parse_members (Suc (Suc n)) d s = parse_members (Suc n) d s"
    proof (cases "skip_ws s")
      case Nil
      then show ?thesis by (simp add: parse_members.simps)
    next
      case (Cons q r0)
      note q = this
      show ?thesis
      proof (cases "scan_string r0")
        case None
        with q show ?thesis by (simp add: parse_members.simps)
      next
        case (Some kt)
        then obtain k t0 where k: "scan_string r0 = Some (k, t0)" by (cases kt) simp
        show ?thesis
        proof (cases "skip_ws t0")
          case Nil
          with q k show ?thesis by (simp add: parse_members.simps)
        next
          case (Cons p r1)
          have r1: "length r1 < length s"
            using skip_ws_Cons [OF q] scan_string_reads [OF k] skip_ws_Cons [OF Cons] by simp
          then have v: "parse_value (Suc n) d r1 = parse_value n d r1" using n by (intro V) simp
          have "parse_members (Suc n) d r = parse_members n d r"
            if "parse_value n d r1 = Some (j, t)" "skip_ws t = c # r" for j t c r
            using parse_length(1) [OF that(1)] skip_ws_Cons [OF that(2)] n r1 by (intro M) simp
          then show ?thesis
            unfolding parse_members.simps(2) [of "Suc n" d s] parse_members.simps(2) [of n d s]
            using q k Cons v
            by (auto split: list.splits option.splits)
        qed
      qed
    qed
  qed
qed

lemma parse_fuel_enough: "2 * length s + 2 \<le> n \<Longrightarrow> parse_value n d s = parse_value (2 * length s + 2) d s"
proof (induction n rule: dec_induct)
  case (step n)
  then show ?case using parse_fuel_Suc [of s n d] by simp
qed simp

end
