(* ===== verification/Json_Numbers.thy ===== *)
theory Json_Numbers
  imports Json_Text
begin

text \<open>
  Number literals of JSON: the decimal digits chosen for a float read back as that float.
  Seventeen digits always suffice, because they leave an error of less than half the distance
  to the next float.
\<close>

section \<open>Rounding close to a float\<close>

lemma round_half_even_near:
  assumes "\<bar>z - of_int n\<bar> < 1 / 2"
  shows "round_half_even z = n"
proof (cases "of_int n \<le> z")
  case True
  with assms have "\<lfloor>z\<rfloor> = n" by (intro floor_unique) linarith+
  with assms True show ?thesis by (simp add: round_half_even_def)
next
  case False
  with assms have "\<lfloor>z\<rfloor> = n - 1" by (intro floor_unique; simp only: of_int_diff of_int_1; linarith)
  with assms False show ?thesis by (simp add: round_half_even_def abs_if)
qed

definition exp64 :: "rat \<Rightarrow> int" where
  "exp64 x = max (ilog2 x) (- 1022)"

lemma ulp64_exp: "ulp64 x = 2 powi (exp64 x - 52)"
  by (simp add: ulp64_def exp64_def)

lemma rnd64_to_grid:
  assumes "0 < y" and "exp64 y = e" and "\<bar>y - of_int n * 2 powi (e - 52)\<bar> < 2 powi (e - 53)"
  shows "rnd64 y = of_int n * 2 powi (e - 52)"
proof -
  define u :: rat where "u = 2 powi (e - 52)"
  have u: "0 < u" by (simp add: u_def)
  have h: "(2 :: rat) powi (e - 53) = u / 2"
    using power_int_diff [of "2 :: rat" "e - 52" 1] by (simp add: u_def)
  have "\<bar>(y - of_int n * u) / u\<bar> < 1 / 2"
    using assms(3) u by (simp add: h u_def [symmetric] abs_divide divide_simps)
  then have "round_half_even (y / u) = n"
    using u by (intro round_half_even_near) (simp add: diff_divide_distrib)
  with assms(1,2) show ?thesis by (simp add: rnd64_def ulp64_exp u_def)
qed

lemma powi2_le: "a \<le> b \<Longrightarrow> (2 :: rat) powi a \<le> 2 powi b"
  by (rule power_int_increasing) auto

lemma powi2_less: "a < b \<Longrightarrow> (2 :: rat) powi a < 2 powi b"
  by (rule power_int_strict_increasing) auto

lemma powi2_Suc: "(2 :: rat) powi (a + 1) = 2 * 2 powi a"
  by (simp add: power_int_add)

lemma ilog2_le: "0 < x \<Longrightarrow> x < 2 powi (k + 1) \<Longrightarrow> ilog2 x \<le> k"
  using ilog2_bounds(1) [of x] powi2_less_imp [of "ilog2 x" "k + 1"] by linarith

lemma ilog2_ge: "2 powi k \<le> x \<Longrightarrow> k \<le> ilog2 x"
proof -
  assume k: "2 powi k \<le> x"
  then have x: "0 < x" by (rule less_le_trans [rotated]) simp
  then show ?thesis using ilog2_bounds(2) [OF x] k powi2_less_imp [of k "ilog2 x + 1"] by linarith
qed

text \<open>A multiple of a power of two with at most 53 bits is a float.\<close>

lemma rnd64_grid:
  assumes "0 < n" and "n < 2 ^ 53" and "- 1074 \<le> k"
  shows "rnd64 (of_int n * 2 powi k) = of_int n * 2 powi k"
proof -
  define y :: rat where "y = of_int n * 2 powi k"
  have y: "0 < y" using assms(1) by (simp add: y_def)
  have "(of_int n :: rat) < of_int (2 ^ 53)" using assms(2) by (simp only: of_int_less_iff)
  then have "y < 2 powi (k + 52 + 1)" by (simp add: y_def power_int_add mult.commute)
  with y have "ilog2 y \<le> k + 52" by (rule ilog2_le)
  then have "exp64 y - 52 \<le> k" using assms(3) by (simp add: exp64_def)
  then obtain j where j: "k = exp64 y - 52 + int j" using zle_iff_zadd by auto
  have g: "y = of_int (n * 2 ^ j) * 2 powi (exp64 y - 52)"
    by (subst y_def) (simp add: j power_int_add)
  then have "rnd64 y = of_int (n * 2 ^ j) * 2 powi (exp64 y - 52)"
    using y by (intro rnd64_to_grid) simp_all
  then have "rnd64 y = y" by (simp only: g [symmetric])
  then show ?thesis by (simp add: y_def)
qed

lemma rnd64_idem:
  assumes "0 \<le> x"
  shows "rnd64 (rnd64 x) = rnd64 x"
proof (cases "rnd64 x = 0")
  case True
  then show ?thesis by (simp add: rnd64_def)
next
  case False
  then have x: "0 < x" using assms by (cases "x = 0") (simp_all add: rnd64_def)
  define n where "n = round_half_even (x / ulp64 x)"
  have r: "rnd64 x = of_int n * 2 powi (exp64 x - 52)" using x by (simp add: rnd64_def n_def ulp64_exp)
  have "0 < of_int n * (2 :: rat) powi (exp64 x - 52)" using False rnd64_nonneg [OF assms] by (simp add: r [symmetric])
  then have n: "0 < n" using zero_less_power_int [of "2 :: rat" "exp64 x - 52"]
    by (auto simp: zero_less_mult_iff simp del: zero_less_power_int)
  have "x < 2 powi (exp64 x + 1)"
    using ilog2_bounds(2) [OF x] powi2_le [of "ilog2 x + 1" "exp64 x + 1"] by (simp add: exp64_def)
  also have "\<dots> = 2 ^ 53 * ulp64 x" by (simp add: ulp64_exp power_int_diff power_int_add)
  finally have "x / ulp64 x < 2 ^ 53" by (simp add: divide_less_eq)
  moreover have "of_int n - x / ulp64 x \<le> 1 / 2" using abs_le_D1 [OF round_half_even_error [of "x / ulp64 x"]] by (simp only: n_def)
  ultimately have "(of_int n :: rat) < of_int (2 ^ 53 + 1)" by simp
  then have "n \<le> 2 ^ 53" by (simp only: of_int_less_iff)
  then consider "n < 2 ^ 53" | "n = 2 ^ 53" by linarith
  then show ?thesis
  proof cases
    case 1
    then show ?thesis unfolding r using n by (intro rnd64_grid) (simp_all add: exp64_def)
  next
    case 2
    have "rnd64 x = of_int (2 ^ 52) * 2 powi (exp64 x - 51)"
      using power_int_add [of "2 :: rat" "exp64 x - 52" 1] by (simp add: r 2)
    then show ?thesis by (simp only:) (rule rnd64_grid, simp_all add: exp64_def)
  qed
qed

text \<open>
  A rational within one part in \<open>2 ^ 54\<close> of a float rounds to that float.  Below a power of two
  the floats are twice as dense as above it, which the bound takes into account.
\<close>

lemma rnd64_near:
  assumes "0 < x" and "rnd64 x = x" and "\<bar>y - x\<bar> < x / 2 ^ 54"
  shows "rnd64 y = x"
proof -
  define e where "e = exp64 x"
  define u :: rat where "u = 2 powi (e - 52)"
  have u: "0 < u" by (simp add: u_def)
  have h: "2 powi (e - 53) = u / 2" "2 powi (e - 54) = u / 4" "2 powi (e + 1) = 2 ^ 53 * u" "2 powi e = 2 ^ 52 * u"
    using power_int_diff [of "2 :: rat" "e - 52" 1] power_int_diff [of "2 :: rat" "e - 52" 2]
      power_int_add [of "2 :: rat" "e - 52" 53] power_int_add [of "2 :: rat" "e - 52" 52]
    by (simp_all add: u_def add.commute [of e 1])
  obtain n where n: "x = of_int n * u"
    using assms(1,2) by (metis rnd64_def ulp64_exp u_def e_def less_irrefl)
  have top: "x < 2 ^ 53 * u"
  proof -
    have "ilog2 x + 1 \<le> e + 1" by (simp add: e_def exp64_def)
    then have "x < 2 powi (e + 1)" using ilog2_bounds(2) [OF assms(1)] powi2_le by (meson less_le_trans)
    then show ?thesis by (simp only: h(3))
  qed
  have n53: "n < 2 ^ 53"
  proof -
    have "of_int n < (of_int (2 ^ 53) :: rat)" using top u by (simp add: n)
    then show ?thesis by (simp only: of_int_less_iff)
  qed
  have "x / 2 ^ 54 < u / 2" using top by simp
  then have d: "\<bar>y - x\<bar> < u / 2" using assms(3) by linarith
  have y: "0 < y"
  proof -
    have "x / 2 ^ 54 < x" using assms(1) by simp
    then show ?thesis using assms(3) by linarith
  qed
  have y_top: "y < 2 powi (e + 1)"
  proof -
    have "n + 1 \<le> 2 ^ 53" using n53 by simp
    then have "(of_int (n + 1) :: rat) \<le> of_int (2 ^ 53)" by (simp only: of_int_le_iff)
    then have "(of_int (n + 1) :: rat) * u \<le> of_int (2 ^ 53) * u" using u by (intro mult_right_mono) simp_all
    then have "x + u \<le> 2 ^ 53 * u" by (simp add: n distrib_right)
    then show ?thesis unfolding h(3) using d u by linarith
  qed
  have same: "rnd64 y = x" if "exp64 y = e"
    using rnd64_to_grid [OF y that, of n] d by (simp add: n u_def h(1))
  show ?thesis
  proof (cases "- 1022 < e \<and> y < 2 powi e")
    case False
    have "ilog2 y \<le> e" using y y_top by (rule ilog2_le)
    moreover have "e = - 1022 \<or> e \<le> ilog2 y" using False ilog2_ge [of e y] by (auto simp: e_def exp64_def)
    ultimately have "exp64 y = e" by (auto simp: exp64_def e_def)
    then show ?thesis by (rule same)
  next
    case True
    then have "e = ilog2 x" by (auto simp: e_def exp64_def max_def split: if_splits)
    then have low: "2 ^ 52 * u \<le> x" using ilog2_bounds(1) [OF assms(1)] by (simp only: h(4) [symmetric])
    have "n = 2 ^ 52"
    proof -
      have "(of_int (2 ^ 52) :: rat) \<le> of_int n" using low u by (simp add: n)
      then have "2 ^ 52 \<le> n" by (simp only: of_int_le_iff)
      moreover have "\<not> 2 ^ 52 + 1 \<le> n"
      proof
        assume "2 ^ 52 + 1 \<le> n"
        then have "(of_int (2 ^ 52 + 1) :: rat) \<le> of_int n" by (simp only: of_int_le_iff)
        then have "(2 ^ 52 + 1) * u \<le> x" using u by (simp add: n)
        then show False using True d u by (simp add: h(4) distrib_right)
      qed
      ultimately show ?thesis by linarith
    qed
    then have x: "x = 2 ^ 52 * u" by (simp add: n)
    have d4: "\<bar>y - x\<bar> < u / 4" using assms(3) by (simp add: x)
    have "exp64 y = e - 1"
    proof -
      have "2 powi (e - 1) = x / 2" using power_int_diff [of "2 :: rat" e 1] by (simp add: h(4) x)
      moreover have "x - u / 4 < y" using d4 by linarith
      ultimately have "2 powi (e - 1) \<le> y" using u by (simp add: x)
      then have "e - 1 \<le> ilog2 y" by (rule ilog2_ge)
      moreover have "ilog2 y \<le> e - 1" using y True by (intro ilog2_le) simp_all
      ultimately show ?thesis using True by (simp add: exp64_def)
    qed
    then have "rnd64 y = of_int (2 ^ 53) * 2 powi (e - 1 - 52)"
      using d4 u by (intro rnd64_to_grid [OF y]) (simp_all add: h(1,2) x)
    also have "\<dots> = x" by (simp add: h(1) x)
    finally show ?thesis .
  qed
qed

section \<open>Decimal digits\<close>

lemma show_nat_length: "n < 10 ^ length (show_nat n)" "0 < n \<Longrightarrow> 10 ^ (length (show_nat n) - 1) \<le> n"
proof (induction n rule: show_nat.induct)
  case (1 n)
  show "n < 10 ^ length (show_nat n)"
    using "1.IH"(1) by (subst show_nat.simps) auto
  show "10 ^ (length (show_nat n) - 1) \<le> n" if "0 < n"
  proof (cases "n < 10")
    case True
    then show ?thesis using that by (simp add: show_nat.simps [of n])
  next
    case False
    then have "10 ^ (length (show_nat (n div 10)) - 1) \<le> n div 10" using "1.IH"(2) by simp
    moreover have "length (show_nat (n div 10)) = Suc (length (show_nat (n div 10)) - 1)"
      by (metis show_nat_nonempty Suc_diff_1 length_greater_0_conv)
    ultimately have "10 ^ length (show_nat (n div 10)) \<le> n" by (metis power_Suc mult.commute less_eq_div_iff_mult_less_eq zero_less_numeral)
    then show ?thesis using False by (simp add: show_nat.simps [of n])
  qed
qed

section \<open>The decimal exponent\<close>

lemma powi10_le: "a \<le> b \<Longrightarrow> (10 :: rat) powi a \<le> 10 powi b"
  by (rule power_int_increasing) auto

lemma hd_filter_upto:
  fixes zs :: "int list"
  assumes "a \<le> b" and "P b"
  defines "k \<equiv> \<lambda>a. hd (filter P [a .. b] @ zs)"
  shows "P (k a) \<and> a \<le> k a \<and> (k a = a \<or> \<not> P (k a - 1))"
  using assms(1)
proof (induction "nat (b - a)" arbitrary: a)
  case 0
  then have "a = b" by simp
  with assms(2) show ?case by (simp add: k_def)
next
  case (Suc n)
  then have ab: "a < b" by simp
  then have e: "[a .. b] = a # [a + 1 .. b]" by (simp add: upto_rec1)
  show ?case
  proof (cases "P a")
    case True
    then show ?thesis by (simp add: k_def e)
  next
    case False
    have "P (k (a + 1)) \<and> a + 1 \<le> k (a + 1) \<and> (k (a + 1) = a + 1 \<or> \<not> P (k (a + 1) - 1))"
      using Suc ab by simp
    moreover have "k a = k (a + 1)" using False by (simp add: k_def e)
    ultimately show ?thesis using False by auto
  qed
qed

text \<open>The smallest positive float is above \<open>10 ^ -330\<close>.\<close>

lemma small_powers: "(10 :: rat) powi (- 330) < 2 powi (- 1074)"
proof -
  have "(2 :: rat) ^ 1074 < 10 ^ 330" by simp
  then have "(1 :: rat) / 10 ^ 330 < 1 / 2 ^ 1074" by (intro divide_strict_left_mono) simp_all
  then show ?thesis by (simp add: power_int_minus inverse_eq_divide)
qed

lemma dec_exp_bounds:
  assumes "2 powi (- 1074) \<le> x"
  shows "10 powi (dec_exp x - 1) \<le> x" and "x < 10 powi (dec_exp x)"
proof -
  have "10 powi (dec_exp x - 1) \<le> x \<and> x < 10 powi (dec_exp x)"
  proof (cases "1 \<le> x")
    case True
    define n where "n = nat \<lfloor>x\<rfloor>"
    have n: "of_nat n \<le> x" "x < of_nat n + 1" "0 < n" using True floor_correct [of x] by (simp_all add: n_def)
    define l where "l = length (show_nat n)"
    have "0 < l" by (simp add: l_def)
    have "10 ^ (l - 1) \<le> n" and "n + 1 \<le> 10 ^ l"
      using show_nat_length [of n] n(3) by (simp_all add: l_def Suc_le_eq)
    then have "(of_nat (10 ^ (l - 1)) :: rat) \<le> of_nat n" and "(of_nat (n + 1) :: rat) \<le> of_nat (10 ^ l)"
      by (simp_all only: of_nat_le_iff)
    then have "(10 :: rat) ^ (l - 1) \<le> of_nat n" and "of_nat n + 1 \<le> (10 :: rat) ^ l"
      by (simp_all only: of_nat_power of_nat_numeral of_nat_add of_nat_1)
    then have "10 ^ (l - 1) \<le> x" and "x < 10 ^ l" using n(1,2) by linarith+
    moreover have "dec_exp x = int l" using True by (simp add: dec_exp_def l_def n_def)
    moreover have "int l - 1 = int (l - 1)" using \<open>0 < l\<close> by simp
    ultimately show ?thesis by (simp only: power_int_of_nat)
  next
    case False
    have "x < 10 powi 0" using False by simp
    moreover have "dec_exp x = hd (filter (\<lambda>k. x < 10 powi k) [- 330 .. 0] @ [0])"
      using False by (simp only: dec_exp_def if_False)
    ultimately have k: "x < 10 powi (dec_exp x)" "dec_exp x = - 330 \<or> \<not> x < 10 powi (dec_exp x - 1)"
      using hd_filter_upto [of "- 330" 0 "\<lambda>k. x < 10 powi k" "[0]"] by (simp_all only:)
    have "\<not> x < 10 powi (- 330)" using small_powers assms by linarith
    with k show ?thesis by auto
  qed
  then show "10 powi (dec_exp x - 1) \<le> x" and "x < 10 powi (dec_exp x)" by simp_all
qed

section \<open>Seventeen digits suffice\<close>

lemma float_min:
  assumes "0 < x" and "rnd64 x = x"
  shows "2 powi (- 1074) \<le> x"
proof -
  obtain n where n: "x = of_int n * 2 powi (exp64 x - 52)"
    using assms by (metis rnd64_def ulp64_exp less_irrefl)
  have p: "(0 :: rat) < 2 powi (exp64 x - 52)" by simp
  with assms(1) n have "0 < n" by (metis zero_less_mult_pos2 of_int_0_less_iff)
  then have "1 \<le> (of_int n :: rat)" by simp
  then have "2 powi (exp64 x - 52) \<le> x" using p n by (metis mult_right_mono mult_1 less_imp_le)
  moreover have "(2 :: rat) powi (- 1074) \<le> 2 powi (exp64 x - 52)" by (rule powi2_le) (simp add: exp64_def)
  ultimately show ?thesis by linarith
qed

lemma dec_candidates_near: "\<exists>d \<in> set (dec_candidates n x). \<bar>of_int d * 10 powi (dec_exp x - int n) - x\<bar> \<le> 10 powi (dec_exp x - int n) / 2"
proof -
  define u :: rat where "u = 10 powi (dec_exp x - int n)"
  have u: "0 < u" by (simp add: u_def)
  define lo where "lo = \<lfloor>x / u\<rfloor>"
  have f: "of_int lo * u \<le> x" "x < (of_int lo + 1) * u"
  proof -
    have "of_int lo \<le> x / u" "x / u < of_int lo + 1" using floor_correct [of "x / u"] by (simp_all add: lo_def)
    then show "of_int lo * u \<le> x" "x < (of_int lo + 1) * u" using u by (simp_all only: pos_le_divide_eq pos_divide_less_eq)
  qed
  have "\<lceil>x / u\<rceil> = lo \<or> \<lceil>x / u\<rceil> = lo + 1"
    using ceiling_diff_floor_le_1 [of "x / u"] floor_le_ceiling [of "x / u"] unfolding lo_def by linarith
  moreover have "x = of_int lo * u" if "\<lceil>x / u\<rceil> = lo"
    using that le_of_int_ceiling [of "x / u"] f(1) u by (auto simp: pos_divide_le_eq)
  ultimately show ?thesis
    using f u by (auto simp: dec_candidates_def Let_def u_def [symmetric] lo_def [symmetric] abs_if field_simps)
qed

lemma dec_candidates_nonneg:
  assumes "0 \<le> x" and "d \<in> set (dec_candidates n x)"
  shows "0 \<le> d"
proof -
  define u :: rat where "u = 10 powi (dec_exp x - int n)"
  have "0 \<le> x / u" using assms(1) by (simp add: u_def)
  then have "0 \<le> \<lfloor>x / u\<rfloor>" and "0 \<le> \<lceil>x / u\<rceil>" by linarith+
  with assms(2) show ?thesis by (auto simp: dec_candidates_def Let_def u_def split: if_splits)
qed

lemma shortest_from_ok:
  assumes "0 < x" and "n \<in> set ns" and "\<exists>d \<in> set (dec_candidates n x). rnd64 (of_int d * 10 powi (dec_exp x - int n)) = x"
    and "shortest_from x ns = (d, e)"
  shows "0 < d \<and> rnd64 (of_int d * 10 powi e) = x"
  using assms(2-4)
proof (induction ns)
  case (Cons m ns)
  let ?P = "\<lambda>d. rnd64 (of_int d * 10 powi (dec_exp x - int m)) = x"
  show ?case
  proof (cases "filter ?P (dec_candidates m x)")
    case Nil
    then have "n \<noteq> m" using Cons.prems(2) by (auto simp: filter_empty_conv)
    with Nil Cons show ?thesis by simp
  next
    case (Cons c cs)
    then have "c \<in> set (filter ?P (dec_candidates m x))" by simp
    then have c: "c \<in> set (dec_candidates m x)" "?P c" by simp_all
    have "c \<noteq> 0" using c(2) assms(1) by (auto simp: rnd64_def)
    then have "0 < c" using dec_candidates_nonneg [OF _ c(1)] assms(1) by (simp add: less_le)
    moreover have "(10 :: rat) powi dec_exp x = of_int (10 ^ m) * 10 powi (dec_exp x - int m)"
      using power_int_add [of "10 :: rat" "int m" "dec_exp x - int m"] by simp
    ultimately show ?thesis using c(2) Cons.prems(3) Cons by (auto split: if_splits)
  qed
qed simp

lemma shortest_digits_ok:
  assumes "0 < x" and "rnd64 x = x" and "shortest_digits x = (d, e)"
  shows "0 < d" and "rnd64 (of_int d * 10 powi e) = x"
proof -
  obtain c where c: "c \<in> set (dec_candidates 17 x)"
    "\<bar>of_int c * 10 powi (dec_exp x - int 17) - x\<bar> \<le> 10 powi (dec_exp x - int 17) / 2"
    using dec_candidates_near by blast
  have "(10 :: rat) powi (dec_exp x - int 17) / 2 = 10 powi (dec_exp x - 1) / (2 * 10 ^ 16)"
    using power_int_diff [of "10 :: rat" "dec_exp x - 1" 16] by simp
  also have "\<dots> \<le> x / (2 * 10 ^ 16)"
    using dec_exp_bounds(1) [OF float_min [OF assms(1,2)]] by (intro divide_right_mono) simp_all
  also have "\<dots> < x / 2 ^ 54" using assms(1) by (intro divide_strict_left_mono) simp_all
  finally have "\<bar>of_int c * 10 powi (dec_exp x - int 17) - x\<bar> < x / 2 ^ 54" using c(2) by linarith
  then have "rnd64 (of_int c * 10 powi (dec_exp x - int 17)) = x" by (rule rnd64_near [OF assms(1,2)])
  with c(1) show "0 < d" and "rnd64 (of_int d * 10 powi e) = x"
    using shortest_from_ok [OF assms(1), of 17 "[1..<18]" d e] assms(3) by (auto simp: shortest_digits_def)
qed

end
