(* ===== verification/Json_Literals.thy ===== *)
theory Json_Literals
  imports Json_Numbers
begin

text \<open>
  Number literals as text: what the encoder writes for a float or an integer is a literal of
  JSON, the scanner reads all of it and stops behind it, and its value is the number written.
\<close>

section \<open>Reading number literals\<close>

text \<open>What may follow a value: nothing that could continue a number.\<close>

definition stops :: "string \<Rightarrow> bool" where
  "stops rest \<longleftrightarrow> rest = [] \<or> (\<not> is_digit (hd rest) \<and> hd rest \<notin> {CHR ''.'', CHR ''e'', CHR ''E''})"

definition no_digit :: "string \<Rightarrow> bool" where
  "no_digit rest \<longleftrightarrow> rest = [] \<or> \<not> is_digit (hd rest)"

lemma stops_no_digit: "stops rest \<Longrightarrow> no_digit rest"
  by (auto simp: stops_def no_digit_def)

lemma no_digit_Cons [simp]: "no_digit (c # r) \<longleftrightarrow> \<not> is_digit c"
  by (simp add: no_digit_def)

definition digits :: "string \<Rightarrow> bool" where
  "digits ds \<longleftrightarrow> ds \<noteq> [] \<and> (\<forall>c \<in> set ds. is_digit c)"

lemma digits_show_nat [simp]: "digits (show_nat n)"
  using show_nat_digits [of n] by (simp add: digits_def)

lemma scan_digits_append: "digits ds \<Longrightarrow> no_digit rest \<Longrightarrow> scan_digits (ds @ rest) = (ds, rest)"
  by (cases rest) (auto simp: scan_digits_def digits_def no_digit_def takeWhile_append2 dropWhile_append2)

lemma scan_int_part_append:
  assumes "digits ds" and "hd ds = CHR ''0'' \<longrightarrow> ds = ''0''" and "no_digit rest"
  shows "scan_int_part (ds @ rest) = Some (ds, rest)"
proof (cases "hd ds = CHR ''0''")
  case True
  with assms(2) show ?thesis by (simp add: scan_int_part_def)
next
  case False
  with assms(1) obtain c r where "ds = c # r" "c \<noteq> CHR ''0''" "is_digit c" by (cases ds) (auto simp: digits_def)
  with scan_digits_append [OF assms(1,3)] show ?thesis by (simp add: scan_int_part_def)
qed

definition frac_text :: "string option \<Rightarrow> string" where
  "frac_text f = (case f of None \<Rightarrow> [] | Some ds \<Rightarrow> CHR ''.'' # ds)"

definition exp_text :: "int option \<Rightarrow> string" where
  "exp_text x = (case x of None \<Rightarrow> []
     | Some e \<Rightarrow> CHR ''e'' # (if e < 0 then CHR ''-'' else CHR ''+'') # show_nat (nat \<bar>e\<bar>))"

definition num_text :: "numlit \<Rightarrow> string" where
  "num_text l = (if nl_neg l then ''-'' else []) @ nl_int l @ frac_text (nl_frac l) @ exp_text (nl_exp l)"

definition numlit_ok :: "numlit \<Rightarrow> bool" where
  "numlit_ok l \<longleftrightarrow> digits (nl_int l) \<and> (hd (nl_int l) = CHR ''0'' \<longrightarrow> nl_int l = ''0'') \<and>
     (\<forall>f. nl_frac l = Some f \<longrightarrow> digits f)"

lemma not_digit_chars: "\<not> is_digit CHR ''.''" "\<not> is_digit CHR ''e''" "\<not> is_digit CHR ''E''" "\<not> is_digit CHR ''-''" "\<not> is_digit CHR ''+''"
  by (simp_all add: is_digit_def)

lemma scan_exp_text:
  assumes "stops rest"
  shows "scan_exp (exp_text x @ rest) = Some (x, rest)"
proof (cases x)
  case None
  with assms show ?thesis by (cases rest) (auto simp: exp_text_def scan_exp_def stops_def)
next
  case (Some e)
  have "scan_digits (show_nat (nat \<bar>e\<bar>) @ rest) = (show_nat (nat \<bar>e\<bar>), rest)"
    by (intro scan_digits_append stops_no_digit [OF assms]) simp
  with Some show ?thesis by (cases "e < 0") (simp_all add: exp_text_def scan_exp_def nat_of_digits_show_nat)
qed

lemma scan_frac_text:
  assumes "\<forall>ds. f = Some ds \<longrightarrow> digits ds" and "no_digit rest" and "rest = [] \<or> hd rest \<noteq> CHR ''.''"
  shows "scan_frac (frac_text f @ rest) = Some (f, rest)"
proof (cases f)
  case None
  with assms(3) show ?thesis by (cases rest) (auto simp: frac_text_def scan_frac_def)
next
  case (Some ds)
  with assms have "digits ds" by simp
  with scan_digits_append [OF this assms(2)] Some show ?thesis by (simp add: frac_text_def scan_frac_def digits_def)
qed

lemma scan_num_text:
  assumes "numlit_ok l" and "stops rest"
  shows "scan_number (num_text l @ rest) = Some (l, rest)"
proof -
  have x: "no_digit (exp_text e @ rest)" "exp_text e @ rest = [] \<or> hd (exp_text e @ rest) \<noteq> CHR ''.''" for e
    using assms(2) by (auto simp: exp_text_def no_digit_def stops_def not_digit_chars split: option.splits)
  have f: "no_digit (frac_text g @ exp_text e @ rest)" for g e
    using x by (auto simp: frac_text_def not_digit_chars split: option.splits)
  have i: "scan_int_part (nl_int l @ frac_text (nl_frac l) @ exp_text (nl_exp l) @ rest) =
      Some (nl_int l, frac_text (nl_frac l) @ exp_text (nl_exp l) @ rest)"
    using assms(1) by (intro scan_int_part_append f) (simp_all add: numlit_ok_def)
  have g: "scan_frac (frac_text (nl_frac l) @ exp_text (nl_exp l) @ rest) = Some (nl_frac l, exp_text (nl_exp l) @ rest)"
    using assms(1) x by (intro scan_frac_text) (auto simp: numlit_ok_def)
  obtain c r where c: "nl_int l = c # r" "c \<noteq> CHR ''-''"
    using assms(1) not_digit_chars by (cases "nl_int l") (auto simp: numlit_ok_def digits_def)
  show ?thesis
    using i g scan_exp_text [OF assms(2), of "nl_exp l"] c
    by (cases "nl_neg l") (simp_all add: scan_number_def num_text_def)
qed

section \<open>Writing number literals\<close>

lemma nat_of_digits_Nil [simp]: "nat_of_digits [] = 0"
  by (simp add: nat_of_digits_def)

lemma nat_of_digits_append: "nat_of_digits (a @ b) = nat_of_digits a * 10 ^ length b + nat_of_digits b"
proof (induction b rule: rev_induct)
  case (snoc c b)
  then show ?case
    by (simp add: nat_of_digits_snoc algebra_simps append_assoc [symmetric] del: append_assoc)
qed (simp add: nat_of_digits_def)

lemma nat_of_digits_zeros: "nat_of_digits (replicate n CHR ''0'') = 0"
  by (induction n) (simp_all add: nat_of_digits_def digit_val_def)

lemma show_nat_hd: "0 < n \<Longrightarrow> hd (show_nat n) \<noteq> CHR ''0''"
  using show_nat_no_leading_zero by blast

lemma powi10_split: "(10 :: rat) powi (a + int n) = 10 powi a * 10 ^ n"
  by (simp add: power_int_add)

lemma format_f_text:
  assumes "0 < d"
  obtains l where "numlit_ok l" and "\<not> nl_neg l" and "num_text l = format_f d e" and "numlit_rat l = of_int d * 10 powi e"
proof -
  let ?ds = "show_nat (nat d)"
  have v: "of_nat (nat_of_digits ?ds) = (of_int d :: rat)" using assms by (simp add: nat_of_digits_show_nat)
  have h: "hd ?ds \<noteq> CHR ''0''" using assms by (intro show_nat_hd) simp
  have all: "c \<in> set ?ds \<Longrightarrow> is_digit c" for c using show_nat_digits by blast
  consider "0 \<le> e" | "e < 0" "nat (- e) < length ?ds" | "e < 0" "length ?ds \<le> nat (- e)" by linarith
  then show ?thesis
  proof cases
    case 1
    let ?l = "\<lparr>nl_neg = False, nl_int = ?ds @ replicate (nat e) CHR ''0'', nl_frac = None, nl_exp = None\<rparr>"
    show ?thesis
    proof (rule that [of ?l])
      show "numlit_ok ?l" using h all by (auto simp: numlit_ok_def digits_def is_digit_def)
      show "numlit_rat ?l = of_int d * 10 powi e"
        using 1 v power_int_of_nat [of "10 :: rat" "nat e"]
        by (simp add: numlit_rat_def nat_of_digits_append nat_of_digits_zeros)
    qed (use 1 in \<open>simp_all add: num_text_def frac_text_def exp_text_def format_f_def Let_def\<close>)
  next
    case 2
    define k where "k = nat (- e)"
    let ?l = "\<lparr>nl_neg = False, nl_int = take (length ?ds - k) ?ds, nl_frac = Some (drop (length ?ds - k) ?ds), nl_exp = None\<rparr>"
    have k: "0 < k" "k < length ?ds" "e = - int k" using 2 by (simp_all add: k_def)
    show ?thesis
    proof (rule that [of ?l])
      show "numlit_ok ?l" using h all k by (auto simp: numlit_ok_def digits_def dest: in_set_takeD in_set_dropD)
      show "numlit_rat ?l = of_int d * 10 powi e" using k v by (simp add: numlit_rat_def)
    qed (use 2 k in \<open>simp_all add: num_text_def frac_text_def exp_text_def format_f_def Let_def\<close>)
  next
    case 3
    define k where "k = nat (- e)"
    let ?f = "replicate (k - length ?ds) CHR ''0'' @ ?ds"
    let ?l = "\<lparr>nl_neg = False, nl_int = ''0'', nl_frac = Some ?f, nl_exp = None\<rparr>"
    have k: "length ?ds \<le> k" "e = - int k" using 3 by (simp_all add: k_def)
    have "nat_of_digits (CHR ''0'' # ?f) = nat_of_digits (replicate (Suc (k - length ?ds)) CHR ''0'' @ ?ds)" by simp
    then have n: "nat_of_digits (CHR ''0'' # ?f) = nat_of_digits ?ds"
      by (simp only: nat_of_digits_append nat_of_digits_zeros)
    show ?thesis
    proof (rule that [of ?l])
      show "numlit_ok ?l" using all by (auto simp: numlit_ok_def digits_def is_digit_def)
      show "numlit_rat ?l = of_int d * 10 powi e" using k v n by (simp add: numlit_rat_def)
    qed (use 3 k in \<open>simp_all add: num_text_def frac_text_def exp_text_def format_f_def Let_def\<close>)
  qed
qed

lemma format_e_text:
  assumes "0 < d"
  obtains l where "numlit_ok l" and "\<not> nl_neg l" and "num_text l = format_e d e" and "numlit_rat l = of_int d * 10 powi e"
proof -
  let ?ds = "show_nat (nat d)"
  have v: "of_nat (nat_of_digits ?ds) = (of_int d :: rat)" using assms by (simp add: nat_of_digits_show_nat)
  have h: "hd ?ds \<noteq> CHR ''0''" using assms by (intro show_nat_hd) simp
  obtain c r where ds: "?ds = c # r" by (cases ?ds) auto
  have all: "is_digit c" "\<forall>x \<in> set r. is_digit x" using show_nat_digits [of "nat d"] ds by auto
  let ?l = "\<lparr>nl_neg = False, nl_int = [c], nl_frac = (if r = [] then None else Some r), nl_exp = Some (e + int (length r))\<rparr>"
  show ?thesis
  proof (rule that [of ?l])
    show "numlit_ok ?l" using all h ds by (auto simp: numlit_ok_def digits_def)
    show "numlit_rat ?l = of_int d * 10 powi e" using v ds by (auto simp: numlit_rat_def)
  qed (use ds in \<open>simp_all add: num_text_def frac_text_def exp_text_def format_e_def Let_def\<close>)
qed

section \<open>Floats and integers read back\<close>

text \<open>The magnitude of a finite float: a fixed point of the rounding, below the overflow bound.\<close>

definition float_ok :: "float64 \<Rightarrow> bool" where
  "float_ok f = (case f of Fin s m \<Rightarrow> 0 \<le> m \<and> rnd64 m = m \<and> m < 2 ^ 1024 | _ \<Rightarrow> False)"

lemma to_float_ok: "is_fin (to_float s x) \<Longrightarrow> float_ok (to_float s x)"
  using rnd64_idem [of "\<bar>x\<bar>"] rnd64_nonneg [of "\<bar>x\<bar>"]
  by (auto simp: to_float_def float_ok_def Let_def rnd64_def [of 0] not_le split: if_splits)

lemma parse_float_ok: "parse_float l = Some f \<Longrightarrow> float_ok f"
  using to_float_ok [of False "numlit_rat l"]
  by (auto simp: parse_float_def float_ok_def split: float64.splits)

lemma parse_float_reads:
  assumes "float_ok (Fin s m)" and "numlit_rat l = x" and "0 \<le> x" and "rnd64 x = m" and "nl_neg l = s"
  shows "parse_float l = Some (Fin s m)"
proof (cases "x = 0")
  case True
  with assms show ?thesis by (simp add: parse_float_def to_float_def rnd64_def)
next
  case False
  with assms show ?thesis by (simp add: parse_float_def to_float_def float_ok_def not_le)
qed

lemma format_float_text:
  assumes "float_ok (Fin s m)"
  obtains l where "numlit_ok l" and "format_float (Fin s m) = Some (num_text l)" and "parse_float l = Some (Fin s m)"
proof (cases "m = 0")
  case True
  let ?l = "\<lparr>nl_neg = s, nl_int = ''0'', nl_frac = None, nl_exp = None\<rparr>"
  have "numlit_rat ?l = 0" by (simp add: numlit_rat_def nat_of_digits_def digit_val_def)
  then have "parse_float ?l = Some (Fin s m)" using True by (simp add: parse_float_def to_float_def)
  then show ?thesis
    using True by (intro that [of ?l]) (simp_all add: numlit_ok_def digits_def is_digit_def num_text_def frac_text_def exp_text_def)
next
  case False
  with assms have m: "0 < m" "rnd64 m = m" by (simp_all add: float_ok_def)
  obtain d e where de: "shortest_digits m = (d, e)" by (cases "shortest_digits m")
  note ok = shortest_digits_ok [OF m de]
  obtain l where l: "numlit_ok l" "\<not> nl_neg l" "numlit_rat l = of_int d * 10 powi e"
    and t: "num_text l = (if m < 1 / 10 ^ 6 \<or> 10 ^ 21 \<le> m then format_e d e else format_f d e)"
    by (cases "m < 1 / 10 ^ 6 \<or> 10 ^ 21 \<le> m") (metis format_e_text [OF ok(1)], metis format_f_text [OF ok(1)])
  show ?thesis
  proof (rule that [of "l\<lparr>nl_neg := s\<rparr>"])
    show "numlit_ok (l\<lparr>nl_neg := s\<rparr>)" using l(1) by (simp add: numlit_ok_def)
    show "format_float (Fin s m) = Some (num_text (l\<lparr>nl_neg := s\<rparr>))"
      using False l(2) t by (simp add: de num_text_def)
    have "numlit_rat (l\<lparr>nl_neg := s\<rparr>) = of_int d * 10 powi e" using l(3) by (simp add: numlit_rat_def)
    then show "parse_float (l\<lparr>nl_neg := s\<rparr>) = Some (Fin s m)"
      using ok by (intro parse_float_reads [OF assms]) simp_all
  qed
qed

lemma show_nat_0: "show_nat 0 = ''0''"
  by code_simp

lemma itoa_text:
  assumes "\<bar>i\<bar> < 2 ^ 53"
  obtains l where "numlit_ok l" and "itoa i = num_text l" and "parse_float l = Some (Fin (i < 0) \<bar>of_int i\<bar>)"
proof -
  let ?l = "\<lparr>nl_neg = i < 0, nl_int = show_nat (nat \<bar>i\<bar>), nl_frac = None, nl_exp = None\<rparr>"
  have "hd (show_nat (nat \<bar>i\<bar>)) = CHR ''0'' \<longrightarrow> show_nat (nat \<bar>i\<bar>) = ''0''"
    using show_nat_no_leading_zero [of "nat \<bar>i\<bar>"] by (metis show_nat_0)
  then have "numlit_ok ?l" by (simp add: numlit_ok_def)
  moreover have "itoa i = num_text ?l" by (simp add: itoa_def num_text_def frac_text_def exp_text_def)
  moreover have "numlit_rat ?l = of_int \<bar>i\<bar>"
    using nat_of_digits_show_nat [of "nat \<bar>i\<bar>"] by (simp add: numlit_rat_def)
  then have "parse_float ?l = Some (Fin (i < 0) \<bar>of_int i\<bar>)"
    using to_float_int [of "\<bar>i\<bar>" False] assms by (simp add: parse_float_def)
  ultimately show ?thesis by (rule that)
qed

end
