(* ===== verification/Json_Roundtrip.thy ===== *)
theory Json_Roundtrip
  imports Json_Literals
begin

text \<open>
  What \<open>json.Marshal\<close> writes for a value decoded from JSON, \<open>json.Unmarshal\<close> reads back as the
  same value; integers the program puts into a map itself come back as floats, because the
  decoder knows no other numbers.
\<close>

section \<open>Values that survive\<close>

primrec normal :: "any \<Rightarrow> any" where
  "normal ANil = ANil"
| "normal (ABool b) = ABool b"
| "normal (AInt i) = AFloat (Fin (i < 0) \<bar>of_int i\<bar>)"
| "normal (AFloat f) = AFloat f"
| "normal (AString s) = AString s"
| "normal (ASlice xs) = ASlice (map normal xs)"
| "normal (AMap m) = AMap (fmmap normal m)"

text \<open>
  \<open>good n a\<close>: the strings are valid UTF-8, the floats finite, the integers small enough to be
  floats, and arrays and objects are nested at most \<open>n\<close> deep.
\<close>

inductive good :: "nat \<Rightarrow> any \<Rightarrow> bool" where
  good_nil: "good n ANil"
| good_bool: "good n (ABool b)"
| good_int: "\<bar>i\<bar> < 2 ^ 53 \<Longrightarrow> good n (AInt i)"
| good_float: "float_ok f \<Longrightarrow> good n (AFloat f)"
| good_string: "utf8_ok s \<Longrightarrow> good n (AString s)"
| good_slice: "(\<And>x. x \<in> set xs \<Longrightarrow> good n x) \<Longrightarrow> good (Suc n) (ASlice xs)"
| good_map: "(\<And>k v. fmlookup m k = Some v \<Longrightarrow> utf8_ok k \<and> good n v) \<Longrightarrow> good (Suc n) (AMap m)"

inductive_cases good_mapE: "good n (AMap m)"

lemma good_mono: "good n a \<Longrightarrow> n \<le> m \<Longrightarrow> good m a"
proof (induction arbitrary: m rule: good.induct)
  case (good_slice xs n)
  then show ?case by (cases m) (auto intro: good.good_slice)
next
  case (good_map mp n)
  then show ?case by (cases m) (auto intro!: good.good_map)
qed (auto intro: good.intros)

section \<open>Reading back a value\<close>

text \<open>
  \<open>reads n t a\<close>: the text \<open>t\<close>, followed by anything that does not continue a number, is parsed
  and decoded as \<open>a\<close> wherever there is room for \<open>n\<close> more levels, with fuel of twice its length.
\<close>

definition reads :: "nat \<Rightarrow> string \<Rightarrow> any \<Rightarrow> bool" where
  "reads n t a \<longleftrightarrow> t \<noteq> [] \<and> \<not> is_ws (hd t) \<and> hd t \<notin> {CHR '']'', CHR ''}''} \<and>
     (\<forall>d f rest. d + n \<le> max_nesting \<longrightarrow> 2 * length t \<le> f \<longrightarrow> stops rest \<longrightarrow>
        (\<exists>j. parse_value f d (t @ rest) = Some (j, rest) \<and> decode_any j = (a, False)))"

lemma skip_ws_id: "t \<noteq> [] \<Longrightarrow> \<not> is_ws (hd t) \<Longrightarrow> skip_ws (t @ r) = t @ r"
  by (cases t) (simp_all add: skip_ws_def)

lemma skip_ws_Cons_id: "\<not> is_ws c \<Longrightarrow> skip_ws (c # r) = c # r"
  by (simp add: skip_ws_def)

lemma ws_chars: "\<not> is_ws CHR '',''" "\<not> is_ws CHR '']''" "\<not> is_ws CHR ''}''" "\<not> is_ws CHR '':''" "\<not> is_ws ch_quote"
  "\<not> is_ws CHR ''{''" "\<not> is_ws CHR ''[''" "\<not> is_ws CHR ''n''" "\<not> is_ws CHR ''t''" "\<not> is_ws CHR ''f''"
  by (simp_all add: is_ws_def ch_quote_def)

lemma stops_chars: "stops (CHR '','' # r)" "stops (CHR '']'' # r)" "stops (CHR ''}'' # r)" "stops []"
  by (simp_all add: stops_def is_digit_def)

lemma reads_leaf:
  assumes "t \<noteq> []" and "\<not> is_ws (hd t)" and "hd t \<notin> {CHR '']'', CHR ''}''}"
    and "\<And>f d rest. stops rest \<Longrightarrow> parse_value (Suc f) d (t @ rest) = Some (j, rest)" and "decode_any j = (a, False)"
  shows "reads n t a"
  unfolding reads_def
proof (intro conjI allI impI)
  fix d f and rest :: string
  assume "2 * length t \<le> f" and s: "stops rest"
  then obtain f' where "f = Suc f'" using assms(1) by (cases f) simp_all
  then show "\<exists>j. parse_value f d (t @ rest) = Some (j, rest) \<and> decode_any j = (a, False)"
    using assms(4) [OF s] assms(5) by blast
qed (use assms in simp_all)

lemma ch_quote_ne: "ch_quote \<noteq> CHR ''{''" "ch_quote \<noteq> CHR ''[''" "ch_quote \<noteq> CHR '']''" "ch_quote \<noteq> CHR ''}''"
  "CHR ''n'' \<noteq> ch_quote" "CHR ''t'' \<noteq> ch_quote" "CHR ''f'' \<noteq> ch_quote"
  by (simp_all add: ch_codes)

lemmas leaf_simps = ws_chars skip_ws_Cons_id ch_quote_ne scan_lit_def has_prefix_def

lemma reads_null: "reads n ''null'' ANil"
  by (rule reads_leaf [of _ JNull]) (simp_all add: leaf_simps)

lemma reads_bool: "reads n (if b then ''true'' else ''false'') (ABool b)"
  by (rule reads_leaf [of _ "JBool b"]) (cases b; simp add: leaf_simps)+

lemma reads_string: "utf8_ok s \<Longrightarrow> reads n (quote s) (AString s)"
  by (rule reads_leaf [of _ "JStr s"]) (simp_all add: quote_def leaf_simps scan_quoted)

lemma num_text_hd: "numlit_ok l \<Longrightarrow> num_text l \<noteq> [] \<and> (hd (num_text l) = CHR ''-'' \<or> is_digit (hd (num_text l)))"
  by (cases "nl_int l") (auto simp: num_text_def numlit_ok_def digits_def)

lemma reads_number:
  assumes "numlit_ok l" and "parse_float l = Some f"
  shows "reads n (num_text l) (AFloat f)"
proof -
  obtain c r where c: "num_text l = c # r" "c = CHR ''-'' \<or> is_digit c" using num_text_hd [OF assms(1)] by (cases "num_text l") auto
  then have n: "\<not> is_ws c" "c \<notin> {CHR ''{'', CHR ''['', ch_quote, CHR ''t'', CHR ''f'', CHR ''n'', CHR '']'', CHR ''}''}"
    by (auto simp: is_ws_def is_digit_def ch_codes)
  have "parse_value (Suc k) d (num_text l @ rest) = Some (JNum l, rest)" if "stops rest" for k d rest
    using scan_num_text [OF assms(1) that] n by (simp add: c skip_ws_Cons_id)
  then show ?thesis using n assms(2) by (intro reads_leaf [of _ "JNum l"]) (simp_all add: c)
qed

section \<open>Containers\<close>

lemma readsE:
  assumes "reads n t a" and "d + n \<le> max_nesting" and "2 * length t \<le> f" and "stops rest"
  obtains j where "parse_value f d (t @ rest) = Some (j, rest)" and "decode_any j = (a, False)"
  using assms unfolding reads_def by blast

lemma readsD: "reads n t a \<Longrightarrow> t \<noteq> [] \<and> \<not> is_ws (hd t) \<and> hd t \<notin> {CHR '']'', CHR ''}''}"
  unfolding reads_def by blast

lemma join_Cons: "ts \<noteq> [] \<Longrightarrow> join sep (t # ts) = t @ sep @ join sep ts"
  by (cases ts) simp_all

lemma parse_elems_reads:
  assumes "list_all2 (reads n) ts as" and "ts \<noteq> []" and "d + n \<le> max_nesting" and "2 * length (join '','' ts) < f"
  shows "\<exists>js. parse_elems f d (join '','' ts @ CHR '']'' # rest) = Some (js, rest) \<and>
           map decode_any js = map (\<lambda>a. (a, False)) as"
  using assms
proof (induction ts arbitrary: as f)
  case (Cons t ts)
  note [simp del] = parse_value.simps
  from Cons.prems(1) obtain a as' where as: "as = a # as'" "reads n t a" "list_all2 (reads n) ts as'"
    by (auto simp: list_all2_Cons1)
  obtain f' where f: "f = Suc f'" using Cons.prems(4) by (cases f) auto
  show ?case
  proof (cases "ts = []")
    case True
    obtain j where "parse_value f' d (t @ CHR '']'' # rest) = Some (j, CHR '']'' # rest)" "decode_any j = (a, False)"
      by (rule readsE [OF as(2) Cons.prems(3) _ stops_chars(2), of f' rest]) (use True f Cons.prems(4) in simp_all)
    then show ?thesis using True as f by (simp add: skip_ws_Cons_id ws_chars)
  next
    case False
    let ?r = "join '','' ts @ CHR '']'' # rest"
    have len: "2 * length t \<le> f'" "2 * length (join '','' ts) < f'"
      using Cons.prems(4) f by (simp_all add: join_Cons [OF False])
    obtain j where "parse_value f' d (t @ CHR '','' # ?r) = Some (j, CHR '','' # ?r)" "decode_any j = (a, False)"
      by (rule readsE [OF as(2) Cons.prems(3) len(1) stops_chars(1)])
    moreover obtain js where "parse_elems f' d ?r = Some (js, rest)" "map decode_any js = map (\<lambda>a. (a, False)) as'"
      using Cons.IH [OF as(3) False Cons.prems(3) len(2)] by blast
    ultimately show ?thesis using as f by (simp add: join_Cons [OF False] skip_ws_Cons_id ws_chars)
  qed
qed simp

definition member_text :: "string \<times> string \<Rightarrow> string" where
  "member_text = (\<lambda>(k, t). quote k @ CHR '':'' # t)"

lemma member_text_eq: "member_text (k, t) = quote k @ CHR '':'' # t"
  by (simp add: member_text_def)

lemma parse_members_reads:
  assumes "list_all2 (\<lambda>(k, t) (k', a). k = k' \<and> utf8_ok k \<and> reads n t a) kts kas" and "kts \<noteq> []"
    and "d + n \<le> max_nesting" and "2 * length (join '','' (map member_text kts)) < f"
  shows "\<exists>ms. parse_members f d (join '','' (map member_text kts) @ CHR ''}'' # rest) = Some (ms, rest) \<and>
           map (\<lambda>(k, j). (k, decode_any j)) ms = map (\<lambda>(k, a). (k, (a, False))) kas"
  using assms
proof (induction kts arbitrary: kas f)
  case (Cons kt kts)
  note [simp del] = parse_value.simps
  obtain k t where kt: "kt = (k, t)" by (cases kt)
  with Cons.prems(1) obtain a kas' where as: "kas = (k, a) # kas'" "utf8_ok k" "reads n t a"
      "list_all2 (\<lambda>(k, t) (k', a). k = k' \<and> utf8_ok k \<and> reads n t a) kts kas'"
    by (auto simp: list_all2_Cons1)
  obtain f' where f: "f = Suc f'" using Cons.prems(4) by (cases f) auto
  have q: "scan_string (quote_body k @ ch_quote # r) = Some (k, r)" for r by (rule scan_quoted [OF as(2)])
  show ?case
  proof (cases "kts = []")
    case True
    obtain j where "parse_value f' d (t @ CHR ''}'' # rest) = Some (j, CHR ''}'' # rest)" "decode_any j = (a, False)"
      by (rule readsE [OF as(3) Cons.prems(3) _ stops_chars(3), of f' rest])
        (use True f Cons.prems(4) kt in \<open>simp_all add: member_text_eq\<close>)
    then show ?thesis using True as f kt q by (simp add: member_text_eq quote_def skip_ws_Cons_id ws_chars)
  next
    case False
    then have ne: "map member_text kts \<noteq> []" by simp
    let ?r = "join '','' (map member_text kts) @ CHR ''}'' # rest"
    have len: "2 * length t \<le> f'" "2 * length (join '','' (map member_text kts)) < f'"
      using Cons.prems(4) f kt by (simp_all add: join_Cons [OF ne] member_text_eq)
    obtain j where "parse_value f' d (t @ CHR '','' # ?r) = Some (j, CHR '','' # ?r)" "decode_any j = (a, False)"
      by (rule readsE [OF as(3) Cons.prems(3) len(1) stops_chars(1)])
    moreover obtain ms where "parse_members f' d ?r = Some (ms, rest)"
      "map (\<lambda>(k, j). (k, decode_any j)) ms = map (\<lambda>(k, a). (k, (a, False))) kas'"
      using Cons.IH [OF as(4) False Cons.prems(3) len(2)] by blast
    ultimately show ?thesis
      using as f kt q by (simp add: join_Cons [OF ne] member_text_eq quote_def skip_ws_Cons_id ws_chars)
  qed
qed simp

lemma join_hd: "ts \<noteq> [] \<Longrightarrow> hd ts \<noteq> [] \<Longrightarrow> join sep ts \<noteq> [] \<and> hd (join sep ts) = hd (hd ts)"
  by (cases ts; cases "tl ts") auto

lemma reads_slice:
  assumes "list_all2 (reads n) ts as"
  shows "reads (Suc n) (''['' @ join '','' ts @ '']'') (ASlice as)"
proof -
  have "\<exists>j. parse_value f d ((''['' @ join '','' ts @ '']'') @ rest) = Some (j, rest) \<and> decode_any j = (ASlice as, False)"
    if d: "d + Suc n \<le> max_nesting" and l: "2 * length (''['' @ join '','' ts @ '']'') \<le> f" for d f rest
  proof -
    obtain f' where f: "f = Suc f'" using l by (cases f) auto
    show ?thesis
    proof (cases "ts = []")
      case True
      then show ?thesis using assms d f by (simp add: skip_ws_Cons_id ws_chars)
    next
      case False
      obtain js where js: "parse_elems f' (Suc d) (join '','' ts @ CHR '']'' # rest) = Some (js, rest)"
        "map decode_any js = map (\<lambda>a. (a, False)) as"
        using parse_elems_reads [OF assms False, of "Suc d" f' rest] d l f by auto
      have "reads n (hd ts) (hd as)" using assms False by (cases ts; cases as) simp_all
      then have h: "hd ts \<noteq> []" "\<not> is_ws (hd (hd ts))" "hd (hd ts) \<noteq> CHR '']''" using readsD by auto
      obtain c r where c: "join '','' ts = c # r" "c = hd (hd ts)" using join_hd [OF False h(1), of "'',''"] by (cases "join '','' ts") auto
      have "map fst (map decode_any js) = as" "list_ex snd (map decode_any js) = False" using js(2) by (simp_all add: comp_def list_ex_iff)
      then have "decode_any (JArr js) = (ASlice as, False)" by (simp add: comp_def list_ex_iff)
      then show ?thesis using js(1) c h d f by (simp add: skip_ws_Cons_id ws_chars)
    qed
  qed
  then show ?thesis unfolding reads_def by (auto simp: ws_chars)
qed

section \<open>Maps\<close>

definition add_entries :: "(string \<times> any) list \<Rightarrow> (string, any) fmap \<Rightarrow> (string, any) fmap" where
  "add_entries kvs m = fold (\<lambda>(k, v) m. fmupd k v m) kvs m"

lemma add_entries_lookup:
  "fmlookup (add_entries kvs m) k = (case map_of (rev kvs) k of None \<Rightarrow> fmlookup m k | Some v \<Rightarrow> Some v)"
  by (induction kvs rule: rev_induct) (auto simp: add_entries_def split: option.splits)

lemma add_entries_keys:
  assumes "set ks = fset (fmdom m)"
  shows "add_entries (map (\<lambda>k. (k, the (fmlookup m k))) ks) fmempty = m"
proof (rule fmap_ext)
  fix k
  have "map_of (rev (map (\<lambda>k. (k, the (fmlookup m k))) ks)) k = (if k \<in> set ks then Some (the (fmlookup m k)) else None)"
    unfolding rev_map by (subst map_of_map_restrict) (simp add: restrict_map_def)
  then show "fmlookup (add_entries (map (\<lambda>k. (k, the (fmlookup m k))) ks) fmempty) k = fmlookup m k"
    using assms by (auto simp: add_entries_lookup fmlookup_dom_iff split: option.splits)
qed

lemma decode_object: "decode_any (JObj ms) =
  (AMap (add_entries (map (\<lambda>(k, j). (k, fst (decode_any j))) ms) fmempty), list_ex (\<lambda>(k, j). snd (decode_any j)) ms)"
  by (simp add: add_entries_def)

lemma reads_map:
  assumes "list_all2 (\<lambda>(k, t) (k', a). k = k' \<and> utf8_ok k \<and> reads n t a) kts kas"
  shows "reads (Suc n) (''{'' @ join '','' (map member_text kts) @ ''}'') (AMap (add_entries kas fmempty))"
proof -
  have "\<exists>j. parse_value f d ((''{'' @ join '','' (map member_text kts) @ ''}'') @ rest) = Some (j, rest) \<and>
      decode_any j = (AMap (add_entries kas fmempty), False)"
    if d: "d + Suc n \<le> max_nesting" and l: "2 * length (''{'' @ join '','' (map member_text kts) @ ''}'') \<le> f" for d f rest
  proof -
    obtain f' where f: "f = Suc f'" using l by (cases f) auto
    show ?thesis
    proof (cases "kts = []")
      case True
      then show ?thesis using assms d f by (simp add: skip_ws_Cons_id ws_chars add_entries_def)
    next
      case False
      obtain ms where ms: "parse_members f' (Suc d) (join '','' (map member_text kts) @ CHR ''}'' # rest) = Some (ms, rest)"
        "map (\<lambda>(k, j). (k, decode_any j)) ms = map (\<lambda>(k, a). (k, (a, False))) kas"
        using parse_members_reads [OF assms False, of "Suc d" f' rest] d l f by auto
      have "hd (map member_text kts) = ch_quote # tl (hd (map member_text kts))"
        using False by (cases kts) (auto simp: member_text_eq quote_def)
      then obtain r where c: "join '','' (map member_text kts) = ch_quote # r"
        using join_hd [of "map member_text kts" "'',''"] False by (metis list.collapse list.distinct(1) list.sel(1) map_is_Nil_conv)
      have "map (\<lambda>(k, j). (k, fst (decode_any j))) ms = map (\<lambda>(k, v). (k, fst v)) (map (\<lambda>(k, j). (k, decode_any j)) ms)"
        by (simp add: comp_def case_prod_beta)
      also have "\<dots> = kas" unfolding ms(2) by (simp add: comp_def case_prod_beta)
      finally have 1: "map (\<lambda>(k, j). (k, fst (decode_any j))) ms = kas" .
      have "list_ex (\<lambda>(k, j). snd (decode_any j)) ms \<longleftrightarrow> list_ex (\<lambda>(k, v). snd v) (map (\<lambda>(k, j). (k, decode_any j)) ms)"
        by (induction ms) auto
      also have "\<dots> \<longleftrightarrow> False" unfolding ms(2) by (auto simp: list_ex_iff)
      finally have "decode_any (JObj ms) = (AMap (add_entries kas fmempty), False)" unfolding decode_object 1 by simp
      then show ?thesis using ms(1) c d f by (simp add: skip_ws_Cons_id ws_chars ch_quote_ne del: decode_any.simps)
    qed
  qed
  then show ?thesis unfolding reads_def by (auto simp: ws_chars)
qed

section \<open>The round trip\<close>

lemma opt_seq_all2:
  "(\<And>x. x \<in> set xs \<Longrightarrow> \<exists>t. f x = Some t \<and> P t (g x)) \<Longrightarrow>
   \<exists>ts. opt_seq (map f xs) = Some ts \<and> list_all2 P ts (map g xs)"
proof (induction xs)
  case (Cons x xs)
  from Cons.prems obtain t where "f x = Some t" "P t (g x)" by auto
  moreover obtain ts where "opt_seq (map f xs) = Some ts" "list_all2 P ts (map g xs)" using Cons by auto
  ultimately show ?case by auto
qed simp

lemma opt_seq_map: "opt_seq (map (map_option h) xs) = map_option (map h) (opt_seq xs)"
  by (induction xs rule: opt_seq.induct) (simp_all add: option.map_comp comp_def)

lemma marshal_reads: "good n a \<Longrightarrow> \<exists>t. json_marshal a = Some t \<and> reads n t (normal a)"
proof (induction rule: good.induct)
  case (good_int i n)
  then obtain l where "numlit_ok l" "itoa i = num_text l" "parse_float l = Some (Fin (i < 0) \<bar>of_int i\<bar>)" by (rule itoa_text)
  then show ?case by (simp add: reads_number)
next
  case (good_float f n)
  then obtain s m where f: "f = Fin s m" by (cases f) (simp_all add: float_ok_def)
  obtain l where "numlit_ok l" "format_float (Fin s m) = Some (num_text l)" "parse_float l = Some (Fin s m)"
    using good_float f format_float_text by blast
  then show ?case by (simp add: f reads_number)
next
  case (good_slice xs n)
  obtain ts where "opt_seq (map json_marshal xs) = Some ts" "list_all2 (reads n) ts (map normal xs)"
    using opt_seq_all2 [of xs json_marshal "reads n" normal] good_slice.IH by blast
  then show ?case using reads_slice by (simp add: marshal_slice_def)
next
  case (good_map m n)
  define ks where "ks = sorted_list_of_fset (fmdom m)"
  let ?f = "\<lambda>k. map_option (Pair k) (json_marshal (the (fmlookup m k)))"
  let ?g = "\<lambda>k. (k, the (fmlookup (fmmap normal m) k))"
  have "\<exists>kt. ?f k = Some kt \<and> (\<lambda>(k, t) (k', a). k = k' \<and> utf8_ok k \<and> reads n t a) kt (?g k)" if k: "k \<in> set ks" for k
  proof -
    obtain v where v: "fmlookup m k = Some v" using k by (auto simp: ks_def fmlookup_dom_iff)
    with good_map.IH [OF v] show ?thesis by auto
  qed
  then obtain kts where kts: "opt_seq (map ?f ks) = Some kts"
    "list_all2 (\<lambda>(k, t) (k', a). k = k' \<and> utf8_ok k \<and> reads n t a) kts (map ?g ks)"
    using opt_seq_all2 [of ks ?f _ ?g] by blast
  have "map (\<lambda>k. map_option member_text (?f k)) ks = map (map_option member_text) (map ?f ks)" by simp
  then have s: "opt_seq (map (\<lambda>k. map_option member_text (?f k)) ks) = Some (map member_text kts)"
    using kts(1) by (simp only: opt_seq_map) simp
  have e: "the (map_option h (fmlookup m k)) = h (the (fmlookup m k))" if "k \<in> set ks" for k and h :: "any \<Rightarrow> 'b"
    using that by (auto simp: ks_def fmlookup_dom_iff)
  have "map (\<lambda>k. map_option (\<lambda>t. quote k @ '':'' @ t) (the (fmlookup (fmmap json_marshal m) k))) ks =
      map (\<lambda>k. map_option member_text (?f k)) ks"
    by (rule map_cong) (simp_all add: e option.map_comp comp_def member_text_eq)
  note o = this [THEN arg_cong, of opt_seq, unfolded s]
  have "json_marshal (AMap m) = Some (''{'' @ join '','' (map member_text kts) @ ''}'')"
    by (simp only: json_marshal.simps marshal_map_def fmdom_map ks_def [symmetric] o) simp
  moreover have "add_entries (map ?g ks) fmempty = fmmap normal m"
    by (rule add_entries_keys) (simp_all add: ks_def)
  ultimately show ?case using reads_map [OF kts(2)] by simp
qed (simp_all add: reads_null reads_bool reads_string del: if_split)

text \<open>A map of which every value survives is decoded from its text, up to the kind of its integers.\<close>

lemma unmarshal_marshal:
  assumes "good max_nesting (AMap m)"
  obtains t where "marshal_go_map (Some m) = Some t" and "unmarshal_map t (Some fmempty) = (Some (fmmap normal m), False)"
proof -
  obtain t where t: "json_marshal (AMap m) = Some t" "reads max_nesting t (AMap (fmmap normal m))"
    using marshal_reads [OF assms] by auto
  obtain j where j: "parse_value (2 * length t + 2) 0 (t @ []) = Some (j, [])" "decode_any j = (AMap (fmmap normal m), False)"
    by (rule readsE [OF t(2) _ _ stops_chars(4), of 0 "2 * length t + 2"]) simp_all
  have p: "json_parse t = Some j" using j(1) by (simp add: json_parse_def skip_ws_def)
  obtain ms where "j = JObj ms" using j(2) by (cases j) (auto split: option.splits)
  then have "unmarshal_map t (Some fmempty) = (Some (fmmap normal m), False)"
    using j(2) p by (simp add: unmarshal_map_def)
  with t(1) show ?thesis by (intro that) (simp_all add: marshal_go_map_def)
qed

section \<open>What is decoded survives\<close>

lemma add_entries_set: "fmlookup (add_entries kvs m) k = Some v \<Longrightarrow> (k, v) \<in> set kvs \<or> fmlookup m k = Some v"
  by (auto simp: add_entries_lookup split: option.splits dest: map_of_SomeD)

lemma fmmap_add_entries: "fmmap f (add_entries kvs m) = add_entries (map (\<lambda>(k, v). (k, f v)) kvs) (fmmap f m)"
  by (induction kvs arbitrary: m) (auto simp: add_entries_def fmmap_fmupd)

lemma normal_decoded: "normal (fst (decode_any j)) = fst (decode_any j)"
proof (induction j)
  case (JNum l)
  then show ?case by (simp split: option.splits)
next
  case (JObj ms)
  have "map (\<lambda>(k, v). (k, normal v)) (map (\<lambda>(k, j). (k, fst (decode_any j))) ms) = map (\<lambda>(k, j). (k, fst (decode_any j))) ms"
    using JObj by (force simp: case_prod_beta)
  then show ?case unfolding decode_object by (simp add: fmmap_add_entries del: map_map)
qed simp_all

lemma good_object:
  assumes "\<forall>(k, j) \<in> set ms. utf8_ok k \<and> good n (fst (decode_any j))"
  shows "good (Suc n) (fst (decode_any (JObj ms)))"
  unfolding decode_object fst_conv
  by (rule good_map) (use assms in \<open>auto dest!: add_entries_set\<close>)

lemma good_array: "\<forall>j \<in> set js. good n (fst (decode_any j)) \<Longrightarrow> good (Suc n) (fst (decode_any (JArr js)))"
  by simp (rule good_slice, auto)

lemma good_leaf: "good n (fst (decode_any (JNum l)))" "good n (fst (decode_any JNull))" "good n (fst (decode_any (JBool b)))"
  "utf8_ok s \<Longrightarrow> good n (fst (decode_any (JStr s)))"
  by (auto intro: good.intros parse_float_ok split: option.splits)

lemma parse_good:
  "parse_value n d s = Some (j, t) \<Longrightarrow> good (max_nesting - d) (fst (decode_any j))"
  "parse_elems n d s = Some (js, t) \<Longrightarrow> \<forall>j \<in> set js. good (max_nesting - d) (fst (decode_any j))"
  "parse_members n d s = Some (ms, t) \<Longrightarrow> \<forall>(k, j) \<in> set ms. utf8_ok k \<and> good (max_nesting - d) (fst (decode_any j))"
proof (induction n d s and n d s and n d s arbitrary: j t and js t and ms t
    rule: parse_value_parse_elems_parse_members.induct)
  case (2 n d s)
  note [simp del] = decode_any.simps
  have lvl: "max_nesting - d = Suc (max_nesting - Suc d)" if "\<not> max_nesting \<le> d" using that by simp
  from "2.prems" obtain c r where s: "skip_ws s = c # r" by (auto split: list.splits)
  consider (obj) "c = CHR ''{''" | (arr) "c = CHR ''[''" | (str) "c = ch_quote" "c \<noteq> CHR ''{''" "c \<noteq> CHR ''[''"
    | (other) "c \<noteq> CHR ''{''" "c \<noteq> CHR ''[''" "c \<noteq> ch_quote" by blast
  then show ?case
  proof cases
    case obj
    from "2.prems" s obj obtain x r' where x: "skip_ws r = x # r'" and d: "\<not> max_nesting \<le> d" by (auto split: if_splits list.splits)
    with "2.prems" s obj "2.IH"(1) [OF s _ d x] show ?thesis
      unfolding lvl [OF d] by (auto split: if_splits intro!: good_object)
  next
    case arr
    from "2.prems" s arr obtain x r' where x: "skip_ws r = x # r'" and d: "\<not> max_nesting \<le> d" by (auto split: if_splits list.splits)
    with "2.prems" s arr "2.IH"(2) [OF s _ _ d x] show ?thesis
      unfolding lvl [OF d] by (auto split: if_splits intro!: good_array)
  next
    case str
    with "2.prems" s show ?thesis by (auto intro!: good_leaf(4) dest: scan_string_reads)
  next
    case other
    with "2.prems" s show ?thesis by (auto simp: scan_lit_def intro!: good_leaf(1-3) split: if_splits)
  qed
next
  case (4 n d s)
  from "4.prems" obtain v u where v: "parse_value n d s = Some (v, u)" by (auto split: option.splits)
  with "4.prems" obtain c r where c: "skip_ws u = c # r" by (auto split: list.splits)
  from "4.prems" v c "4.IH"(1) [OF v] "4.IH"(2) [OF v refl c] show ?case by (fastforce split: if_splits)
next
  case (6 n d s)
  from "6.prems" obtain q r0 where q: "skip_ws s = q # r0" "q = ch_quote" by (auto split: list.splits if_splits)
  with "6.prems" obtain k t0 where k: "scan_string r0 = Some (k, t0)" by (auto split: option.splits)
  with "6.prems" q obtain p r1 where p: "skip_ws t0 = p # r1" "p = CHR '':''" by (auto split: list.splits if_splits)
  with "6.prems" q k obtain v u where v: "parse_value n d r1 = Some (v, u)" by (auto split: option.splits)
  with "6.prems" q k p obtain c r where c: "skip_ws u = c # r" by (auto split: list.splits)
  have "utf8_ok k" using scan_string_reads [OF k] by simp
  moreover have "good (max_nesting - d) (fst (decode_any v))" using "6.IH"(1) [OF q(1) _ k refl p(1) _ v] q p by simp
  ultimately show ?case
    using "6.prems" q k p v c "6.IH"(2) [OF q(1) _ k refl p(1) _ v refl c] by (fastforce split: if_splits)
qed simp_all

text \<open>A map the decoder filled can be written and read back as it is.\<close>

lemma unmarshalled_good:
  assumes "unmarshal_map data (Some fmempty) = (Some m, False)"
  shows "good max_nesting (AMap m)" and "fmmap normal m = m"
proof -
  obtain ms where p: "json_parse data = Some (JObj ms)" and m: "AMap m = fst (decode_any (JObj ms))"
    using assms by (auto simp: unmarshal_map_def split: option.splits json.splits)
  then obtain t where "parse_value (2 * length data + 2) 0 data = Some (JObj ms, t)"
    by (auto simp: json_parse_def split: option.splits if_splits)
  from parse_good(1) [OF this] show "good max_nesting (AMap m)" unfolding m by simp
  show "fmmap normal m = m" using normal_decoded [of "JObj ms"] unfolding m [symmetric] by simp
qed

lemma decoded_reads_back:
  assumes "unmarshal_map data (Some fmempty) = (Some m, False)"
  obtains t where "marshal_go_map (Some m) = Some t" and "unmarshal_map t (Some fmempty) = (Some m, False)"
  using unmarshal_marshal [OF unmarshalled_good(1) [OF assms]] unmarshalled_good(2) [OF assms] by metis

end
