(* ===== verification/End_To_End.thy ===== *)
theory End_To_End
  imports Proxy_Handler Json_Roundtrip
begin

text \<open>
  The proxy as its client and the model servers see it.  The abstract view of a run is the
  list of the exchanges with the model servers, each with its address, the JSON object that
  the server decodes from the body and the answer; and the status and body the client
  sees.  \<open>standard_spec\<close> and \<open>pd_spec\<close> say what a run may be in these terms, without
  headers, request contexts, response writers or JSON texts.
\<close>

section \<open>The abstract view\<close>

type_synonym exchange = "string \<times> (string, any) fmap option \<times> response option"

definition decoded_body :: "out_request \<Rightarrow> (string, any) fmap option" where
  "decoded_body out = (case out_Body out of None \<Rightarrow> None
     | Some t \<Rightarrow> (case unmarshal_map t (Some fmempty) of (m, err) \<Rightarrow> if err then None else m))"

definition abs_exchange :: "out_request \<times> response option \<Rightarrow> exchange" where
  "abs_exchange = (\<lambda>(out, a). (out_URLHost out, decoded_body out, a))"

definition abs_run :: "(panic + unit) \<times> orch \<Rightarrow> exchange list \<times> (int \<times> string)" where
  "abs_run run = (map abs_exchange (o_sent (snd run)), client_sees (o_rw (snd run)))"

definition client_view :: "response option \<Rightarrow> int \<times> string" where
  "client_view a = (case a of None \<Rightarrow> (StatusBadGateway, '''') | Some r \<Rightarrow> (resp_Status r, concat (resp_Chunks r)))"

text \<open>The object a worker answered with; nothing if the answer is not a JSON object or null.\<close>

definition answered_object :: "response option \<Rightarrow> go_map option" where
  "answered_object a = (case unmarshal_map (reply_body a) (Some fmempty) of (m, err) \<Rightarrow> if err then None else Some m)"

text \<open>Without a plugin: one exchange, with the client's object.\<close>

definition standard_spec :: "string \<Rightarrow> (string, any) fmap \<Rightarrow> exchange list \<times> (int \<times> string) \<Rightarrow> bool" where
  "standard_spec host m view \<longleftrightarrow> (\<exists>a. view = ([(host, Some m, a)], client_view a))"

text \<open>
  With the P/D plugin: the prefill worker gets the object with one token to produce; the decode
  worker gets the client's object with the transfer parameters of the prefill worker's answer.
\<close>

definition prefill_object :: "(string, any) fmap \<Rightarrow> (string, any) fmap" where
  "prefill_object m = fmupd requestFieldMaxCompletionTokens (AFloat (Fin False 1)) (fmupd requestFieldMaxTokens (AFloat (Fin False 1))
     (fmdrop requestFieldStreamOptions (fmupd requestFieldStream (ABool False)
       (fmupd requestFieldKVTransferParams prefill_kv_params m))))"

definition pd_spec :: "string \<Rightarrow> string \<Rightarrow> (string, any) fmap \<Rightarrow> exchange list \<times> (int \<times> string) \<Rightarrow> bool" where
  "pd_spec prefillHost decodeHost m view \<longleftrightarrow> (\<exists>a. case answered_object a of
     None \<Rightarrow> view = ([(prefillHost, Some (prefill_object m), a)], (StatusOK, ''''))
   | Some r \<Rightarrow> (\<exists>a'. view = ([(prefillHost, Some (prefill_object m), a), (decodeHost, Some (decode_body r m), a')],
       client_view a')))"

section \<open>The bodies that are sent\<close>

lemma good_fmupd: "good (Suc n) (AMap m) \<Longrightarrow> utf8_ok k \<Longrightarrow> good n v \<Longrightarrow> good (Suc n) (AMap (fmupd k v m))"
  by (erule good_mapE) (auto intro!: good_map split: if_splits)

lemma good_fmdrop: "good n (AMap m) \<Longrightarrow> good n (AMap (fmdrop k m))"
  by (erule good_mapE) (auto intro!: good_map split: if_splits)

lemma good_lookup: "good (Suc n) (AMap m) \<Longrightarrow> fmlookup m k = Some v \<Longrightarrow> good n v"
  by (erule good_mapE) auto

lemma utf8_ascii: "\<forall>c \<in> set s. (of_char c :: nat) < 128 \<Longrightarrow> utf8_ok s"
  by (induction s) auto

lemma fields_utf8:
  "utf8_ok requestFieldMaxCompletionTokens" "utf8_ok requestFieldMaxTokens" "utf8_ok requestFieldStream"
  "utf8_ok requestFieldKVTransferParams" "utf8_ok requestFieldDoRemoteDecode" "utf8_ok requestFieldDoRemotePrefill"
  "utf8_ok requestFieldRemoteEngineID" "utf8_ok requestFieldRemoteBlockIDs" "utf8_ok requestFieldRemoteHost"
  "utf8_ok requestFieldRemotePort"
  by (rule utf8_ascii; simp add: field_defs requestFieldDoRemoteDecode_def requestFieldDoRemotePrefill_def
      requestFieldRemoteEngineID_def requestFieldRemoteBlockIDs_def requestFieldRemoteHost_def requestFieldRemotePort_def)+

lemma max_nesting_levels: obtains n where "max_nesting = Suc (Suc n)"
  by (rule that [of "max_nesting - 2"]) (simp add: max_nesting_def)

lemma good_prefill_body:
  assumes "good max_nesting (AMap m)"
  shows "good max_nesting (AMap (prefill_body m))"
proof -
  have kv: "good (Suc n) prefill_kv_params" for n
    unfolding prefill_kv_params_def fmap_of_list_simps
    by (intro good_fmupd fields_utf8 good.intros) simp_all
  obtain n where n: "max_nesting = Suc (Suc n)" by (rule max_nesting_levels)
  show ?thesis
    using assms unfolding prefill_body_def n
    by (intro good_fmupd good_fmdrop fields_utf8 kv good_int good_bool) simp_all
qed

lemma good_decode_body:
  assumes "good max_nesting (AMap m)" and "\<And>x. r = Some x \<Longrightarrow> good max_nesting (AMap x)"
  shows "good max_nesting (AMap (decode_body r m))"
proof -
  obtain n where n: "max_nesting = Suc (Suc n)" by (rule max_nesting_levels)
  have "good (Suc n) (nil_default (go_map_get r requestFieldKVTransferParams))"
    using assms(2) unfolding n
    by (auto simp: nil_default_def go_map_get_def intro: good_nil good_lookup split: option.splits)
  then show ?thesis using assms(1) unfolding decode_body_def n by (intro good_fmupd fields_utf8)
qed

lemma normal_fmupd: "fmmap normal (fmupd k v m) = fmupd k (normal v) (fmmap normal m)"
  by (rule fmmap_fmupd)

lemma normal_fmdrop: "fmmap normal (fmdrop k m) = fmdrop k (fmmap normal m)"
  by (rule fmap_ext) simp

lemma normal_kv_params: "normal prefill_kv_params = prefill_kv_params"
  by (simp add: prefill_kv_params_def normal_fmupd)

lemma normal_prefill_body: "fmmap normal m = m \<Longrightarrow> fmmap normal (prefill_body m) = prefill_object m"
  by (simp add: prefill_body_def prefill_object_def normal_fmupd normal_fmdrop normal_kv_params)

lemma normal_decode_body:
  assumes "fmmap normal m = m" and "\<And>x. r = Some x \<Longrightarrow> fmmap normal x = x"
  shows "fmmap normal (decode_body r m) = decode_body r m"
proof -
  have "normal v = v" if "r = Some x" "fmlookup x k = Some v" for x k v
  proof -
    have "fmlookup (fmmap normal x) k = Some v" using assms(2) [OF that(1)] that(2) by simp
    with that(2) show ?thesis by simp
  qed
  then show ?thesis
    using assms(1) by (auto simp: decode_body_def normal_fmupd nil_default_def go_map_get_def split: option.splits)
qed

lemma carries_decoded:
  assumes "carries out e m" and "good max_nesting (AMap m)"
  shows "out_URLHost out = address e" and "decoded_body out = Some (fmmap normal m)"
proof -
  obtain t where t: "marshal_go_map (Some m) = Some t" "unmarshal_map t (Some fmempty) = (Some (fmmap normal m), False)"
    using assms(2) by (rule unmarshal_marshal)
  then have "json_bytes m = t" by (simp add: marshal_go_map_def json_bytes_def)
  with assms(1) t show "out_URLHost out = address e" and "decoded_body out = Some (fmmap normal m)"
    by (simp_all add: carries_def decoded_body_def)
qed

section \<open>The run\<close>

lemma client_result_view: "rw_Status w = None \<Longrightarrow> rw_Body w = [] \<Longrightarrow> client_sees (client_result a w) = client_view a"
  unfolding client_view_def by (rule fresh_client_view)

lemma fresh_writer: "rw_Status new_response_writer = None" "rw_Body new_response_writer = ''''"
  "client_sees new_response_writer = (StatusOK, '''')" "wire_header (rw_Header new_response_writer)"
  by (simp_all add: new_response_writer_def client_sees_def wire_header_def)

text \<open>
  A request that the proxy accepts, in an environment that works: the headers came off the
  wire, the body is a JSON object, map loops visit every key, the network answers or fails
  cleanly and the client's connection stays open.
\<close>

definition served :: "env \<Rightarrow> http_request \<Rightarrow> (string, any) fmap \<Rightarrow> bool" where
  "served E req m \<longleftrightarrow> wire_header (req_Header req) \<and> distinct_keys E \<and> orders_ok E \<and> network_ok E \<and>
     (\<forall>t. \<not> client_write_fails E t) \<and> req_ContentLength req \<noteq> 0 \<and>
     \<not> snd (req_Body req) \<and> unmarshal_map (fst (req_Body req)) (Some fmempty) = (Some m, False)"

lemma servedE:
  assumes "served E req m"
  obtains o2 where "ServeHTTP E ip new_response_writer req =
      (case ip_orchestrator ip of None \<Rightarrow> StandardProcessing E
       | Some p \<Rightarrow> go_then (Orchestrate E p) (go_return ())) o2"
    and "workable E o2" and "o_rw o2 = new_response_writer" and "o_sent o2 = []" and "rc_Body (o_reqCtx o2) = Some m"
proof -
  obtain rid t where r: "request_id E req 0 = (rid, t)" by (cases "request_id E req 0")
  have b: "req_Body req = (fst (req_Body req), False)" using assms by (cases "req_Body req") (simp add: served_def)
  have s: "wire_header (req_Header req)" "distinct_keys E" "orders_ok E"
    "unmarshal_map (fst (req_Body req)) (Some fmempty) = (Some m, False)" using assms by (simp_all add: served_def)
  obtain o2 where o2: "PrepareRequest E (NewOrchestration E req rid new_response_writer t) = (Inr None, o2)"
    "o_req o2 = req" "o_rw o2 = new_response_writer" "o_sent o2 = []" "rc_Body (o_reqCtx o2) = Some m"
    by (rule prepared_ok [OF s(1-3) b s(4), where rid = rid and w = new_response_writer and t = t]) blast
  have "workable E o2" using assms o2(2,3) by (simp add: served_def workable_def fresh_writer)
  with o2 show ?thesis
    by (intro that [of o2]) (simp_all add: ServeHTTP_def serve_body_def r go_bind_def split: option.split)
qed

lemma served_good: "served E req m \<Longrightarrow> good max_nesting (AMap m) \<and> fmmap normal m = m"
  using unmarshalled_good by (auto simp: served_def)

lemma decode_reply_object:
  "decode_reply E a = (case answered_object a of
     None \<Rightarrow> Inl \<lparr>err_Code = BadRequest E, err_Msg = ''Error unmarshaling respone body''\<rparr>
   | Some r \<Rightarrow> Inr (reply_headers a, r))"
  by (simp add: decode_reply_def answered_object_def split: prod.split)

lemma answered_good: "answered_object a = Some (Some x) \<Longrightarrow> good max_nesting (AMap x) \<and> fmmap normal x = x"
  using unmarshalled_good [of "reply_body a" x] by (auto simp: answered_object_def split: prod.splits if_splits)

lemma pd_outcome_spec:
  assumes run: "pd_outcome E q d m o' r" and o': "o_sent o' = []" "o_rw o' = new_response_writer"
    and m: "good max_nesting (AMap m)" "fmmap normal m = m"
  shows "pd_spec (address q) (address d) m (map abs_exchange (o_sent (snd r)), client_sees (o_rw (snd r)))"
proof -
  obtain out a where c: "carries out q (prefill_body m)"
    and r: "case decode_reply E a of
       Inl err \<Rightarrow> fst r = Inr (Some (GieError err)) \<and> o_sent (snd r) = o_sent o' @ [(out, a)] \<and> o_rw (snd r) = o_rw o'
     | Inr (_, x) \<Rightarrow> \<exists>out' a'. carries out' d (decode_body x m) \<and> o_sent (snd r) = o_sent o' @ [(out, a), (out', a')] \<and>
         o_rw (snd r) = client_result a' (o_rw o')"
    using run unfolding pd_outcome_def by blast
  have 1: "abs_exchange (out, a) = (address q, Some (prefill_object m), a)"
    using carries_decoded [OF c good_prefill_body [OF m(1)]] normal_prefill_body [OF m(2)] by (simp add: abs_exchange_def)
  show ?thesis
  proof (cases "answered_object a")
    case None
    with r o' 1 have "(map abs_exchange (o_sent (snd r)), client_sees (o_rw (snd r))) =
        ([(address q, Some (prefill_object m), a)], (StatusOK, ''''))"
      by (simp add: decode_reply_object fresh_writer)
    with None show ?thesis unfolding pd_spec_def by (intro exI [of _ a]) simp
  next
    case (Some x)
    with r obtain out' a' where c': "carries out' d (decode_body x m)" and s: "o_sent (snd r) = o_sent o' @ [(out, a), (out', a')]"
      and w: "o_rw (snd r) = client_result a' (o_rw o')" by (auto simp: decode_reply_object)
    have x: "good max_nesting (AMap y) \<and> fmmap normal y = y" if "x = Some y" for y
      using answered_good Some that by simp
    have "abs_exchange (out', a') = (address d, Some (decode_body x m), a')"
      using carries_decoded [OF c' good_decode_body [OF m(1)]] normal_decode_body [OF m(2), of x] x
      by (simp add: abs_exchange_def)
    with Some s w o' 1 show ?thesis
      unfolding pd_spec_def by (intro exI [of _ a]) (simp add: client_result_view fresh_writer)
  qed
qed

text \<open>
  The scheduler finds the same workers whenever it is asked for a profile of the plugin, and leaves the body alone.
\<close>

definition finds_workers :: "env \<Rightarrow> PdOrchestration \<Rightarrow> profile_run_result \<Rightarrow> profile_run_result \<Rightarrow> bool" where
  "finds_workers E p pr dr \<longleftrightarrow> (\<forall>t c names. \<exists>c' res.
     HandleRequestHelper (env_director E) t c names = (c', Inr res) \<and> rc_Body c' = rc_Body c \<and>
     (po_prefillProfile p \<in> set names \<longrightarrow> run_result res (po_prefillProfile p) = Some pr) \<and>
     (po_decodeProfile p \<in> set names \<longrightarrow> run_result res (po_decodeProfile p) = Some dr))"

lemma orchestrate_outcome:
  assumes work: "workable E o'" and find: "finds_workers E p pr dr" and tgt: "has_target pr q" "has_target dr d"
    and body: "rc_Body (o_reqCtx o') = Some m" and id: "\<forall>t. \<exists>u. NewUUID E t = Inr u"
  shows "pd_outcome E q d m o' (Orchestrate E p o')"
proof -
  obtain u where u: "NewUUID E (Suc (o_tick o')) = Inr u" using id by blast
  show ?thesis
  proof (cases "po_deferredDecode p")
    case False
    obtain c res where s: "HandleRequestHelper (env_director E) (o_tick o') (o_reqCtx o') [po_prefillProfile p, po_decodeProfile p] = (c, Inr res)"
      and b: "rc_Body c = Some m" and r: "run_result res (po_prefillProfile p) = Some pr" "run_result res (po_decodeProfile p) = Some dr"
      using find body unfolding finds_workers_def by (metis list.set_intros)
    show ?thesis by (rule nonDeferred_outcome [OF False work s r(1) tgt(1) r(2) tgt(2) b u])
  next
    case True
    obtain c res where s: "HandleRequestHelper (env_director E) (o_tick o') (o_reqCtx o') [po_prefillProfile p] = (c, Inr res)"
      and b: "rc_Body c = Some m" and r: "run_result res (po_prefillProfile p) = Some pr"
      using find body unfolding finds_workers_def by (metis list.set_intros(1))
    have s': "\<forall>t c. \<exists>c' res'. HandleRequestHelper (env_director E) t c [po_decodeProfile p] = (c', Inr res') \<and>
        rc_Body c' = rc_Body c \<and> run_result res' (po_decodeProfile p) = Some dr"
      using find unfolding finds_workers_def by (metis list.set_intros(1))
    show ?thesis by (rule deferred_outcome [OF True work s r tgt(1) s' tgt(2) b u])
  qed
qed

lemma snd_then_return: "snd (go_then f (go_return ()) s) = snd (f s)"
  by (cases "f s"; cases "fst (f s)") (auto simp: go_bind_def go_simps)

lemma standard_view:
  assumes "served E req m" and "\<forall>t c. \<exists>c'. HandleRequest (env_director E) t c = (c', None) \<and> TargetEndpoint c' = host \<and>
      rc_Body c' = rc_Body c" and "url_host host \<noteq> None"
  shows "standard_spec host m (abs_run (ServeHTTP E (NewProxy None) new_response_writer req))"
proof -
  obtain o2 where run: "ServeHTTP E (NewProxy None) new_response_writer req = StandardProcessing E o2"
    and o2: "workable E o2" "o_rw o2 = new_response_writer" "o_sent o2 = []" "rc_Body (o_reqCtx o2) = Some m"
    using servedE [OF assms(1), of "NewProxy None"] by (auto simp: NewProxy_def)
  obtain c where c: "HandleRequest (env_director E) (o_tick o2) (o_reqCtx o2) = (c, None)" "TargetEndpoint c = host"
    "rc_Body c = Some m" using assms(2) o2(4) by metis
  have h: "url_host (TargetEndpoint c) = Some host" using assms(3) url_host_id c(2) by fastforce
  obtain t where t: "marshal_go_map (Some m) = Some t" "unmarshal_map t (Some fmempty) = (Some m, False)"
    using served_good [OF assms(1)] by (metis unmarshal_marshal)
  note r = standard_run [OF c(1) h o2(1)]
  have "abs_run (ServeHTTP E (NewProxy None) new_response_writer req) =
      ([(host, Some m, answer E host (o2\<lparr>o_tick := Suc (o_tick o2), o_reqCtx := c\<rparr>))],
       client_view (answer E host (o2\<lparr>o_tick := Suc (o_tick o2), o_reqCtx := c\<rparr>)))"
    using r c o2 t by (simp add: run abs_run_def abs_exchange_def decoded_body_def client_result_view fresh_writer)
  then show ?thesis unfolding standard_spec_def by blast
qed

lemma pd_view:
  assumes "served E req m" and "finds_workers E p pr dr" and "has_target pr q" and "has_target dr d"
    and "\<forall>t. \<exists>u. NewUUID E t = Inr u"
  shows "pd_spec (address q) (address d) m (abs_run (ServeHTTP E (NewProxy (Some p)) new_response_writer req))"
proof -
  obtain o2 where run: "ServeHTTP E (NewProxy (Some p)) new_response_writer req = go_then (Orchestrate E p) (go_return ()) o2"
    and o2: "workable E o2" "o_rw o2 = new_response_writer" "o_sent o2 = []" "rc_Body (o_reqCtx o2) = Some m"
    using servedE [OF assms(1), of "NewProxy (Some p)"] by (auto simp: NewProxy_def)
  have "pd_outcome E q d m o2 (Orchestrate E p o2)" by (rule orchestrate_outcome [OF o2(1) assms(2-4) o2(4) assms(5)])
  then show ?thesis
    using pd_outcome_spec served_good [OF assms(1)] o2(2,3) by (simp add: run abs_run_def snd_then_return)
qed

section \<open>An example\<close>

definition example_object :: "(string, any) fmap" where
  "example_object = fmupd ''stream'' (ABool True) fmempty"

definition example_client :: http_request where
  "example_client = example_request fmempty (''{'' @ quote ''stream'' @ '':true}'')"

lemma example_served: "served (example_env sched example_network) example_client example_object"
proof -
  have "unmarshal_map (fst (req_Body example_client)) (Some fmempty) = (Some example_object, False)" by code_simp
  then show ?thesis
    by (simp add: served_def example_keys network_ok_def example_network_def)
      (simp add: example_client_def example_request_def wire_header_def)
qed

lemma example_workers:
  "''prefill'' \<in> set names \<Longrightarrow> run_result (example_result (map (\<lambda>n. (n, example_endpoint (f n))) names)) ''prefill'' =
     Some \<lparr>TargetEndpoints = [example_endpoint (f ''prefill'')]\<rparr>"
  "''decode'' \<in> set names \<Longrightarrow> run_result (example_result (map (\<lambda>n. (n, example_endpoint (f n))) names)) ''decode'' =
     Some \<lparr>TargetEndpoints = [example_endpoint (f ''decode'')]\<rparr>"
  by (simp_all add: run_result_def example_result_def fmlookup_of_list comp_def map_of_map_restrict)

text \<open>A director that accepts every request and routes it to one server.\<close>

definition routing_env :: env where
  "routing_env = (example_env example_sched example_network)\<lparr>env_director :=
     (example_director example_sched)\<lparr>HandleRequest := (\<lambda>t c. (c\<lparr>TargetEndpoint := ''10.0.0.1:8000''\<rparr>, None))\<rparr>\<rparr>"

lemma routing_served: "served routing_env example_client example_object"
  using example_served [of example_sched]
  by (simp add: served_def routing_env_def distinct_keys_def orders_ok_def network_ok_def)

end
