(* ===== verification/Typed_Bodies.thy ===== *)
theory Typed_Bodies
  imports Destinations End_To_End
begin

text \<open>
  The type of the request body.  The body of a request context is a value of the types JSON has: valid
  strings, finite numbers and bounded nesting.  Preparing a request and the P/D plugin keep it so,
  whatever the client, the workers and the network do, and therefore every request that leaves the proxy
  carries valid JSON and its true length.
\<close>

section \<open>Invariants of actions\<close>

definition go_inv :: "('s \<Rightarrow> bool) \<Rightarrow> ('s, 'a) go \<Rightarrow> bool" where
  "go_inv I m \<longleftrightarrow> (\<forall>s. I s \<longrightarrow> I (snd (m s)))"

lemma go_invD: "go_inv I m \<Longrightarrow> I s \<Longrightarrow> m s = (r, s') \<Longrightarrow> I s'"
  by (metis go_inv_def snd_conv)

lemma inv_basic [go_rules]:
  "go_inv I (go_return x)" "go_inv I (go_panic p)" "go_inv I (go_read g)" "go_inv I (go_lift r)"
  by (simp_all add: go_inv_def go_defs)

lemma inv_modify: "(\<And>s. I s \<Longrightarrow> I (g s)) \<Longrightarrow> go_inv I (go_modify g)"
  by (simp add: go_inv_def go_defs)

lemma inv_bind:
  assumes "go_inv I m" and "\<And>x s s'. I s \<Longrightarrow> m s = (Inr x, s') \<Longrightarrow> go_inv I (k x)"
  shows "go_inv I (go_bind m k)"
  unfolding go_inv_def
proof (intro allI impI)
  fix s
  assume s: "I s"
  obtain r s1 where m: "m s = (r, s1)" by (cases "m s")
  have "I s1" by (rule go_invD [OF assms(1) s m])
  then show "I (snd (go_bind m k s))"
    using assms(2) [OF s] m by (cases r) (auto simp: go_bind_def go_inv_def)
qed

lemma inv_then [go_rules]: "go_inv I m \<Longrightarrow> go_inv I k \<Longrightarrow> go_inv I (go_then m k)"
  unfolding go_then_def by (rule inv_bind)

lemma inv_foreach [go_rules]: "(\<And>x. go_inv I (body x)) \<Longrightarrow> go_inv I (go_foreach body xs)"
  by (induction xs) (simp_all add: inv_basic inv_then)

lemma inv_if [go_rules]: "go_inv I a \<Longrightarrow> go_inv I b \<Longrightarrow> go_inv I (if c then a else b)"
  by simp

lemma inv_option [go_rules]:
  "go_inv I a \<Longrightarrow> (\<And>x. go_inv I (b x)) \<Longrightarrow> go_inv I (case v of None \<Rightarrow> a | Some x \<Rightarrow> b x)"
  by (cases v) simp_all

lemma on_fst_state: "snd (go_on_fst m st) = (snd (m (fst st)), snd st)"
  by (simp add: go_on_fst_def split: prod.split)

lemma inv_on_fst: "go_inv I m \<Longrightarrow> go_inv (\<lambda>st. I (fst st)) (go_on_fst m)"
  by (simp add: go_inv_def on_fst_state)

lemma inv_local: "go_inv (\<lambda>st. I (fst st)) m \<Longrightarrow> go_inv I (go_local t m)"
  by (simp add: go_inv_def local_state)

lemma inv_copy:
  assumes "\<And>d. go_inv I (rwo_Write ops d)"
  shows "go_inv I (copy_chunks ops cs)"
proof (induction cs)
  case (Cons c cs)
  then show ?case by (simp add: inv_bind assms inv_basic)
qed (simp add: inv_basic)

lemma inv_send_response:
  assumes "\<And>c. go_inv I (rwo_WriteHeader ops c)" and "\<And>d. go_inv I (rwo_Write ops d)"
    and "\<And>h st. I st \<Longrightarrow> I (rwo_SetHeader ops h st)"
  shows "go_inv I (send_response ops r)"
  unfolding send_response_def
  by (intro inv_then inv_modify inv_bind inv_copy inv_if inv_basic assms)

section \<open>Typed bodies\<close>

definition typed_body :: "go_map \<Rightarrow> bool" where
  "typed_body b \<longleftrightarrow> (case b of None \<Rightarrow> True | Some m \<Rightarrow> good max_nesting (AMap m))"

definition typed_field :: "any \<Rightarrow> bool" where
  "typed_field v \<longleftrightarrow> good (max_nesting - 1) v"

lemma typed_simps [simp]: "typed_body None" "typed_body (Some m) \<longleftrightarrow> good max_nesting (AMap m)"
  by (simp_all add: typed_body_def)

lemma max_nesting_Suc: "max_nesting = Suc (max_nesting - 1)"
  by (simp add: max_nesting_def)

lemma typed_empty: "good max_nesting (AMap fmempty)"
proof -
  have "good (Suc (max_nesting - 1)) (AMap fmempty)" by (rule good_map) simp
  then show ?thesis by (simp only: max_nesting_Suc [symmetric])
qed

lemma typed_get:
  assumes "typed_body b" and "go_map_get b k = Some v"
  shows "typed_field v"
proof -
  obtain m where "good max_nesting (AMap m)" and m: "fmlookup m k = Some v"
    using assms by (auto simp: typed_body_def go_map_get_def split: option.splits)
  then have "good (Suc (max_nesting - 1)) (AMap m)" by (simp only: max_nesting_Suc [symmetric])
  from good_lookup [OF this m] show ?thesis by (simp add: typed_field_def)
qed

lemma typed_upd: "good max_nesting (AMap m) \<Longrightarrow> utf8_ok k \<Longrightarrow> typed_field v \<Longrightarrow> good max_nesting (AMap (fmupd k v m))"
  unfolding typed_field_def by (metis good_fmupd max_nesting_Suc)

lemma typed_leaf: "typed_field ANil" "typed_field (ABool b)" "\<bar>i\<bar> < 2 ^ 53 \<Longrightarrow> typed_field (AInt i)"
  by (simp_all add: typed_field_def good.intros)

lemma typed_kv_params: "typed_field prefill_kv_params"
proof -
  obtain n where n: "max_nesting = Suc (Suc n)" by (rule max_nesting_levels)
  show ?thesis
    unfolding typed_field_def prefill_kv_params_def fmap_of_list_simps n diff_Suc_1
    by (intro good_fmupd fields_utf8 good.intros) simp_all
qed

lemma typed_nil_default: "typed_body b \<Longrightarrow> typed_field (nil_default (go_map_get b k))"
  by (auto simp: nil_default_def typed_leaf split: option.split dest: typed_get)

text \<open>Whatever is decoded is typed, also what is left behind by a decoding error.\<close>

lemma unmarshalled_typed: "typed_body (fst (unmarshal_map data (Some fmempty)))"
proof (cases "json_parse data")
  case None
  then show ?thesis by (simp add: unmarshal_map_def typed_empty)
next
  case (Some v)
  then show ?thesis
  proof (cases v)
    case (JObj ms)
    with Some obtain t where p: "parse_value (2 * length data + 2) 0 data = Some (JObj ms, t)"
      by (auto simp: json_parse_def split: option.splits if_splits)
    from parse_good(1) [OF this] Some JObj show ?thesis by (simp add: unmarshal_map_def)
  qed (simp_all add: unmarshal_map_def typed_empty)
qed

text \<open>What a model server is sent: JSON, and its length.\<close>

definition sound_request :: "out_request \<Rightarrow> bool" where
  "sound_request out \<longleftrightarrow> (case out_Body out of None \<Rightarrow> False
     | Some t \<Rightarrow> out_ContentLength out = int (length t) \<and> \<not> snd (unmarshal_map t (Some fmempty)))"

definition bodies_inv :: "orch \<Rightarrow> bool" where
  "bodies_inv s \<longleftrightarrow> typed_body (rc_Body (o_reqCtx s)) \<and> list_all (\<lambda>(out, a). sound_request out) (o_sent s)"

lemma body_bytes_sound:
  assumes "typed_body (rc_Body c)"
  shows "\<not> snd (unmarshal_map (body_bytes c) (Some fmempty))"
proof (cases "rc_Body c")
  case None
  have "\<not> snd (unmarshal_map ''null'' (Some fmempty))" by code_simp
  with None show ?thesis by (simp add: body_bytes_def marshal_go_map_def)
next
  case (Some m)
  with assms have "good max_nesting (AMap m)" by simp
  then obtain t where "marshal_go_map (Some m) = Some t" "unmarshal_map t (Some fmempty) = (Some (fmmap normal m), False)"
    by (rule unmarshal_marshal)
  with Some show ?thesis by (simp add: body_bytes_def)
qed

text \<open>An action that leaves the body and the log alone.\<close>

lemma inv_keeps: "go_keeps (\<lambda>s. (rc_Body (o_reqCtx s), o_sent s)) m \<Longrightarrow> go_inv bodies_inv m"
  by (simp add: go_inv_def go_keeps_def bodies_inv_def)

lemma inv_ctx: "(\<And>c. typed_body (rc_Body c) \<Longrightarrow> typed_body (rc_Body (f c))) \<Longrightarrow> go_inv bodies_inv (upd_ctx f)"
  by (simp add: go_inv_def upd_ctx_def go_simps bodies_inv_def)

lemma inv_tick: "go_inv bodies_inv next_tick"
  by (rule inv_keeps) (intro go_rules, simp)

lemma inv_metric: "go_inv bodies_inv (record_metric f)"
  by (rule inv_keeps) (intro go_rules, simp)

lemma inv_get: "go_inv bodies_inv (get_ctx f)"
  by (rule inv_keeps) (intro go_rules)

lemma inv_client: "go_inv bodies_inv (client_WriteHeader c)" "go_inv bodies_inv (client_Write E d)"
  by (rule inv_keeps; auto simp: client_WriteHeader_def client_Write_def intro!: go_rules)+

lemma inv_director:
  assumes "\<And>t c. typed_body (rc_Body c) \<Longrightarrow> typed_body (rc_Body (fst (d t c)))"
  shows "go_inv bodies_inv (call_director d)"
  using assms by (auto simp: run_simps call_director_def go_inv_def bodies_inv_def split: prod.split) (metis fst_conv)

text \<open>The director may change the body, but only to another typed one.\<close>

definition director_typed :: "env \<Rightarrow> bool" where
  "director_typed E \<longleftrightarrow> (let D = env_director E; ok = (\<lambda>c c'. typed_body (rc_Body c) \<longrightarrow> typed_body (rc_Body c')) in
     \<forall>t c. ok c (fst (HandleRequest D t c)) \<and> (\<forall>names. ok c (fst (HandleRequestHelper D t c names))) \<and>
       ok c (fst (HandleResponseReceived D t c)) \<and> ok c (fst (HandleResponseBodyStreaming D t c)) \<and>
       ok c (fst (HandleResponseBodyComplete D t c)))"

lemma director_calls:
  assumes "director_typed E"
  shows "go_inv bodies_inv (call_director (HandleRequest (env_director E)))"
    "go_inv bodies_inv (call_director (\<lambda>t c. HandleRequestHelper (env_director E) t c names))"
    "go_inv bodies_inv (call_director (HandleResponseReceived (env_director E)))"
    "go_inv bodies_inv (call_director (HandleResponseBodyStreaming (env_director E)))"
    "go_inv bodies_inv (call_director (HandleResponseBodyComplete (env_director E)))"
  using assms by (auto simp: director_typed_def Let_def intro!: inv_director)

section \<open>Sending\<close>

lemma rewrite_sound:
  assumes "bodies_inv s" and "standardRewrite E i out s = (Inr out', s')"
  shows "sound_request (default_user_agent out') \<and> bodies_inv s'"
proof -
  obtain host where h: "url_host (TargetEndpoint (o_reqCtx s)) = Some host" and b: "out_Body out \<noteq> None"
    using assms(2) by (auto simp: standardRewrite_def run_simps updateOutgoingRequest_eq split: option.splits if_splits)
  from assms(2) have "out' = rewritten E i host s out" and "s' = after_update s"
    by (simp_all add: standardRewrite_eq [OF h b])
  with assms(1) show ?thesis
    by (simp add: sound_request_def rewritten_def bodies_inv_def after_update_def body_bytes_sound)
qed

lemma inv_rewrite: "go_inv bodies_inv (standardRewrite E i out)"
proof -
  have "go_keeps (\<lambda>s. (rc_Body (o_reqCtx s), o_sent s)) (standardRewrite E i out)"
    unfolding standardRewrite_def updateOutgoingRequest_def upd_ctx_def get_ctx_def by (intro go_rules) auto
  then show ?thesis by (rule inv_keeps)
qed

lemma inv_round_trip: "sound_request out \<Longrightarrow> go_inv bodies_inv (round_trip E out)"
  by (auto simp: round_trip_def run_simps go_inv_def bodies_inv_def)

lemma inv_proxy:
  assumes "\<And>c. go_inv (\<lambda>st. bodies_inv (fst st)) (rwo_WriteHeader ops c)"
    and "\<And>d. go_inv (\<lambda>st. bodies_inv (fst st)) (rwo_Write ops d)"
    and "\<And>h st. bodies_inv (fst st) \<Longrightarrow> bodies_inv (fst (rwo_SetHeader ops h st))"
  shows "go_inv (\<lambda>st. bodies_inv (fst st)) (reverse_proxy ops (\<lambda>i out. go_on_fst (standardRewrite E i out))
    (\<lambda>out. go_on_fst (round_trip E out)) req)"
  unfolding reverse_proxy_def
proof (rule inv_bind [OF inv_on_fst [OF inv_rewrite]])
  fix out st st'
  assume "bodies_inv (fst st)" and "go_on_fst (standardRewrite E req (clone_out req)) st = (Inr out, st')"
  then have "sound_request (default_user_agent out)"
    using rewrite_sound by (auto simp: go_on_fst_def split: prod.splits)
  then have "go_inv (\<lambda>st. bodies_inv (fst st)) (go_on_fst (round_trip E (default_user_agent out)))"
    by (intro inv_on_fst inv_round_trip)
  then show "go_inv (\<lambda>st. bodies_inv (fst st)) (go_bind (go_on_fst (round_trip E (default_user_agent out)))
      (\<lambda>res. case res of None \<Rightarrow> rwo_WriteHeader ops StatusBadGateway | Some r \<Rightarrow> send_response ops r))"
    by (rule inv_bind) (intro inv_option inv_send_response assms)
qed

lemma inv_handlers:
  assumes "director_typed E"
  shows "go_inv bodies_inv (standardResponseHeaderHandler E c h)" and "go_inv bodies_inv (standardStreamingHandler E d)"
    and "go_inv bodies_inv (handleEndOfResponse E body)"
proof -
  note calls = director_calls [OF assms]
  note rules = inv_bind inv_then inv_foreach inv_if inv_option inv_basic inv_get inv_metric inv_tick inv_ctx calls
  show "go_inv bodies_inv (standardResponseHeaderHandler E c h)"
    unfolding standardResponseHeaderHandler_def copy_response_header_def by (intro rules) simp_all
  show "go_inv bodies_inv (standardStreamingHandler E d)"
    unfolding standardStreamingHandler_def HandleResponseBodyModelStreaming_def record_token_metrics_def Let_def
    by (intro rules) simp_all
  show "go_inv bodies_inv (handleEndOfResponse E body)"
    unfolding handleEndOfResponse_def HandleResponseBody_def set_complete_timestamp_def record_latencies_def
      record_token_metrics_def
    by (intro rules) simp_all
qed

lemma inv_tee:
  assumes "director_typed E"
  shows "go_inv (\<lambda>st. bodies_inv (fst st)) (rwo_WriteHeader (tee_ops E) c)"
    and "go_inv (\<lambda>st. bodies_inv (fst st)) (rwo_Write (tee_ops E) d)"
    and "bodies_inv (fst st) \<Longrightarrow> bodies_inv (fst (rwo_SetHeader (tee_ops E) h st))"
proof -
  note ops = copying_ops_def client_ops_def CopyingResponseWriter_WriteHeader_def CopyingResponseWriter_Write_def
  note rules = inv_bind inv_then inv_if inv_basic inv_on_fst inv_handlers [OF assms] inv_client
  show "go_inv (\<lambda>st. bodies_inv (fst st)) (rwo_WriteHeader (tee_ops E) c)"
    unfolding ops rw_ops.simps by (intro rules)
  show "go_inv (\<lambda>st. bodies_inv (fst st)) (rwo_Write (tee_ops E) d)"
    unfolding ops rw_ops.simps by (intro rules inv_modify) auto
  show "bodies_inv (fst st) \<Longrightarrow> bodies_inv (fst (rwo_SetHeader (tee_ops E) h st))"
    by (cases st) (simp add: ops bodies_inv_def)
qed

lemma inv_forward: "director_typed E \<Longrightarrow> go_inv bodies_inv (forward_to_client E)"
  unfolding forward_to_client_def
  by (intro inv_bind inv_basic inv_local inv_proxy inv_tee) (simp_all add: inv_handlers split: prod.split)

lemma inv_collecting:
  "go_inv (\<lambda>st. bodies_inv (fst st)) (rwo_WriteHeader collecting_ops c)"
  "go_inv (\<lambda>st. bodies_inv (fst st)) (rwo_Write collecting_ops d)"
  "bodies_inv (fst st) \<Longrightarrow> bodies_inv (fst (rwo_SetHeader collecting_ops h st))"
  using collecting_keeps [of bodies_inv] by (simp_all add: go_inv_def go_keeps_def)

lemma inv_common: "go_inv bodies_inv (commonSendRequest E target)"
  by (simp add: go_inv_def commonSendRequest_eq bodies_inv_def)

lemma inv_SendRequest: "go_inv bodies_inv (SendRequest E target)"
  unfolding SendRequest_def
  by (intro inv_then inv_bind inv_basic inv_local inv_proxy inv_common inv_collecting)
    (auto simp: Let_def split: prod.split intro!: inv_bind inv_tick inv_then inv_basic)

text \<open>A property of the values an action returns.\<close>

definition go_result :: "('a \<Rightarrow> bool) \<Rightarrow> ('s, 'a) go \<Rightarrow> bool" where
  "go_result Q m \<longleftrightarrow> (\<forall>s x s'. m s = (Inr x, s') \<longrightarrow> Q x)"

lemma result_bind: "(\<And>x. go_result Q (k x)) \<Longrightarrow> go_result Q (go_bind m k)"
  unfolding go_result_def go_bind_eq_Inr_iff by blast

lemma result_then: "go_result Q k \<Longrightarrow> go_result Q (go_then m k)"
  unfolding go_then_def by (rule result_bind)

lemma result_return: "Q x \<Longrightarrow> go_result Q (go_return x)"
  by (simp add: go_result_def go_simps)

definition typed_reply :: "gie_error + (string, string) fmap \<times> go_map \<Rightarrow> bool" where
  "typed_reply r \<longleftrightarrow> (case r of Inl e \<Rightarrow> True | Inr (h, m) \<Rightarrow> typed_body m)"

lemma typed_returns:
  "go_result typed_reply (go_return (Inl e))"
  "unmarshal_map data (Some fmempty) = (m, err) \<Longrightarrow> go_result typed_reply (go_return (Inr (h, m)))"
  using unmarshalled_typed [of data] by (auto simp: typed_reply_def intro!: result_return)

lemma SendRequest_typed: "go_result typed_reply (SendRequest E target)"
  unfolding SendRequest_def Let_def
  by (intro result_then result_bind) (auto intro!: result_then result_bind intro: typed_returns split: prod.split)

section \<open>The plugin and the handler\<close>

lemma inv_body_set: "utf8_ok k \<Longrightarrow> typed_field v \<Longrightarrow> go_inv bodies_inv (body_set k v)"
  by (auto simp: go_inv_def body_set_def run_simps orch_Body_def bodies_inv_def typed_upd split: option.split)

lemma inv_body_delete: "go_inv bodies_inv (body_delete k)"
  unfolding body_delete_def
  by (rule inv_ctx) (auto simp: typed_body_def good_fmdrop split: option.splits)

lemma inv_set_id: "go_inv bodies_inv (set_request_id u)"
  unfolding set_request_id_def by (rule inv_ctx) simp

lemma inv_restore: "utf8_ok k \<Longrightarrow> (\<And>v. old = Some v \<Longrightarrow> typed_field v) \<Longrightarrow> go_inv bodies_inv (restore_field k old)"
  by (cases old) (simp_all add: restore_field_def inv_basic inv_body_set)

lemma stream_options_utf8: "utf8_ok requestFieldStreamOptions"
  by (rule utf8_ascii) (simp add: field_defs)

lemma typed_one: "typed_field (AInt 1)"
  by (rule typed_leaf) simp

lemma read_typed: "bodies_inv s \<Longrightarrow> go_read orch_Body s = (Inr b, s') \<Longrightarrow> typed_body b"
  by (auto simp: go_simps orch_Body_def bodies_inv_def)

lemma inv_sum: "(\<And>x. go_inv I (a x)) \<Longrightarrow> (\<And>x. go_inv I (b x)) \<Longrightarrow> go_inv I (case v of Inl x \<Rightarrow> a x | Inr x \<Rightarrow> b x)"
  by (cases v) simp_all

lemma inv_sendPrefillRequest: "go_inv bodies_inv (sendPrefillRequest E r)"
proof -
  let ?rest = "\<lambda>u b m. go_then (set_request_id u)
      (go_then (body_delete requestFieldStream)
      (go_then (restore_field requestFieldStream (go_map_get b requestFieldStream))
      (go_then (restore_field requestFieldStreamOptions (go_map_get b requestFieldStreamOptions))
      (go_then (body_delete requestFieldMaxTokens)
      (go_then (restore_field requestFieldMaxTokens (go_map_get b requestFieldMaxTokens))
      (go_then (body_delete requestFieldMaxCompletionTokens)
      (go_then (restore_field requestFieldMaxCompletionTokens (go_map_get b requestFieldMaxCompletionTokens))
      (go_then (body_set requestFieldKVTransferParams (nil_default (go_map_get m requestFieldKVTransferParams)))
         (go_return (None :: orch_error option))))))))))"
  note fields = fields_utf8 stream_options_utf8
  have rest: "go_inv bodies_inv (?rest u b m)" if "typed_body b" "typed_body m" for u b m
    using that by (intro inv_then inv_set_id inv_body_delete inv_restore inv_body_set inv_basic typed_nil_default fields)
      (erule typed_get, assumption)+
  have reply: "go_inv bodies_inv (case res of Inl err \<Rightarrow> go_return (Some (GieError err)) | Inr (_, m) \<Rightarrow> ?rest u b m)"
    if "typed_body b" and "SendRequest E target s = (Inr res, s')" for u b target res s s'
  proof -
    have "typed_reply res" using SendRequest_typed that(2) unfolding go_result_def by blast
    then show ?thesis by (cases res) (auto simp: typed_reply_def intro: inv_basic rest [OF that(1)])
  qed
  show ?thesis
    unfolding sendPrefillRequest_def Let_def
    by (rule inv_bind [OF inv_tick], rule inv_sum, rule inv_basic, rule inv_then [OF inv_set_id],
        rule inv_bind [OF inv_basic(3)], drule (1) read_typed,
        (rule inv_then, (rule inv_body_delete | (rule inv_body_set, rule fields, (rule typed_kv_params typed_leaf(2) typed_one))))+,
        rule inv_bind [OF inv_basic(4)], rule inv_bind [OF inv_SendRequest], rule reply)
qed

lemma inv_DetermineTargets: "director_typed E \<Longrightarrow> go_inv bodies_inv (DetermineTargets E names)"
  unfolding DetermineTargets_def sendError_def
  by (rule inv_bind [OF director_calls(2)]) (auto split: sum.split intro!: inv_then inv_basic inv_client)

lemma inv_Orchestrate:
  assumes "director_typed E"
  shows "go_inv bodies_inv (Orchestrate E p)"
proof -
  have d: "go_inv bodies_inv (sendDecodeRequest E r)" for r
    unfolding sendDecodeRequest_def SendRequestAndResponse_def
    by (intro inv_bind inv_basic inv_then inv_common inv_forward assms)
  have q: "go_inv bodies_inv (prefill_if_any E r)" for r
    by (cases r) (simp_all add: prefill_if_any_def inv_basic inv_sendPrefillRequest)
  note rules = inv_bind inv_basic inv_then d q inv_DetermineTargets assms
  show ?thesis
    unfolding Orchestrate_def nonDeferredDecodePD_def deferredDecodePD_def
    by (auto split: sum.split option.split intro!: rules)
qed

text \<open>Preparing a request starts from an empty body and an empty log.\<close>

lemma bind_from:
  assumes "go_keeps f m" and "f s = v" and "\<And>s. f s = v \<Longrightarrow> J s" and "\<And>x s. f s = v \<Longrightarrow> J (snd (k x s))"
  shows "J (snd (go_bind m k s))"
proof -
  obtain r s1 where m: "m s = (r, s1)" by (cases "m s")
  have "f s1 = v" using go_keepsD [OF assms(1) m] assms(2) by simp
  with m assms(3,4) show ?thesis by (cases r) (simp_all add: go_bind_def)
qed

lemma prepare_inv: "bodies_inv (snd (PrepareRequest E (NewOrchestration E req rid w t)))"
proof -
  let ?f = "\<lambda>s. (rc_Body (o_reqCtx s), o_sent s)"
  have start: "?f (NewOrchestration E req rid w t) = (Some fmempty, [])" by (simp add: NewOrchestration_def)
  have J: "bodies_inv s" if "?f s = (Some fmempty, [])" for s using that by (simp add: bodies_inv_def typed_empty)
  note step = bind_from [where f = ?f and v = "(Some fmempty, [])" and J = bodies_inv, OF _ _ J]
  have headers: "go_keeps ?f (go_foreach (copy_request_header E h) ks)" for h ks
    unfolding copy_request_header_def upd_ctx_def by (intro go_rules) simp_all
  have upd: "go_keeps ?f (upd_ctx g)" if "\<And>c. rc_Body (g c) = rc_Body c" for g
    using that by (simp add: go_keeps_def upd_ctx_def go_simps)
  have last: "bodies_inv (snd ((let (body, readErr) = req_Body r; bad = e in if readErr then go_return (Some bad)
      else go_bind (get_ctx (\<lambda>c. unmarshal_map body (rc_Body c))) (\<lambda>(m, unmarshalErr).
        go_then (upd_ctx (\<lambda>c. c\<lparr>rc_Body := m\<rparr>))
          (if unmarshalErr then go_return (Some bad)
           else go_then (upd_ctx (\<lambda>c. c\<lparr>RequestSize := int (length body)\<rparr>)) (go_return None)))) s))"
    if "?f s = (Some fmempty, [])" for r e s
    using that unmarshalled_typed [of "fst (req_Body r)"]
    by (auto simp: run_simps bodies_inv_def typed_empty split: prod.split)
  show ?thesis
    unfolding PrepareRequest_def go_then_def
    by (rule step, intro go_rules, rule start, assumption, rule step, intro go_rules, simp, assumption, assumption,
        rule step, rule headers, assumption, assumption,
        rule step, rule upd, simp add: set_pseudo_headers_def, assumption, assumption,
        rule step, rule upd, simp, assumption, assumption, erule last [unfolded go_then_def])
qed

lemma serve_inv:
  assumes "director_typed E"
  shows "bodies_inv (snd (ServeHTTP E ip rw req))"
proof -
  obtain rid t where r: "request_id E req 0 = (rid, t)" by (cases "request_id E req 0")
  have std: "go_inv bodies_inv (StandardProcessing E)"
    unfolding StandardProcessing_def sendError_def
    by (rule inv_bind [OF director_calls(1) [OF assms]])
      (auto split: option.split intro!: inv_then inv_basic inv_client inv_forward assms)
  obtain res s where p: "PrepareRequest E (NewOrchestration E req rid rw t) = (res, s)" by fastforce
  have s: "bodies_inv s" using prepare_inv [of E req rid rw t] p by simp
  have k: "go_inv bodies_inv (case err of Some e \<Rightarrow> handlers_sendError E (Error_text E e) | None \<Rightarrow>
      (case ip_orchestrator ip of None \<Rightarrow> StandardProcessing E
       | Some orchestrator \<Rightarrow> go_then (Orchestrate E orchestrator) (go_return ())))" for err
    unfolding handlers_sendError_def
    by (auto split: option.split intro!: inv_then inv_basic inv_client std inv_Orchestrate assms)
  from s k show ?thesis
    by (cases res) (simp_all add: ServeHTTP_def r serve_body_def go_bind_def p go_inv_def)
qed

section \<open>Properties\<close>

text \<open>
  C4: the request body stays typed and what leaves the proxy is JSON.  If the director gives back typed
  bodies for typed bodies, then whatever the client sent, and whatever the network and the client's
  connection do, every request to a model server has a body that decodes without an error and whose
  length is the length announced; and the body of the request context is typed at the end, also
  when the handler panics.
\<close>

theorem requests_carry_json:
  assumes "director_typed E"
  shows "list_all (\<lambda>(out, a). sound_request out) (o_sent (snd (ServeHTTP E ip rw req))) \<and>
    typed_body (orch_Body (snd (ServeHTTP E ip rw req)))"
  using serve_inv [OF assms, of ip rw req] by (simp add: bodies_inv_def orch_Body_def)

theorem requests_carry_json_witness:
  "list_all (\<lambda>(out, a). sound_request out)
     (o_sent (snd (ServeHTTP pd_env (NewProxy (Some (example_pd False))) new_response_writer example_client))) \<and>
   typed_body (orch_Body (snd (ServeHTTP pd_env (NewProxy (Some (example_pd False))) new_response_writer example_client)))"
  by (rule requests_carry_json) (simp add: director_typed_def pd_env_def example_env_def example_director_def Let_def)

end
