(* ===== verification/PD_Protocol.thy ===== *)
theory PD_Protocol
  imports End_To_End
begin

text \<open>
  The protocol of the P/D plugin with all its outcomes, as an abstract specification: which exchanges a run
  consists of and what the client sees, for every answer of the scheduler.  The specification is written in the
  order of the protocol's steps and knows neither headers nor request contexts; \<open>protocol_view\<close> shows that
  the handler with the plugin implements it in both modes.
\<close>

section \<open>The protocol\<close>

type_synonym view = "exchange list \<times> (int \<times> string)"

text \<open>What the scheduler answers when it is asked for some profiles: an error, or the worker of each profile.\<close>

type_synonym schedule = "string list \<Rightarrow> string + (string \<Rightarrow> endpoint option)"

definition nothing_sent :: "int \<times> string \<Rightarrow> view \<Rightarrow> bool" where
  "nothing_sent c v \<longleftrightarrow> v = ([], c)"

fun decode_phase :: "string + endpoint option \<Rightarrow> (string, any) fmap \<Rightarrow> view \<Rightarrow> bool" where
  "decode_phase (Inl err) m v \<longleftrightarrow> nothing_sent (500, err) v"
| "decode_phase (Inr None) m v \<longleftrightarrow> nothing_sent (StatusOK, '''') v"
| "decode_phase (Inr (Some d)) m v \<longleftrightarrow> (\<exists>a. v = ([(address d, Some m, a)], client_view a))"

text \<open>The prefill phase, and what follows it if its answer is an object; without a worker it is skipped.\<close>

fun prefill_phase_spec ::
  "endpoint option \<Rightarrow> (string, any) fmap \<Rightarrow> ((string, any) fmap \<Rightarrow> view \<Rightarrow> bool) \<Rightarrow> view \<Rightarrow> bool" where
  "prefill_phase_spec None m continue v \<longleftrightarrow> continue m v"
| "prefill_phase_spec (Some q) m continue v \<longleftrightarrow> (\<exists>a. case answered_object a of
     None \<Rightarrow> v = ([(address q, Some (prefill_object m), a)], (StatusOK, ''''))
   | Some r \<Rightarrow> (\<exists>v'. continue (decode_body r m) v' \<and> v = ((address q, Some (prefill_object m), a) # fst v', snd v')))"

definition pd_protocol :: "bool \<Rightarrow> schedule \<Rightarrow> string \<Rightarrow> string \<Rightarrow> (string, any) fmap \<Rightarrow> view \<Rightarrow> bool" where
  "pd_protocol deferred S q d m v \<longleftrightarrow>
     (if deferred then
        case S [q] of Inl err \<Rightarrow> nothing_sent (500, err) v
        | Inr w \<Rightarrow> prefill_phase_spec (w q) m (decode_phase (map_sum id (\<lambda>w. w d) (S [d]))) v
      else
        case S [q, d] of Inl err \<Rightarrow> nothing_sent (500, err) v
        | Inr w \<Rightarrow> if w d = None then nothing_sent (StatusOK, '''') v
                  else prefill_phase_spec (w q) m (decode_phase (Inr (w d))) v)"

section \<open>What a state shows\<close>

text \<open>The exchanges between two states, and what the client sees in the second.\<close>

definition shows_view :: "orch \<Rightarrow> orch \<Rightarrow> view \<Rightarrow> bool" where
  "shows_view s s' v \<longleftrightarrow> map abs_exchange (o_sent s') = map abs_exchange (o_sent s) @ fst v \<and> client_sees (o_rw s') = snd v"

text \<open>A state in which the next request can be sent: nothing is written to the client yet.\<close>

definition at_work :: "env \<Rightarrow> (string, any) fmap \<Rightarrow> orch \<Rightarrow> bool" where
  "at_work E m s \<longleftrightarrow> workable E s \<and> orch_Body s = Some m \<and> o_rw s = new_response_writer \<and>
     good max_nesting (AMap m) \<and> fmmap normal m = m"

definition implements :: "env \<Rightarrow> (orch, 'a) go \<Rightarrow> ((string, any) fmap \<Rightarrow> view \<Rightarrow> bool) \<Rightarrow> bool" where
  "implements E k spec \<longleftrightarrow> (\<forall>s m. at_work E m s \<longrightarrow> (\<exists>v. spec m v \<and> shows_view s (snd (k s)) v))"

lemma implementsD: "implements E k spec \<Longrightarrow> at_work E m s \<Longrightarrow> \<exists>v. spec m v \<and> shows_view s (snd (k s)) v"
  by (simp add: implements_def)

lemma implementsI: "(\<And>s m. at_work E m s \<Longrightarrow> \<exists>v. spec m v \<and> shows_view s (snd (k s)) v) \<Longrightarrow> implements E k spec"
  by (simp add: implements_def)

lemma implements_nothing:
  assumes "\<And>s m. at_work E m s \<Longrightarrow> o_sent (snd (k s)) = o_sent s \<and> client_sees (o_rw (snd (k s))) = c"
  shows "implements E k (\<lambda>_. nothing_sent c)"
  using assms by (intro implementsI exI [of _ "([], c)"]) (simp add: nothing_sent_def shows_view_def)

lemma implements_return: "implements E (go_return x) (\<lambda>_. nothing_sent (StatusOK, ''''))"
  by (rule implements_nothing) (simp add: go_simps at_work_def fresh_writer)

lemma implements_decode:
  assumes "has_target dr d"
  shows "implements E (go_then (sendDecodeRequest E dr) (go_return r)) (decode_phase (Inr (Some d)))"
proof (rule implementsI)
  fix s m
  assume s: "at_work E m s"
  then obtain out a where c: "carries out d m" and "o_sent (snd (sendDecodeRequest E dr s)) = o_sent s @ [(out, a)]"
    and "o_rw (snd (sendDecodeRequest E dr s)) = client_result a (o_rw s)"
    using decode_step [OF _ assms] unfolding at_work_def by blast
  moreover have "abs_exchange (out, a) = (address d, Some m, a)"
    using carries_decoded [OF c] s by (simp add: at_work_def abs_exchange_def)
  ultimately show "\<exists>v. decode_phase (Inr (Some d)) m v \<and>
      shows_view s (snd (go_then (sendDecodeRequest E dr) (go_return r) s)) v"
    using s by (intro exI [of _ "([(address d, Some m, a)], client_view a)"])
      (simp add: shows_view_def snd_decode_then at_work_def client_result_view fresh_writer)
qed

lemma implements_prefill:
  assumes res: "case w of None \<Rightarrow> pr = None | Some q \<Rightarrow> \<exists>r. pr = Some r \<and> has_target r q"
    and id: "\<forall>t. \<exists>u. NewUUID E t = Inr u" and k: "implements E k spec"
  shows "implements E (go_bind (prefill_if_any E pr) (\<lambda>err. case err of Some e \<Rightarrow> go_return (Some e) | None \<Rightarrow> k))
    (\<lambda>m. prefill_phase_spec w m spec)"
proof (cases w)
  case None
  with res k show ?thesis
    by (auto simp: prefill_if_any_def go_bind_def go_simps implements_def)
next
  case (Some q)
  with res obtain r where pr: "pr = Some r" and tgt: "has_target r q" by auto
  show ?thesis
  proof (rule implementsI)
    fix s m
    assume s: "at_work E m s"
    obtain u where u: "NewUUID E (o_tick s) = Inr u" using id by blast
    obtain out a o2 where c: "carries out q (prefill_body m)" and o2: "o_sent o2 = o_sent s @ [(out, a)]"
      "o_rw o2 = o_rw s" "o_req o2 = o_req s"
      and run: "case decode_reply E a of
         Inl err \<Rightarrow> sendPrefillRequest E r s = (Inr (Some (GieError err)), o2)
       | Inr (_, x) \<Rightarrow> sendPrefillRequest E r s = (Inr None, o2) \<and> orch_Body o2 = Some (decode_body x m) \<and>
           fmlookup (orch_Headers o2) requestHeaderRequestID = Some u"
      using prefill_step [OF _ tgt _ u, of m] s unfolding at_work_def by blast
    have m: "good max_nesting (AMap m)" "fmmap normal m = m" using s by (simp_all add: at_work_def)
    let ?x = "(address q, Some (prefill_object m), a)"
    have x: "abs_exchange (out, a) = ?x"
      using carries_decoded [OF c good_prefill_body [OF m(1)]] normal_prefill_body [OF m(2)] by (simp add: abs_exchange_def)
    let ?run = "go_bind (prefill_if_any E pr) (\<lambda>err. case err of Some e \<Rightarrow> go_return (Some e) | None \<Rightarrow> k) s"
    show "\<exists>v. prefill_phase_spec w m spec v \<and> shows_view s (snd ?run) v"
    proof (cases "answered_object a")
      case None
      then have "snd ?run = o2"
        using run by (simp add: decode_reply_object pr prefill_if_any_def go_bind_def go_simps)
      with None Some s o2 x show ?thesis
        by (intro exI [of _ "([?x], (StatusOK, ''''))"])
          (auto simp: shows_view_def at_work_def fresh_writer intro!: exI [of _ a])
    next
      case (Some y)
      have run': "snd ?run = snd (k o2)" and b: "orch_Body o2 = Some (decode_body y m)"
        using run Some by (simp_all add: decode_reply_object pr prefill_if_any_def go_bind_def)
      have y: "good max_nesting (AMap z) \<and> fmmap normal z = z" if "y = Some z" for z
        using answered_good Some that by simp
      have "at_work E (decode_body y m) o2"
        using s o2 b good_decode_body [OF m(1), of y] normal_decode_body [OF m(2), of y] y
        by (simp add: at_work_def workable_cong [of o2 s])
      from implementsD [OF k this] obtain xs st b where "spec (decode_body y m) (xs, st, b)" and "shows_view o2 (snd (k o2)) (xs, st, b)"
        by auto
      with Some \<open>w = Some q\<close> run' o2 x show ?thesis
        by (intro exI [of _ "(?x # xs, st, b)"]) (auto simp: shows_view_def intro!: exI [of _ a])
    qed
  qed
qed

section \<open>The scheduler\<close>

definition agrees :: "string list \<Rightarrow> string + scheduling_result \<Rightarrow> string + (string \<Rightarrow> endpoint option) \<Rightarrow> bool" where
  "agrees names r s \<longleftrightarrow> (case (r, s) of
     (Inl e, Inl e') \<Rightarrow> e = e'
   | (Inr res, Inr w) \<Rightarrow> (\<forall>k \<in> set names. case w k of
       None \<Rightarrow> run_result res k = None
     | Some e \<Rightarrow> \<exists>pr. run_result res k = Some pr \<and> has_target pr e)
   | _ \<Rightarrow> False)"

text \<open>The director schedules as \<open>S\<close> says, whenever it is asked, and leaves the body alone.\<close>

definition schedules :: "env \<Rightarrow> schedule \<Rightarrow> bool" where
  "schedules E S \<longleftrightarrow> (\<forall>t c names. \<exists>c' r. HandleRequestHelper (env_director E) t c names = (c', r) \<and>
     rc_Body c' = rc_Body c \<and> agrees names r (S names))"

lemma implements_schedule:
  assumes S: "schedules E S"
    and err: "\<And>e m v. S names = Inl e \<Longrightarrow> spec m v = nothing_sent (500, e) v"
    and ok: "\<And>res w. S names = Inr w \<Longrightarrow> agrees names (Inr res) (Inr w) \<Longrightarrow> implements E (k res) spec"
  shows "implements E (go_bind (DetermineTargets E names) (\<lambda>r. case r of
    Inl err \<Rightarrow> go_return (Some (PluginError err)) | Inr res \<Rightarrow> k res)) spec" (is "implements E ?run spec")
proof (rule implementsI)
  fix s m
  assume s: "at_work E m s"
  obtain c r where c: "HandleRequestHelper (env_director E) (o_tick s) (o_reqCtx s) names = (c, r)"
    and b: "rc_Body c = rc_Body (o_reqCtx s)" and a: "agrees names r (S names)"
    using S unfolding schedules_def by blast
  show "\<exists>v. spec m v \<and> shows_view s (snd (?run s)) v"
  proof (cases r)
    case (Inl e)
    with a have e: "S names = Inl e" by (auto simp: agrees_def split: sum.splits)
    have "client_sees (o_rw (snd (?run s))) = (500, e)" "o_sent (snd (?run s)) = o_sent s"
      using s workableD(3) [of E s]
      by (simp_all add: go_bind_def go_simps sched_err [OF c [unfolded Inl]] at_work_def new_response_writer_def
          rw_Write_def rw_WriteHeader_def client_sees_def)
    then show ?thesis
      using err [OF e] by (intro exI [of _ "([], (500, e))"]) (simp add: nothing_sent_def shows_view_def)
  next
    case (Inr res)
    with a obtain w where w: "S names = Inr w" by (auto simp: agrees_def split: sum.splits)
    let ?s = "s\<lparr>o_reqCtx := c, o_tick := Suc (o_tick s)\<rparr>"
    have "at_work E m ?s" using s b by (simp add: at_work_def workable_def orch_Body_def fresh_writer)
    from implementsD [OF ok [OF w] this] a Inr w
    show ?thesis by (auto simp: go_bind_def sched_eq [OF c [unfolded Inr]] shows_view_def)
  qed
qed

section \<open>The plugin implements the protocol\<close>

lemma implements_found:
  assumes "case w of None \<Rightarrow> r = None | Some e \<Rightarrow> \<exists>dr. r = Some dr \<and> has_target dr e"
  shows "implements E (case r of None \<Rightarrow> go_return x | Some dr \<Rightarrow> go_then (sendDecodeRequest E dr) (go_return y))
    (decode_phase (Inr w))"
proof (cases w)
  case None
  have "decode_phase (Inr None) = (\<lambda>_. nothing_sent (StatusOK, ''''))" by (intro ext) simp
  with assms None show ?thesis by (simp add: implements_return)
next
  case (Some e)
  with assms show ?thesis by (auto intro: implements_decode)
qed

lemma implements_pd:
  assumes S: "schedules E S" and id: "\<forall>t. \<exists>u. NewUUID E t = Inr u"
  shows "implements E (Orchestrate E p) (pd_protocol (po_deferredDecode p) S (po_prefillProfile p) (po_decodeProfile p))"
proof -
  let ?q = "po_prefillProfile p" and ?d = "po_decodeProfile p"
  have found: "case w k of None \<Rightarrow> run_result res k = None | Some e \<Rightarrow> \<exists>r. run_result res k = Some r \<and> has_target r e"
    if "agrees names (Inr res) (Inr w)" "k \<in> set names" for names res w k
    using that by (auto simp: agrees_def)
  show ?thesis
  proof (cases "po_deferredDecode p")
    case True
    have decode: "implements E (go_bind (DetermineTargets E [?d]) (\<lambda>r2. case r2 of
        Inl err \<Rightarrow> go_return (Some (PluginError err))
      | Inr res \<Rightarrow> (case run_result res ?d of
          None \<Rightarrow> go_return (Some no_decode_workers)
        | Some r \<Rightarrow> go_then (sendDecodeRequest E r) (go_return None))))
      (decode_phase (map_sum id (\<lambda>w. w ?d) (S [?d])))"
      by (rule implements_schedule [OF S]) (auto intro: implements_found dest: found)
    have "implements E (deferredDecodePD E p) (pd_protocol True S ?q ?d)"
      unfolding deferredDecodePD_def
    proof (rule implements_schedule [OF S])
      fix res w
      assume w: "S [?q] = Inr w" and a: "agrees [?q] (Inr res) (Inr w)"
      have "pd_protocol True S ?q ?d = (\<lambda>m. prefill_phase_spec (w ?q) m (decode_phase (map_sum id (\<lambda>w. w ?d) (S [?d]))))"
        by (intro ext) (simp add: pd_protocol_def w)
      then show "implements E (go_bind (prefill_if_any E (run_result res ?q)) (\<lambda>err. case err of
          Some e \<Rightarrow> go_return (Some e)
        | None \<Rightarrow> go_bind (DetermineTargets E [?d]) (\<lambda>r2. case r2 of
            Inl err \<Rightarrow> go_return (Some (PluginError err))
          | Inr res \<Rightarrow> (case run_result res ?d of
              None \<Rightarrow> go_return (Some no_decode_workers)
            | Some r \<Rightarrow> go_then (sendDecodeRequest E r) (go_return None))))) (pd_protocol True S ?q ?d)"
        using implements_prefill [OF found [OF a, of ?q] id decode] by simp
    qed (simp add: pd_protocol_def)
    with True show ?thesis by (simp add: Orchestrate_def)
  next
    case False
    have "implements E (nonDeferredDecodePD E p) (pd_protocol False S ?q ?d)"
      unfolding nonDeferredDecodePD_def
    proof (rule implements_schedule [OF S])
      fix res w
      assume w: "S [?q, ?d] = Inr w" and a: "agrees [?q, ?d] (Inr res) (Inr w)"
      show "implements E (case run_result res ?d of
          None \<Rightarrow> go_return (Some no_decode_workers)
        | Some r \<Rightarrow> go_bind (prefill_if_any E (run_result res ?q)) (\<lambda>err. case err of
            Some e \<Rightarrow> go_return (Some e)
          | None \<Rightarrow> go_then (sendDecodeRequest E r) (go_return None))) (pd_protocol False S ?q ?d)"
      proof (cases "w ?d")
        case None
        have "pd_protocol False S ?q ?d = (\<lambda>_. nothing_sent (StatusOK, ''''))"
          by (intro ext) (simp add: pd_protocol_def w None)
        with found [OF a, of ?d] None show ?thesis by (simp add: implements_return)
      next
        case (Some e)
        then obtain r where r: "run_result res ?d = Some r" "has_target r e" using found [OF a, of ?d] by auto
        have "pd_protocol False S ?q ?d = (\<lambda>m. prefill_phase_spec (w ?q) m (decode_phase (Inr (Some e))))"
          by (intro ext) (simp add: pd_protocol_def w Some)
        with r(1) implements_prefill [OF found [OF a, of ?q] id implements_decode [OF r(2)]] show ?thesis by simp
      qed
    qed (simp add: pd_protocol_def)
    with False show ?thesis by (simp add: Orchestrate_def)
  qed
qed

lemma protocol_view:
  assumes "served E req m" and "schedules E S" and "\<forall>t. \<exists>u. NewUUID E t = Inr u"
  shows "pd_protocol (po_deferredDecode p) S (po_prefillProfile p) (po_decodeProfile p) m
    (abs_run (ServeHTTP E (NewProxy (Some p)) new_response_writer req))"
proof -
  obtain o2 where run: "ServeHTTP E (NewProxy (Some p)) new_response_writer req = go_then (Orchestrate E p) (go_return ()) o2"
    and o2: "workable E o2" "o_rw o2 = new_response_writer" "o_sent o2 = []" "rc_Body (o_reqCtx o2) = Some m"
    using servedE [OF assms(1), of "NewProxy (Some p)"] by (auto simp: NewProxy_def)
  have "at_work E m o2" using o2 served_good [OF assms(1)] by (simp add: at_work_def orch_Body_def)
  from implementsD [OF implements_pd [OF assms(2,3)] this, of p]
  show ?thesis using o2(3) by (auto simp: run abs_run_def snd_then_return shows_view_def)
qed

section \<open>An example\<close>

text \<open>A scheduler that has a prefill worker but fails when it is asked for a decode worker afterwards.\<close>

definition failing_schedule :: schedule where
  "failing_schedule names =
     (if names = [''decode''] then Inl ''no pods''
      else Inr (\<lambda>k. if k = ''prefill'' then Some (example_endpoint ''10.0.0.1'') else None))"

definition failing_sched :: "string list \<Rightarrow> string + scheduling_result" where
  "failing_sched names =
     (if names = [''decode''] then Inl ''no pods''
      else Inr (example_result [(''prefill'', example_endpoint ''10.0.0.1'')]))"

lemma failing_schedules: "schedules (example_env failing_sched example_network) failing_schedule"
  using pd_target(1)
  by (auto simp: schedules_def agrees_def failing_schedule_def failing_sched_def run_result_def example_result_def)

end
