(* ===== verification/Spec2Isabelle.thy ===== *)
theory Spec2Isabelle
  imports Startup Typed_Bodies PD_Protocol
begin

text \<open>
  A model of the llm-d inference proxy (src/cmd and src/pkg) with the theorems that make it correct.

  \<^bold>\<open>The program.\<close>  The proxy takes inference requests over HTTP, asks the scheduler of the
  gateway-api-inference-extension module for model servers, passes the request on and streams the answer back.  The
  handler (handlers/proxy.go) names and prepares a request and gives it either to the standard processing
  (orchestrations/standard.go), which routes it to one server, or to an orchestration plugin.  The one plugin of the
  repository (plugins/orchestration/pd\_orchestration.go) splits a request in two: a prefill worker
  computes the prompt's cache, then a decode worker produces the answer with the transfer parameters of the
  first.  The plugins of the scheduler (plugins/filter, plugins/profile, plugins/pre-request) choose the workers and decide
  whether a prefill is worth it; cmd/proxy and server/ register and run all of it.

  \<^bold>\<open>The theories.\<close>
  \<^item> Prelude: strings, the 64-bit integers, actions that change a state and may panic (\<open>go\<close>), loops over maps in
    any order, and the calculus of what an action leaves alone (\<open>go_keeps\<close>).
  \<^item> Go\_Float, Go\_Http, Go\_Json: what the program uses of the standard library: binary64 arithmetic, headers, the
    reverse proxy, the JSON decoder and encoder.  Gie: the interface of the extension module.
  \<^item> Json\_Text, Json\_Numbers, Json\_Literals, Json\_Roundtrip: what the encoder writes the decoder reads back.
  \<^item> Response\_Writer (response\_writer.go); Orchestration and Orchestration\_Correct (orchestration.go,
    plugin\_api.go, standard.go).  The record \<open>orch\<close> is the Go object \<open>Orchestration\<close> together with what the outside sees: \<open>o_sent\<close> logs the
    requests to model servers with their answers, \<open>o_metrics\<close> the metrics, \<open>o_rw\<close> the client's writer.
  \<^item> PD\_Orchestration (pd\_orchestration.go), Proxy\_Handler (handlers/proxy.go).
  \<^item> Filters (by\_label.go, by\_label\_selector.go, pd\_role.go), Profile\_Handlers (pd\_profile\_handler.go,
    orchestration\_profile\_handler.go, common.go), Pre\_Request (pd\_prerequest.go), Metrics (metrics.go).
  \<^item> Server (runserver.go, tls.go, leader\_election.go), Startup (register.go, helper.go, main.go).
  \<^item> Destinations: which servers a request may reach, and the plugin interface (plugin.go).  Typed\_Bodies: the
    body stays JSON.  End\_To\_End: a run as the client and the model servers see it.  PD\_Protocol: the abstract protocol
    of the plugin with all its outcomes.
  \<^item> Example\_Env: the environment the witnesses use.

  An operation carries the name of its Go function; a method \<open>m\<close> of a type \<open>T\<close> that several types have is \<open>T_m\<close>.  A
  panic is a result of its own (\<open>Inl\<close>), and so is every error.

  \<^bold>\<open>What is shown.\<close>  Refinement: for every answer of the scheduler a whole run with the plugin is a run of the abstract protocol on the
  objects that the servers decode (\<open>pd_protocol_refined\<close>), and one without is a single exchange of the client's object
  (\<open>standard_round_trip\<close>).  Safety without any hypothesis: no server but the scheduled ones is contacted, each for its
  own step and at most once (\<open>only_scheduled_workers\<close>).  Types: what leaves the proxy is JSON (\<open>requests_carry_json\<close>).  Below these, for each component,
  its operations on every branch, the invariants of its state, its factories' checks and its errors; for the profile
  handler the decision in floating point against integer arithmetic, the termination of the scheduler's rounds and the one decision
  they count; for the
  server the life cycle of its goroutine as a step relation.

  \<^bold>\<open>Interfaces.\<close>  \<open>named_plugin\<close> (all plugins), \<open>endpoint_filter\<close> (the filters), \<open>body_collector\<close> (the response writers, towards the
  reverse proxy) and \<open>orchestration_plugin\<close> (the plugin, towards the handler) are locales, each interpreted on the model's operations.

  \<^bold>\<open>Bounds and fuel.\<close>  The JSON scanner has fuel, \<open>2 * length s + 2\<close> for an input \<open>s\<close>; every call passes on one unit less and
  every second one consumes a character, and \<open>parse_fuel_enough\<close> shows that more fuel never changes the result.  Nesting is limited to
  the 10000 levels of Go's decoder.  All other functions recurse structurally or on a length.

  \<^bold>\<open>Parameters.\<close>  The records \<open>env\<close> and \<open>director\<close> hold what is not part of the repository: the director and its plugins, the
  network, the clock, the identifiers, the order of each map iteration, and the constants of the extension
  module.  Effects take a counter, so that equal questions may have different answers.  The label selector, the
  primitives of crypto/x509 and the runner of the extension module are arguments of the definitions that use
  them.

  \<^bold>\<open>Not modelled.\<close>  Log calls and request contexts (no decision depends on them), the collector list of the metrics, the
  metrics logger of the extension module, trailers and informational responses of the reverse proxy, and the
  deployment files.

  \<^bold>\<open>What the code does not do.\<close>  Several properties record behaviour the code does not intend: the dropped error of the plugin
  (\<open>no_decode_worker_looks_like_success\<close>), control headers compared with names that never occur
  (\<open>control_headers_ignored\<close>, \<open>streaming_never_detected\<close>), a header set twice in map order (\<open>request_id_order_dependent\<close>), unchecked
  type assertions (\<open>malformed_usage_panics\<close>), and the threshold test at its edges (\<open>boundary_rounding\<close>,
  \<open>empty_prompt_prefills\<close>, \<open>third_profile_never_ends\<close>).
\<close>



text \<open>
  In particular: with the P/D plugin and both workers available, in either scheduling mode, a run refines the
  abstract protocol: the prefill worker decodes the client's object with one token to produce and streaming off,
  the decode worker decodes the client's object with the transfer parameters of the
  prefill answer, nothing else is sent, and the client sees the decode worker's answer as it is; if the
  prefill answer is not a JSON object, nothing more is sent and the client sees an empty 200.
\<close>

theorem pd_refines:
  assumes "served E req m" and "finds_workers E p pr dr" and "has_target pr q" and "has_target dr d"
    and "\<forall>t. \<exists>u. NewUUID E t = Inr u"
  shows "pd_spec (address q) (address d) m (abs_run (ServeHTTP E (NewProxy (Some p)) new_response_writer req))"
  using assms by (rule pd_view)

theorem pd_refines_witness:
  "pd_spec (address (example_endpoint ''10.0.0.1'')) (address (example_endpoint ''10.0.0.2'')) example_object
     (abs_run (ServeHTTP pd_env (NewProxy (Some (example_pd True))) new_response_writer example_client))"
proof -
  have find: "finds_workers pd_env (example_pd True) \<lparr>TargetEndpoints = [example_endpoint ''10.0.0.1'']\<rparr>
      \<lparr>TargetEndpoints = [example_endpoint ''10.0.0.2'']\<rparr>"
    unfolding finds_workers_def by (auto simp: pd_sched example_sched_def example_pd_def NewPdOrchestration_def example_workers)
  show ?thesis
    by (rule pd_refines [OF _ find pd_target]) (simp_all add: pd_sched example_served [of example_sched, folded pd_env_def])
qed



end
